(* ===== verification/Prelude.thy ===== *)
theory Prelude
  imports Main "HOL-Library.Word"
begin

text \<open>
  Shared vocabulary of the development: the machine integers of the kernel, the ways a Rust
  computation can fail, sequencing of fallible computations, arithmetic with the overflow checks
  of the dev profile, and half-open address ranges.

  The kernel is built by \<^verbatim>\<open>cargo run\<close>, that is in the dev profile (the root \<^verbatim>\<open>Cargo.toml\<close> only
  sets \<^verbatim>\<open>panic = "abort"\<close> there), so an overflowing \<open>+\<close>, \<open>-\<close> or \<open>*\<close> panics and
  \<^verbatim>\<open>debug_assert!\<close> is active. A \<^verbatim>\<open>usize\<close> or \<^verbatim>\<open>u64\<close> that is only added, subtracted and
  compared is a \<open>nat\<close> below \<open>2 ^ 64\<close> and every operation on it is one of the checked
  operations below. A value whose bits the code takes apart is a \<open>word\<close> of its width.
\<close>

section \<open>Machine integers\<close>

type_synonym u8 = "8 word"
type_synonym u16 = "16 word"
type_synonym u32 = "32 word"
type_synonym u64 = "64 word"

section \<open>Failing computations\<close>

text \<open>
  What stops a computation: an overflow check, a division by zero, a failed \<^verbatim>\<open>assert!\<close>, an
  index out of range, an \<^verbatim>\<open>unwrap\<close>/\<^verbatim>\<open>expect\<close> of an absent value, an explicit \<^verbatim>\<open>panic!\<close>,
  an access whose result the language does not define (a read through a pointer to something that
  is not a value of the type read), and a loop that never ends.
\<close>

datatype panic =
    Overflow
  | Div_By_Zero
  | Assertion_Failed
  | Index_Out_Of_Bounds
  | Unwrap_Failed string
  | Panicked string
  | Undefined_Behaviour
  | Diverges

type_synonym 'a outcome = "panic + 'a"

definition bindR :: "'e + 'a \<Rightarrow> ('a \<Rightarrow> 'e + 'b) \<Rightarrow> 'e + 'b" where
  "bindR m f = (case m of Inl e \<Rightarrow> Inl e | Inr x \<Rightarrow> f x)"

definition assertR :: "bool \<Rightarrow> unit outcome" where
  "assertR b = (if b then Inr () else Inl Assertion_Failed)"

definition unwrapR :: "string \<Rightarrow> 'a option \<Rightarrow> 'a outcome" where
  "unwrapR msg x = (case x of None \<Rightarrow> Inl (Unwrap_Failed msg) | Some v \<Rightarrow> Inr v)"

definition is_ok :: "'e + 'a \<Rightarrow> bool" where
  "is_ok r = (case r of Inl _ \<Rightarrow> False | Inr _ \<Rightarrow> True)"

text \<open>A loop defined by \<^theory_text>\<open>partial_function (option)\<close>: no value means that it does not end.\<close>

definition run_loop :: "'a outcome option \<Rightarrow> 'a outcome" where
  "run_loop r = (case r of None \<Rightarrow> Inl Diverges | Some x \<Rightarrow> x)"

text \<open>A \<^verbatim>\<open>for\<close> loop whose body may panic.\<close>

primrec forR :: "('a \<Rightarrow> 's \<Rightarrow> 'e + 's) \<Rightarrow> 'a list \<Rightarrow> 's \<Rightarrow> 'e + 's" where
  "forR f [] s = Inr s"
| "forR f (x # xs) s = bindR (f x s) (forR f xs)"

section \<open>Arithmetic on usize with the checks of the dev profile\<close>

definition add_usize :: "nat \<Rightarrow> nat \<Rightarrow> nat outcome" where
  "add_usize a b = (if a + b < 2 ^ 64 then Inr (a + b) else Inl Overflow)"

definition sub_usize :: "nat \<Rightarrow> nat \<Rightarrow> nat outcome" where
  "sub_usize a b = (if b \<le> a then Inr (a - b) else Inl Overflow)"

definition mul_usize :: "nat \<Rightarrow> nat \<Rightarrow> nat outcome" where
  "mul_usize a b = (if a * b < 2 ^ 64 then Inr (a * b) else Inl Overflow)"

definition rem_usize :: "nat \<Rightarrow> nat \<Rightarrow> nat outcome" where
  "rem_usize a b = (if b = 0 then Inl Div_By_Zero else Inr (a mod b))"

definition div_usize :: "nat \<Rightarrow> nat \<Rightarrow> nat outcome" where
  "div_usize a b = (if b = 0 then Inl Div_By_Zero else Inr (a div b))"

definition checked_add :: "nat \<Rightarrow> nat \<Rightarrow> nat option" where
  "checked_add a b = (if a + b < 2 ^ 64 then Some (a + b) else None)"

text \<open>Arithmetic on \<^verbatim>\<open>u8\<close> with the same checks.\<close>

definition add_u8 :: "u8 \<Rightarrow> u8 \<Rightarrow> u8 outcome" where
  "add_u8 a b = (if unat a + unat b < 2 ^ 8 then Inr (a + b) else Inl Overflow)"

definition mul_u8 :: "u8 \<Rightarrow> u8 \<Rightarrow> u8 outcome" where
  "mul_u8 a b = (if unat a * unat b < 2 ^ 8 then Inr (a * b) else Inl Overflow)"

section \<open>Address ranges\<close>

text \<open>The ranges \<open>[a, a + n)\<close> and \<open>[b, b + m)\<close> have no byte in common.\<close>

definition apart :: "nat \<Rightarrow> nat \<Rightarrow> nat \<Rightarrow> nat \<Rightarrow> bool" where
  "apart a n b m \<longleftrightarrow> a + n \<le> b \<or> b + m \<le> a"

section \<open>Lemmas\<close>

named_theorems usize_defs \<open>the checked operations, unfolded\<close>

declare add_usize_def [usize_defs] sub_usize_def [usize_defs] mul_usize_def [usize_defs]
  rem_usize_def [usize_defs] div_usize_def [usize_defs] checked_add_def [usize_defs]

lemma bindR_simps [simp]:
  "bindR (Inl e) f = Inl e"
  "bindR (Inr x) f = f x"
  by (simp_all add: bindR_def)

lemma bindR_Inr_iff: "bindR m f = Inr y \<longleftrightarrow> (\<exists>x. m = Inr x \<and> f x = Inr y)"
  by (cases m) auto

lemma bindR_Inl_iff: "bindR m f = Inl e \<longleftrightarrow> m = Inl e \<or> (\<exists>x. m = Inr x \<and> f x = Inl e)"
  by (cases m) auto

lemma bindR_assoc: "bindR (bindR m f) g = bindR m (\<lambda>x. bindR (f x) g)"
  by (cases m) auto

lemma bindR_InrE:
  assumes "bindR m f = Inr y"
  obtains x where "m = Inr x" and "f x = Inr y"
  using assms by (auto simp: bindR_Inr_iff)

lemma forR_append: "forR f (xs @ ys) s = bindR (forR f xs s) (forR f ys)"
proof (induction xs arbitrary: s)
  case (Cons x xs)
  then show ?case by (cases "f x s") simp_all
qed simp

text \<open>A loop all of whose turns succeed and keep an invariant succeeds and keeps it.\<close>

lemma forR_inv:
  assumes "I s" and "\<And>x s. x \<in> set xs \<Longrightarrow> I s \<Longrightarrow> \<exists>s'. f x s = Inr s' \<and> I s'"
  shows "\<exists>s'. forR f xs s = Inr s' \<and> I s'"
  using assms
proof (induction xs arbitrary: s)
  case (Cons x xs)
  obtain s' where "f x s = Inr s'" "I s'" using Cons.prems by force
  with Cons.IH [of s'] Cons.prems(2) show ?case by auto
qed simp

lemma forR_keeps:
  assumes "\<And>x s s'. f x s = Inr s' \<Longrightarrow> g s' = g s" and "forR f xs s = Inr s'"
  shows "g s' = g s"
  using assms(2) by (induction xs arbitrary: s) (auto simp: bindR_Inr_iff dest: assms(1))

lemma enumerateE:
  assumes "a \<in> set (enumerate 0 xs)"
  obtains j where "a = (j, xs ! j)" and "j < length xs"
  using assms that [of "fst a"] by (auto simp: in_set_enumerate_eq prod_eq_iff)

lemma assertR_simps [simp]:
  "assertR True = Inr ()"
  "assertR False = Inl Assertion_Failed"
  by (simp_all add: assertR_def)

lemma assertR_Inr_iff [simp]: "assertR b = Inr u \<longleftrightarrow> b"
  by (simp add: assertR_def)

lemma unwrapR_simps [simp]:
  "unwrapR msg None = Inl (Unwrap_Failed msg)"
  "unwrapR msg (Some v) = Inr v"
  by (simp_all add: unwrapR_def)

lemma unwrapR_Inr_iff [simp]: "unwrapR msg x = Inr v \<longleftrightarrow> x = Some v"
  by (cases x) auto

lemma run_loop_simps [simp]: "run_loop None = Inl Diverges" "run_loop (Some x) = x"
  by (simp_all add: run_loop_def)

lemma is_ok_simps [simp]: "\<not> is_ok (Inl e)" "is_ok (Inr x)"
  by (simp_all add: is_ok_def)

lemma is_ok_iff: "is_ok r \<longleftrightarrow> (\<exists>x. r = Inr x)"
  by (cases r) auto

lemma add_usize_Inr_iff: "add_usize a b = Inr c \<longleftrightarrow> c = a + b \<and> a + b < 2 ^ 64"
  by (auto simp: add_usize_def)

lemma sub_usize_Inr_iff: "sub_usize a b = Inr c \<longleftrightarrow> c = a - b \<and> b \<le> a"
  by (auto simp: sub_usize_def)

lemma mul_usize_Inr_iff: "mul_usize a b = Inr c \<longleftrightarrow> c = a * b \<and> a * b < 2 ^ 64"
  by (auto simp: mul_usize_def)

lemmas usize_Inr_iffs = add_usize_Inr_iff sub_usize_Inr_iff mul_usize_Inr_iff

lemma apart_sym: "apart a n b m \<longleftrightarrow> apart b m a n"
  by (auto simp: apart_def)

lemma apart_mono:
  assumes "apart a n b m" and "a \<le> a'" and "a' + n' \<le> a + n" and "b \<le> b'" and "b' + m' \<le> b + m"
  shows "apart a' n' b' m'"
  using assms by (auto simp: apart_def)

lemma apart_self_iff: "apart a n a m \<longleftrightarrow> n = 0 \<or> m = 0"
  by (auto simp: apart_def)

text \<open>Rounding up to a multiple of \<open>a\<close>, the way the standard library does it.\<close>

lemma round_up_bounds:
  assumes "0 < (a::nat)"
  shows "n \<le> (n + a - 1) div a * a" and "(n + a - 1) div a * a \<le> n + a - 1"
proof -
  define k where "k = (n + a - 1) div a"
  have "n + a - 1 = k * a + (n + a - 1) mod a" by (simp add: k_def)
  moreover have "(n + a - 1) mod a < a" using assms by simp
  ultimately show "n \<le> (n + a - 1) div a * a" and "(n + a - 1) div a * a \<le> n + a - 1"
    unfolding k_def [symmetric] by linarith+
qed

end
