(* ===== verification/Alloc_Spec.thy ===== *)
theory Alloc_Spec
  imports Prelude
begin

text \<open>
  What the heap allocators of \<^verbatim>\<open>kernel/src/allocator\<close> share: the \<^verbatim>\<open>Layout\<close> of the core library,
  the function \<^verbatim>\<open>align_up\<close>, and the contract of \<^verbatim>\<open>GlobalAlloc\<close> as a locale. A client of the
  contract sees blocks, that is an address with the layout it was requested with; the contract says
  that live blocks stay aligned, inside the heap and pairwise disjoint, that requests a client may
  make never panic, and that client writes to its own blocks do not disturb the allocator.
\<close>

section \<open>core::alloc::Layout\<close>

record layout =
  l_size :: nat
  l_align :: nat

abbreviation isize_max :: nat where
  "isize_max \<equiv> 2 ^ 63 - 1"

definition is_power_of_two :: "nat \<Rightarrow> bool" where
  "is_power_of_two n = list_ex (\<lambda>k. n = 2 ^ k) [0..<64]"

text \<open>
  \<^verbatim>\<open>Layout::from_size_align\<close>: the alignment is a power of two and the size, rounded up to it,
  does not exceed \<^verbatim>\<open>isize::MAX\<close>.
\<close>

definition layout_from_size_align :: "nat \<Rightarrow> nat \<Rightarrow> layout option" where
  "layout_from_size_align sz align =
     (if is_power_of_two align \<and> sz \<le> isize_max - (align - 1)
      then Some \<lparr>l_size = sz, l_align = align\<rparr> else None)"

definition layout_ok :: "layout \<Rightarrow> bool" where
  "layout_ok l \<longleftrightarrow> layout_from_size_align (l_size l) (l_align l) = Some l"

definition layout_align_to :: "layout \<Rightarrow> nat \<Rightarrow> layout option" where
  "layout_align_to l align = layout_from_size_align (l_size l) (max (l_align l) align)"

definition layout_pad_to_align :: "layout \<Rightarrow> layout" where
  "layout_pad_to_align l =
     l\<lparr>l_size := (l_size l + l_align l - 1) div l_align l * l_align l\<rparr>"

section \<open>align_up\<close>

definition align_up :: "nat \<Rightarrow> nat \<Rightarrow> nat outcome" where
  "align_up addr align =
     bindR (rem_usize addr align) (\<lambda>remainder.
       if remainder = 0 then Inr addr
       else bindR (sub_usize addr remainder) (\<lambda>base. add_usize base align))"

section \<open>Blocks\<close>

type_synonym block = "nat \<times> layout"

definition block_disjoint :: "block \<Rightarrow> block \<Rightarrow> bool" where
  "block_disjoint b c \<longleftrightarrow> apart (fst b) (l_size (snd b)) (fst c) (l_size (snd c))"

definition fresh :: "block \<Rightarrow> block set \<Rightarrow> bool" where
  "fresh b L \<longleftrightarrow> (\<forall>c \<in> L. block_disjoint b c)"

definition in_heap :: "nat \<Rightarrow> nat \<Rightarrow> block \<Rightarrow> bool" where
  "in_heap lo hi b \<longleftrightarrow>
     lo \<le> fst b \<and> fst b + l_size (snd b) \<le> hi \<and> l_align (snd b) dvd fst b"

definition blocks_ok :: "nat \<Rightarrow> nat \<Rightarrow> block set \<Rightarrow> bool" where
  "blocks_ok lo hi L \<longleftrightarrow>
     (\<forall>b \<in> L. in_heap lo hi b) \<and> (\<forall>b \<in> L. \<forall>c \<in> L. b \<noteq> c \<longrightarrow> block_disjoint b c)"

text \<open>A request the contract of \<^verbatim>\<open>GlobalAlloc::alloc\<close> allows: a valid layout of non-zero size.\<close>

definition alloc_request :: "layout \<Rightarrow> bool" where
  "alloc_request l \<longleftrightarrow> layout_ok l \<and> 0 < l_size l"

section \<open>Programs that use a heap\<close>

text \<open>
  The states a program can reach with one allocator: it asks for blocks (and may be refused with a
  null pointer), frees blocks it holds, and writes anywhere inside blocks it holds. The last
  argument is the set of live blocks.
\<close>

inductive heap_reach ::
  "('s \<Rightarrow> layout \<Rightarrow> (nat \<times> 's) outcome) \<Rightarrow> ('s \<Rightarrow> nat \<Rightarrow> layout \<Rightarrow> 's outcome) \<Rightarrow>
   ('s \<Rightarrow> nat \<Rightarrow> nat \<Rightarrow> 's) \<Rightarrow> (layout \<Rightarrow> bool) \<Rightarrow> 's \<Rightarrow> 's \<Rightarrow> block set \<Rightarrow> bool"
  for alloc dealloc touch adm s0 where
  hr_start: "heap_reach alloc dealloc touch adm s0 s0 {}"
| hr_alloc: "heap_reach alloc dealloc touch adm s0 s L \<Longrightarrow> adm l \<Longrightarrow> alloc s l = Inr (p, s') \<Longrightarrow>
     p \<noteq> 0 \<Longrightarrow> heap_reach alloc dealloc touch adm s0 s' (insert (p, l) L)"
| hr_null: "heap_reach alloc dealloc touch adm s0 s L \<Longrightarrow> adm l \<Longrightarrow> alloc s l = Inr (0, s') \<Longrightarrow>
     heap_reach alloc dealloc touch adm s0 s' L"
| hr_dealloc: "heap_reach alloc dealloc touch adm s0 s L \<Longrightarrow> (p, l) \<in> L \<Longrightarrow>
     dealloc s p l = Inr s' \<Longrightarrow> heap_reach alloc dealloc touch adm s0 s' (L - {(p, l)})"
| hr_write: "heap_reach alloc dealloc touch adm s0 s L \<Longrightarrow> (p, l) \<in> L \<Longrightarrow> p \<le> a \<Longrightarrow>
     a + n \<le> p + l_size l \<Longrightarrow> heap_reach alloc dealloc touch adm s0 (touch s a n) L"

text \<open>
  The promise of an allocator in one statement: along every run the live blocks are aligned, in the
  heap and pairwise disjoint, an allowed request does not panic and any block it returns is new,
  and the release of a live block does not panic.
\<close>

definition safe_heap ::
  "('s \<Rightarrow> layout \<Rightarrow> (nat \<times> 's) outcome) \<Rightarrow> ('s \<Rightarrow> nat \<Rightarrow> layout \<Rightarrow> 's outcome) \<Rightarrow>
   ('s \<Rightarrow> nat \<Rightarrow> nat \<Rightarrow> 's) \<Rightarrow> (layout \<Rightarrow> bool) \<Rightarrow> nat \<Rightarrow> nat \<Rightarrow> 's \<Rightarrow> bool" where
  "safe_heap alloc dealloc touch adm lo hi s0 \<longleftrightarrow>
     (\<forall>s L. heap_reach alloc dealloc touch adm s0 s L \<longrightarrow>
        blocks_ok lo hi L \<and>
        (\<forall>l. adm l \<longrightarrow> (\<exists>p s'. alloc s l = Inr (p, s') \<and>
           (p \<noteq> 0 \<longrightarrow> in_heap lo hi (p, l) \<and> fresh (p, l) L))) \<and>
        (\<forall>p l. (p, l) \<in> L \<longrightarrow> (\<exists>s'. dealloc s p l = Inr s')))"

section \<open>Lemmas\<close>

lemma is_power_of_two_iff: "is_power_of_two n \<longleftrightarrow> (\<exists>k < 64. n = 2 ^ k)"
  by (auto simp: is_power_of_two_def list_ex_iff)

lemma is_power_of_two_pos: "is_power_of_two n \<Longrightarrow> 0 < n"
  by (auto simp: is_power_of_two_iff)

lemma is_power_of_two_le: "is_power_of_two n \<Longrightarrow> n \<le> 2 ^ 63"
proof -
  assume "is_power_of_two n"
  then obtain k where k: "k < 64" "n = 2 ^ k" by (auto simp: is_power_of_two_iff)
  then have "(2::nat) ^ k \<le> 2 ^ 63" by (intro power_increasing) auto
  with k show ?thesis by simp
qed

lemma is_power_of_two_dvd:
  assumes "is_power_of_two m" and "is_power_of_two n" and "m \<le> n"
  shows "m dvd n"
proof -
  from assms(1,2) obtain i j where ij: "m = 2 ^ i" "n = 2 ^ j" by (auto simp: is_power_of_two_iff)
  with assms(3) have "i \<le> j" by (simp add: power_le_imp_le_exp)
  with ij show ?thesis by (simp add: le_imp_power_dvd)
qed

lemma is_power_of_two_max:
  "is_power_of_two m \<Longrightarrow> is_power_of_two n \<Longrightarrow> is_power_of_two (max m n)"
  by (simp add: max_def)

lemma layout_ok_iff:
  "layout_ok l \<longleftrightarrow> is_power_of_two (l_align l) \<and> l_size l \<le> isize_max - (l_align l - 1)"
  by (auto simp: layout_ok_def layout_from_size_align_def)

lemma layout_ok_align: "layout_ok l \<Longrightarrow> 0 < l_align l \<and> l_align l \<le> 2 ^ 63"
  using is_power_of_two_le [of "l_align l"] is_power_of_two_pos [of "l_align l"]
  by (simp add: layout_ok_iff)

lemma layout_ok_size: "layout_ok l \<Longrightarrow> l_size l + l_align l \<le> 2 ^ 63"
  using layout_ok_align [of l] by (auto simp: layout_ok_iff)

text \<open>What \<^verbatim>\<open>align_up\<close> computes: the least multiple of the alignment at or above the address.\<close>

definition aligned_above :: "nat \<Rightarrow> nat \<Rightarrow> nat" where
  "aligned_above addr align =
     (if addr mod align = 0 then addr else addr - addr mod align + align)"

lemma aligned_above_props:
  assumes "0 < align"
  shows "align dvd aligned_above addr align"
    and "addr \<le> aligned_above addr align"
    and "aligned_above addr align < addr + align"
proof -
  have eq: "addr - addr mod align = addr div align * align"
    by (simp add: minus_mod_eq_div_mult)
  have lt: "addr mod align < align" using assms by simp
  show "align dvd aligned_above addr align"
    by (auto simp: aligned_above_def eq dvd_eq_mod_eq_0)
  show "addr \<le> aligned_above addr align"
    using lt by (auto simp: aligned_above_def)
  show "aligned_above addr align < addr + align"
    using assms mod_less_eq_dividend [of addr align] by (auto simp: aligned_above_def)
qed

lemma aligned_above_least:
  assumes "0 < align" and "align dvd x" and "addr \<le> x"
  shows "aligned_above addr align \<le> x"
proof (rule ccontr)
  assume "\<not> aligned_above addr align \<le> x"
  then have lt: "x < aligned_above addr align" by simp
  with assms have ne: "addr mod align \<noteq> 0" by (auto simp: aligned_above_def split: if_splits)
  obtain k where k: "x = align * k" using assms(2) by (auto simp: dvd_def)
  have up: "aligned_above addr align = (addr div align + 1) * align"
    using ne by (simp add: aligned_above_def minus_mod_eq_div_mult)
  have "align * k < align * (addr div align + 1)"
    using lt by (simp add: k up algebra_simps)
  then have "k < addr div align + 1"
    using mult_less_cancel1 [of align k "addr div align + 1"] by blast
  then have "align * k \<le> align * (addr div align)" by simp
  also have "\<dots> < addr" using ne
    by (metis add.right_neutral mult.commute div_mult_mod_eq nat_add_left_cancel_less not_gr_zero)
  finally show False using assms(3) k by simp
qed

lemma align_up_eq:
  assumes "0 < align"
  shows "align_up addr align =
    (if aligned_above addr align < 2 ^ 64 \<or> addr mod align = 0
     then Inr (aligned_above addr align) else Inl Overflow)"
  using assms mod_less_eq_dividend [of addr align]
  by (auto simp: align_up_def aligned_above_def usize_defs)

lemma align_up_ok:
  assumes "0 < align" and "align \<le> 2 ^ 63" and "addr \<le> 2 ^ 63"
  shows "align_up addr align = Inr (aligned_above addr align)"
  using aligned_above_props(3) [OF assms(1), of addr] assms(2,3) by (simp add: align_up_eq assms(1))

lemma block_disjoint_sym: "block_disjoint b c \<longleftrightarrow> block_disjoint c b"
  by (auto simp: block_disjoint_def apart_def)

lemma fresh_not_member: "fresh (p, l) L \<Longrightarrow> 0 < l_size l \<Longrightarrow> (p, l) \<notin> L"
  by (auto simp: fresh_def block_disjoint_def apart_self_iff)

lemma fresh_subset: "fresh b L \<Longrightarrow> M \<subseteq> L \<Longrightarrow> fresh b M"
  by (auto simp: fresh_def)

lemma blocks_ok_insert:
  "blocks_ok lo hi L \<Longrightarrow> fresh b L \<Longrightarrow> in_heap lo hi b \<Longrightarrow> blocks_ok lo hi (insert b L)"
  by (auto simp: blocks_ok_def fresh_def block_disjoint_sym)

lemma blocks_ok_subset: "blocks_ok lo hi L \<Longrightarrow> M \<subseteq> L \<Longrightarrow> blocks_ok lo hi M"
  unfolding blocks_ok_def by blast

lemma blocks_ok_empty [simp]: "blocks_ok lo hi {}"
  by (simp add: blocks_ok_def)

section \<open>The contract of a heap allocator\<close>

text \<open>
  \<open>inv s L\<close> ties an allocator state to the set \<open>L\<close> of blocks handed out and not yet freed.
\<close>

locale global_alloc =
  fixes alloc :: "'s \<Rightarrow> layout \<Rightarrow> (nat \<times> 's) outcome"
    and dealloc :: "'s \<Rightarrow> nat \<Rightarrow> layout \<Rightarrow> 's outcome"
    and touch :: "'s \<Rightarrow> nat \<Rightarrow> nat \<Rightarrow> 's"
    and inv :: "'s \<Rightarrow> block set \<Rightarrow> bool"
    and adm :: "layout \<Rightarrow> bool"
    and lo hi :: nat
  assumes alloc_returns: "\<lbrakk>inv s L; adm l\<rbrakk> \<Longrightarrow> \<exists>p s'. alloc s l = Inr (p, s')"
    and alloc_null: "\<lbrakk>inv s L; adm l; alloc s l = Inr (0, s')\<rbrakk> \<Longrightarrow> inv s' L"
    and alloc_fresh: "\<lbrakk>inv s L; adm l; alloc s l = Inr (p, s'); p \<noteq> 0\<rbrakk> \<Longrightarrow> fresh (p, l) L"
    and alloc_inv: "\<lbrakk>inv s L; adm l; alloc s l = Inr (p, s'); p \<noteq> 0\<rbrakk> \<Longrightarrow> inv s' (insert (p, l) L)"
    and dealloc_inv: "\<lbrakk>inv s L; (p, l) \<in> L\<rbrakk> \<Longrightarrow>
      \<exists>s'. dealloc s p l = Inr s' \<and> inv s' (L - {(p, l)})"
    and touch_inv: "\<lbrakk>inv s L; (p, l) \<in> L; p \<le> a; a + n \<le> p + l_size l\<rbrakk> \<Longrightarrow> inv (touch s a n) L"
    and inv_blocks: "inv s L \<Longrightarrow> blocks_ok lo hi L"
    and inv_nonnull: "\<lbrakk>inv s L; (p, l) \<in> L\<rbrakk> \<Longrightarrow> p \<noteq> 0 \<and> adm l"
    and adm_request: "adm l \<Longrightarrow> alloc_request l"
begin

lemma reach_inv:
  assumes "inv s0 {}" and "heap_reach alloc dealloc touch adm s0 s L"
  shows "inv s L"
  using assms(2)
proof (induction rule: heap_reach.induct)
  case hr_start
  show ?case by (rule assms(1))
next
  case (hr_alloc s L l p s')
  then show ?case by (blast intro: alloc_inv)
next
  case (hr_null s L l s')
  then show ?case by (blast intro: alloc_null)
next
  case (hr_dealloc s L p l s')
  then show ?case using dealloc_inv [of s L p l] by auto
next
  case (hr_write s L p l a n)
  then show ?case by (blast intro: touch_inv)
qed

lemma reach_blocks:
  assumes "inv s0 {}" and "heap_reach alloc dealloc touch adm s0 s L"
  shows "blocks_ok lo hi L"
  using assms by (blast intro: inv_blocks reach_inv)

lemma reach_alloc:
  assumes "inv s0 {}" and "heap_reach alloc dealloc touch adm s0 s L" and "adm l"
  shows "\<exists>p s'. alloc s l = Inr (p, s') \<and> (p \<noteq> 0 \<longrightarrow> in_heap lo hi (p, l) \<and> fresh (p, l) L)"
proof -
  have i: "inv s L" by (rule reach_inv [OF assms(1,2)])
  obtain p s' where a: "alloc s l = Inr (p, s')" using alloc_returns [OF i assms(3)] by blast
  have "in_heap lo hi (p, l) \<and> fresh (p, l) L" if "p \<noteq> 0"
    using inv_blocks [OF alloc_inv [OF i assms(3) a that]] alloc_fresh [OF i assms(3) a that]
    by (auto simp: blocks_ok_def)
  with a show ?thesis by blast
qed

lemma reach_dealloc:
  assumes "inv s0 {}" and "heap_reach alloc dealloc touch adm s0 s L" and "(p, l) \<in> L"
  shows "\<exists>s'. dealloc s p l = Inr s'"
  using dealloc_inv [OF reach_inv [OF assms(1,2)] assms(3)] by blast

lemma safe_heapI: "inv s0 {} \<Longrightarrow> safe_heap alloc dealloc touch adm lo hi s0"
  unfolding safe_heap_def using reach_blocks reach_alloc reach_dealloc by blast

end

section \<open>The dummy allocator\<close>

text \<open>\<^verbatim>\<open>Dummy\<close> of \<^verbatim>\<open>allocator.rs\<close> has no state, never has memory, and so is never asked to release any.\<close>

definition dummy_alloc :: "unit \<Rightarrow> layout \<Rightarrow> (nat \<times> unit) outcome" where
  "dummy_alloc s l = Inr (0, s)"

definition dummy_dealloc :: "unit \<Rightarrow> nat \<Rightarrow> layout \<Rightarrow> unit outcome" where
  "dummy_dealloc s p l = Inl (Panicked ''dealloc should be never called'')"

interpretation dummy_heap:
  global_alloc dummy_alloc dummy_dealloc "\<lambda>s a n. s" "\<lambda>s L. L = {}" alloc_request lo hi for lo hi
  by unfold_locales (auto simp: dummy_alloc_def blocks_ok_def)

end
