(* ===== verification/Node_Mem.thy ===== *)
theory Node_Mem
  imports Prelude
begin

text \<open>
  The memory of an intrusive free list: nodes stored inside the free blocks themselves. A memory maps
  an address to the node that starts there. Writing \<open>n\<close> bytes at \<open>a\<close> destroys every node with a
  byte in that range, so a list that a client write or another node overlaps can no longer be read:
  reading a destroyed node is undefined behaviour. Nothing depends on how a node is laid out in its
  \<open>w\<close> bytes.
\<close>

definition mem_clobber :: "nat \<Rightarrow> nat \<Rightarrow> nat \<Rightarrow> (nat \<rightharpoonup> 'n) \<Rightarrow> (nat \<rightharpoonup> 'n)" where
  "mem_clobber w a n m = (\<lambda>x. if n = 0 \<or> apart a n x w then m x else None)"

definition mem_write :: "nat \<Rightarrow> nat \<Rightarrow> 'n \<Rightarrow> (nat \<rightharpoonup> 'n) \<Rightarrow> (nat \<rightharpoonup> 'n)" where
  "mem_write w a v m = (mem_clobber w a w m)(a \<mapsto> v)"

definition mem_read :: "(nat \<rightharpoonup> 'n) \<Rightarrow> nat \<Rightarrow> 'n outcome" where
  "mem_read m a = (case m a of None \<Rightarrow> Inl Undefined_Behaviour | Some n \<Rightarrow> Inr n)"

text \<open>
  \<open>seg val nx m p xs q\<close>: following the \<open>nx\<close> pointers from \<open>p\<close> visits the nodes \<open>xs\<close> (their
  addresses and payloads) and then stands at \<open>q\<close>. A list ends at \<open>None\<close>.
\<close>

primrec seg ::
  "('n \<Rightarrow> 'v) \<Rightarrow> ('n \<Rightarrow> nat option) \<Rightarrow> (nat \<rightharpoonup> 'n) \<Rightarrow> nat option \<Rightarrow> (nat \<times> 'v) list \<Rightarrow> nat option \<Rightarrow> bool"
where
  "seg val nx m p [] q \<longleftrightarrow> p = q"
| "seg val nx m p (x # xs) q \<longleftrightarrow>
     p = Some (fst x) \<and>
     (\<exists>n. m (fst x) = Some n \<and> val n = snd x \<and> seg val nx m (nx n) xs q)"

abbreviation chain ::
  "('n \<Rightarrow> 'v) \<Rightarrow> ('n \<Rightarrow> nat option) \<Rightarrow> (nat \<rightharpoonup> 'n) \<Rightarrow> nat option \<Rightarrow> (nat \<times> 'v) list \<Rightarrow> bool" where
  "chain val nx m p xs \<equiv> seg val nx m p xs None"

text \<open>Where a list whose nodes are \<open>xs\<close> starts.\<close>

definition first_addr :: "(nat \<times> 'v) list \<Rightarrow> nat option" where
  "first_addr xs = (case xs of [] \<Rightarrow> None | x # _ \<Rightarrow> Some (fst x))"

lemma mem_read_Inr_iff [simp]: "mem_read m a = Inr n \<longleftrightarrow> m a = Some n"
  by (simp add: mem_read_def split: option.split)

lemma mem_read_Some [simp]: "m a = Some n \<Longrightarrow> mem_read m a = Inr n"
  by simp

lemma mem_write_same [simp]: "mem_write w a v m a = Some v"
  by (simp add: mem_write_def)

lemma mem_write_other: "apart a w x w \<Longrightarrow> x \<noteq> a \<Longrightarrow> mem_write w a v m x = m x"
  by (simp add: mem_write_def mem_clobber_def)

lemma mem_clobber_other: "apart a n x w \<Longrightarrow> mem_clobber w a n m x = m x"
  by (simp add: mem_clobber_def)

lemma mem_clobber_zero [simp]: "mem_clobber w a 0 m = m"
  by (simp add: mem_clobber_def)

lemma first_addr_simps [simp]: "first_addr [] = None" "first_addr (x # xs) = Some (fst x)"
  by (simp_all add: first_addr_def)

lemma seg_append: "seg val nx m p (xs @ ys) q \<longleftrightarrow> (\<exists>r. seg val nx m p xs r \<and> seg val nx m r ys q)"
  by (induction xs arbitrary: p) auto

lemma seg_cong:
  "(\<And>x. x \<in> set xs \<Longrightarrow> m' (fst x) = m (fst x)) \<Longrightarrow> seg val nx m' p xs q \<longleftrightarrow> seg val nx m p xs q"
  by (induction xs arbitrary: p) auto

lemma chain_first: "chain val nx m p xs \<Longrightarrow> p = first_addr xs"
  by (cases xs) auto

lemma chain_append: "chain val nx m p (xs @ ys) \<longleftrightarrow> seg val nx m p xs (first_addr ys) \<and> chain val nx m (first_addr ys) ys"
  by (auto simp: seg_append dest: chain_first)

lemma seg_last:
  assumes "seg val nx m p xs q" and "xs \<noteq> []"
  shows "\<exists>n. m (fst (last xs)) = Some n \<and> nx n = q"
  using assms by (induction xs arbitrary: p) auto

end
