(* ===== verification/Linked_List.thy ===== *)
theory Linked_List
  imports Alloc_Spec Node_Mem
begin

text \<open>
  \<^verbatim>\<open>kernel/src/allocator/linked_list.rs\<close>: a first-fit allocator whose free list lives inside the
  free regions. The concrete model works on a memory of nodes linked by addresses, with the loop of
  \<^verbatim>\<open>find_region\<close> as a partial function; an abstract model works on the list of free regions. The
  concrete operations refine the abstract ones, and the abstract invariant gives the allocator
  contract.
\<close>

section \<open>The struct and its operations\<close>

record ListNode =
  n_size :: nat
  n_next :: "nat option"

definition node_new :: "nat \<Rightarrow> ListNode" where
  "node_new sz = \<lparr>n_size = sz, n_next = None\<rparr>"

text \<open>\<^verbatim>\<open>mem::size_of::<ListNode>()\<close> and \<^verbatim>\<open>mem::align_of::<ListNode>()\<close> on the 64-bit target.\<close>

abbreviation node_size :: nat where "node_size \<equiv> 16"
abbreviation node_align :: nat where "node_align \<equiv> 8"

record LinkedListAllocator =
  head :: ListNode
  heap_mem :: "nat \<rightharpoonup> ListNode"

text \<open>A node is named by its address; \<^verbatim>\<open>start_addr\<close> is that address.\<close>

definition end_addr :: "nat \<Rightarrow> ListNode \<Rightarrow> nat outcome" where
  "end_addr addr node = add_usize addr (n_size node)"

definition ll_new :: "(nat \<rightharpoonup> ListNode) \<Rightarrow> LinkedListAllocator" where
  "ll_new m = \<lparr>head = node_new 0, heap_mem = m\<rparr>"

definition add_free_region :: "LinkedListAllocator \<Rightarrow> nat \<Rightarrow> nat \<Rightarrow> LinkedListAllocator outcome" where
  "add_free_region self addr sz =
     bindR (align_up addr node_align) (\<lambda>a.
     bindR (assertR (a = addr)) (\<lambda>_.
     bindR (assertR (sz \<ge> node_size)) (\<lambda>_.
       let node = (node_new sz)\<lparr>n_next := n_next (head self)\<rparr>;
           self = self\<lparr>head := (head self)\<lparr>n_next := None\<rparr>\<rparr>;
           self = self\<lparr>heap_mem := mem_write node_size addr node (heap_mem self)\<rparr>
       in Inr (self\<lparr>head := (head self)\<lparr>n_next := Some addr\<rparr>\<rparr>))))"

definition ll_init :: "LinkedListAllocator \<Rightarrow> nat \<Rightarrow> nat \<Rightarrow> LinkedListAllocator outcome" where
  "ll_init self start sz = add_free_region self start sz"

text \<open>\<^verbatim>\<open>alloc_from_region\<close>: \<open>None\<close> is its \<^verbatim>\<open>Err(())\<close>.\<close>

definition alloc_from_region :: "nat \<Rightarrow> ListNode \<Rightarrow> nat \<Rightarrow> nat \<Rightarrow> nat option outcome" where
  "alloc_from_region addr region sz align =
     bindR (align_up addr align) (\<lambda>alloc_start.
       case checked_add alloc_start sz of
         None \<Rightarrow> Inr None
       | Some alloc_end \<Rightarrow>
           bindR (end_addr addr region) (\<lambda>e.
             if alloc_end > e then Inr None
             else bindR (sub_usize e alloc_end) (\<lambda>excess_size.
               if excess_size > 0 \<and> excess_size < node_size then Inr None
               else Inr (Some alloc_start))))"

text \<open>
  The cursor of \<^verbatim>\<open>find_region\<close> is a reference to a node: the head (\<open>None\<close>) or a node in memory.
\<close>

definition node_at :: "LinkedListAllocator \<Rightarrow> nat option \<Rightarrow> ListNode outcome" where
  "node_at self cur =
     (case cur of None \<Rightarrow> Inr (head self) | Some c \<Rightarrow> mem_read (heap_mem self) c)"

definition set_next :: "LinkedListAllocator \<Rightarrow> nat option \<Rightarrow> nat option \<Rightarrow> LinkedListAllocator outcome" where
  "set_next self cur q =
     bindR (node_at self cur) (\<lambda>n.
       Inr (case cur of
          None \<Rightarrow> self\<lparr>head := n\<lparr>n_next := q\<rparr>\<rparr>
        | Some c \<Rightarrow> self\<lparr>heap_mem := mem_write node_size c (n\<lparr>n_next := q\<rparr>) (heap_mem self)\<rparr>))"

text \<open>The removal of the region \<open>r\<close> behind the cursor: two \<^verbatim>\<open>take\<close>s and the relinking.\<close>

definition unlink :: "LinkedListAllocator \<Rightarrow> nat option \<Rightarrow> nat \<Rightarrow> LinkedListAllocator outcome" where
  "unlink self cur r =
     bindR (node_at self (Some r)) (\<lambda>region.
     bindR (set_next self (Some r) None) (\<lambda>self.
     bindR (set_next self cur None) (\<lambda>self.
       set_next self cur (n_next region))))"

partial_function (option) find_region_loop ::
  "LinkedListAllocator \<Rightarrow> nat option \<Rightarrow> nat \<Rightarrow> nat \<Rightarrow>
   ((nat \<times> nat) option \<times> LinkedListAllocator) outcome option"
where
  "find_region_loop self cur sz align =
     (case node_at self cur of
        Inl e \<Rightarrow> Some (Inl e)
      | Inr current \<Rightarrow>
          (case n_next current of
             None \<Rightarrow> Some (Inr (None, self))
           | Some r \<Rightarrow>
               (case node_at self (Some r) of
                  Inl e \<Rightarrow> Some (Inl e)
                | Inr region \<Rightarrow>
                    (case alloc_from_region r region sz align of
                       Inl e \<Rightarrow> Some (Inl e)
                     | Inr (Some alloc_start) \<Rightarrow>
                         Some (bindR (unlink self cur r) (\<lambda>self. Inr (Some (r, alloc_start), self)))
                     | Inr None \<Rightarrow> find_region_loop self (Some r) sz align))))"

definition find_region ::
  "LinkedListAllocator \<Rightarrow> nat \<Rightarrow> nat \<Rightarrow> ((nat \<times> nat) option \<times> LinkedListAllocator) outcome" where
  "find_region self sz align = run_loop (find_region_loop self None sz align)"

definition size_align :: "layout \<Rightarrow> (nat \<times> nat) outcome" where
  "size_align l =
     bindR (unwrapR ''adjusting alignment failed'' (layout_align_to l node_align)) (\<lambda>l.
       let l = layout_pad_to_align l
       in Inr (max (l_size l) node_size, l_align l))"

definition ll_alloc :: "LinkedListAllocator \<Rightarrow> layout \<Rightarrow> (nat \<times> LinkedListAllocator) outcome" where
  "ll_alloc self l =
     bindR (size_align l) (\<lambda>(sz, align).
     bindR (find_region self sz align) (\<lambda>(found, self).
       case found of
         None \<Rightarrow> Inr (0, self)
       | Some (r, alloc_start) \<Rightarrow>
           bindR (unwrapR ''overflow'' (checked_add alloc_start sz)) (\<lambda>alloc_end.
           bindR (node_at self (Some r)) (\<lambda>region.
           bindR (end_addr r region) (\<lambda>e.
           bindR (sub_usize e alloc_end) (\<lambda>excess_size.
             if excess_size > 0
             then bindR (add_free_region self alloc_end excess_size) (\<lambda>self. Inr (alloc_start, self))
             else Inr (alloc_start, self)))))))"

definition ll_dealloc :: "LinkedListAllocator \<Rightarrow> nat \<Rightarrow> layout \<Rightarrow> LinkedListAllocator outcome" where
  "ll_dealloc self p l =
     bindR (size_align l) (\<lambda>(sz, _). add_free_region self p sz)"

text \<open>A client write of \<open>n\<close> bytes at \<open>a\<close>.\<close>

definition ll_touch :: "LinkedListAllocator \<Rightarrow> nat \<Rightarrow> nat \<Rightarrow> LinkedListAllocator" where
  "ll_touch self a n = self\<lparr>heap_mem := mem_clobber node_size a n (heap_mem self)\<rparr>"

section \<open>The abstract free list\<close>

type_synonym region = "nat \<times> nat"

definition region_fit :: "nat \<Rightarrow> nat \<Rightarrow> region \<Rightarrow> nat option" where
  "region_fit sz align r =
     (let s = aligned_above (fst r) align; e = fst r + snd r
      in if s + sz \<le> e \<and> (e = s + sz \<or> node_size \<le> e - (s + sz)) then Some s else None)"

text \<open>First fit: the chosen region, the start of the allocation in it, and the other regions.\<close>

fun first_fit :: "nat \<Rightarrow> nat \<Rightarrow> region list \<Rightarrow> (region \<times> nat \<times> region list) option" where
  "first_fit sz align [] = None"
| "first_fit sz align (r # rs) =
     (case region_fit sz align r of
        Some s \<Rightarrow> Some (r, s, rs)
      | None \<Rightarrow> map_option (\<lambda>(r', s, rs'). (r', s, r # rs')) (first_fit sz align rs))"

definition free_alloc :: "nat \<Rightarrow> nat \<Rightarrow> region list \<Rightarrow> nat \<times> region list" where
  "free_alloc sz align rs =
     (case first_fit sz align rs of
        None \<Rightarrow> (0, rs)
      | Some (r, s, rs') \<Rightarrow>
          (s, if s + sz < fst r + snd r
              then (s + sz, fst r + snd r - (s + sz)) # rs' else rs'))"

definition free_dealloc :: "nat \<Rightarrow> nat \<Rightarrow> region list \<Rightarrow> region list" where
  "free_dealloc p sz rs = (p, sz) # rs"

definition total_free :: "region list \<Rightarrow> nat" where
  "total_free rs = sum_list (map snd rs)"

section \<open>Well-formed free lists and the allocator invariant\<close>

definition region_apart :: "region \<Rightarrow> region \<Rightarrow> bool" where
  "region_apart r t \<longleftrightarrow> apart (fst r) (snd r) (fst t) (snd t)"

definition region_ok :: "nat \<Rightarrow> nat \<Rightarrow> region \<Rightarrow> bool" where
  "region_ok lo hi r \<longleftrightarrow>
     node_align dvd fst r \<and> node_size \<le> snd r \<and> lo \<le> fst r \<and> fst r + snd r \<le> hi"

definition free_ok :: "nat \<Rightarrow> nat \<Rightarrow> region list \<Rightarrow> bool" where
  "free_ok lo hi rs \<longleftrightarrow>
     0 < lo \<and> hi \<le> 2 ^ 63 \<and> list_all (region_ok lo hi) rs \<and> sorted_wrt region_apart rs"

definition ll_rel :: "LinkedListAllocator \<Rightarrow> region list \<Rightarrow> bool" where
  "ll_rel self rs \<longleftrightarrow> chain n_size n_next (heap_mem self) (n_next (head self)) rs"

text \<open>
  The requests the allocator accepts: those whose size can still be rounded up to the alignment of a
  node. What it reserves for a request is \<^verbatim>\<open>size_align\<close> of its layout.
\<close>

definition ll_request :: "layout \<Rightarrow> bool" where
  "ll_request l \<longleftrightarrow> alloc_request l \<and> layout_align_to l node_align \<noteq> None"

definition reserved :: "layout \<Rightarrow> nat" where
  "reserved l = (case size_align l of Inl _ \<Rightarrow> 0 | Inr (sz, _) \<Rightarrow> sz)"

definition block_region :: "block \<Rightarrow> region" where
  "block_region b = (fst b, reserved (snd b))"

definition live_ok :: "nat \<Rightarrow> nat \<Rightarrow> region list \<Rightarrow> block set \<Rightarrow> bool" where
  "live_ok lo hi rs L \<longleftrightarrow>
     (\<forall>b \<in> L. ll_request (snd b) \<and> l_align (snd b) dvd fst b \<and> region_ok lo hi (block_region b) \<and>
        (\<forall>r \<in> set rs. region_apart (block_region b) r)) \<and>
     (\<forall>b \<in> L. \<forall>c \<in> L. b \<noteq> c \<longrightarrow> region_apart (block_region b) (block_region c))"

definition ll_inv :: "nat \<Rightarrow> nat \<Rightarrow> LinkedListAllocator \<Rightarrow> block set \<Rightarrow> bool" where
  "ll_inv lo hi self L \<longleftrightarrow> (\<exists>rs. ll_rel self rs \<and> free_ok lo hi rs \<and> live_ok lo hi rs L)"

section \<open>The size of a reservation\<close>

lemma region_apart_sym: "region_apart r t \<longleftrightarrow> region_apart t r"
  by (auto simp: region_apart_def apart_def)

lemma size_align_eq:
  assumes "ll_request l"
  shows "size_align l = Inr (reserved l, max (l_align l) node_align)"
  using assms by (auto simp: ll_request_def size_align_def reserved_def layout_align_to_def
      layout_from_size_align_def layout_pad_to_align_def Let_def split: if_splits)

lemma request_align:
  assumes "ll_request l"
  shows "node_align dvd max (l_align l) node_align" and "l_align l dvd max (l_align l) node_align"
    and "0 < max (l_align l) node_align" and "max (l_align l) node_align \<le> 2 ^ 63"
proof -
  have p: "is_power_of_two (l_align l)"
    using assms by (simp add: ll_request_def alloc_request_def layout_ok_iff)
  have p8: "is_power_of_two 8" by (auto simp: is_power_of_two_iff intro: exI [of _ 3])
  note pm = is_power_of_two_max [OF p p8]
  show "node_align dvd max (l_align l) node_align" by (rule is_power_of_two_dvd [OF p8 pm]) simp
  show "l_align l dvd max (l_align l) node_align" by (rule is_power_of_two_dvd [OF p pm]) simp
  show "0 < max (l_align l) node_align" by simp
  show "max (l_align l) node_align \<le> 2 ^ 63" by (rule is_power_of_two_le [OF pm])
qed

lemma request_reserved:
  assumes "ll_request l"
  shows "l_size l \<le> reserved l" and "node_size \<le> reserved l" and "node_align dvd reserved l"
proof -
  define al where "al = max (l_align l) node_align"
  define pad where "pad = (l_size l + al - 1) div al * al"
  have al: "0 < al" "node_align dvd al" using request_align [OF assms] by (simp_all add: al_def)
  have r: "reserved l = max pad node_size"
    using assms by (auto simp: ll_request_def reserved_def size_align_def layout_align_to_def
        layout_from_size_align_def layout_pad_to_align_def Let_def pad_def al_def split: if_splits)
  have "l_size l \<le> pad" unfolding pad_def by (rule round_up_bounds(1) [OF al(1)])
  then show "l_size l \<le> reserved l" by (simp add: r)
  show "node_size \<le> reserved l" by (simp add: r)
  have "node_align dvd pad" unfolding pad_def by (rule dvd_mult [OF al(2)])
  then show "node_align dvd reserved l" by (simp add: r max_def)
qed

section \<open>Searching the list in memory refines first fit\<close>

lemma alloc_from_region_eq:
  assumes "region_ok lo hi (a, n_size node)" and "hi \<le> 2 ^ 63" and "0 < align" and "align \<le> 2 ^ 63"
  shows "alloc_from_region a node sz align = Inr (region_fit sz align (a, n_size node))"
proof -
  have b: "a + n_size node \<le> 2 ^ 63" using assms(1,2) by (simp add: region_ok_def)
  have au: "align_up a align = Inr (aligned_above a align)"
    using align_up_ok [OF assms(3,4), of a] b by simp
  show ?thesis
    using b by (auto simp: alloc_from_region_def au region_fit_def end_addr_def usize_defs Let_def)
qed

lemma free_ok_Cons:
  "free_ok lo hi (r # rs) \<longleftrightarrow>
     region_ok lo hi r \<and> (\<forall>t \<in> set rs. region_apart r t) \<and> free_ok lo hi rs"
  by (auto simp: free_ok_def)

lemma free_ok_append:
  "free_ok lo hi (rs @ ts) \<longleftrightarrow>
     free_ok lo hi rs \<and> free_ok lo hi ts \<and> (\<forall>r \<in> set rs. \<forall>t \<in> set ts. region_apart r t)"
  by (auto simp: free_ok_def sorted_wrt_append)

lemma free_ok_region: "free_ok lo hi rs \<Longrightarrow> r \<in> set rs \<Longrightarrow> region_ok lo hi r"
  by (auto simp: free_ok_def list_all_iff)

lemma region_apart_nodes:
  assumes "region_apart r t" and "region_ok lo hi r" and "region_ok lo hi t"
  shows "apart (fst r) node_size (fst t) node_size" and "fst r \<noteq> fst t"
  using assms by (auto simp: region_apart_def region_ok_def apart_def)

lemma free_ok_nodes_apart:
  assumes "free_ok lo hi (xs @ r # ys)" and "t \<in> set (xs @ ys)"
  shows "apart (fst r) node_size (fst t) node_size" and "fst t \<noteq> fst r"
proof -
  have "region_apart r t"
    using assms by (auto simp: free_ok_append free_ok_Cons region_apart_sym)
  moreover have "region_ok lo hi r" and "region_ok lo hi t"
    using assms by (auto intro: free_ok_region)
  ultimately show "apart (fst r) node_size (fst t) node_size" and "fst t \<noteq> fst r"
    using region_apart_nodes [of r t lo hi] by auto
qed

text \<open>Writing the node of one region leaves the nodes of the others alone.\<close>

lemma mem_write_region:
  assumes "free_ok lo hi (xs @ r # ys)" and "t \<in> set (xs @ ys)"
  shows "mem_write node_size (fst r) v m (fst t) = m (fst t)"
  using free_ok_nodes_apart [OF assms] by (simp add: mem_write_other)

definition cursor :: "region list \<Rightarrow> nat option" where
  "cursor xs = (if xs = [] then None else Some (fst (last xs)))"

lemma cursor_simps [simp]: "cursor [] = None" "cursor (xs @ [x]) = Some (fst x)"
  by (simp_all add: cursor_def)

lemma node_at_cursor:
  assumes "ll_rel self (xs @ ys)"
  shows "\<exists>n. node_at self (cursor xs) = Inr n \<and> n_next n = first_addr ys"
proof (cases "xs = []")
  case True
  with assms show ?thesis by (auto simp: ll_rel_def node_at_def dest: chain_first)
next
  case False
  from assms have "seg n_size n_next (heap_mem self) (n_next (head self)) xs (first_addr ys)"
    by (simp add: ll_rel_def chain_append)
  from seg_last [OF this False] False show ?thesis
    by (auto simp: node_at_def cursor_def)
qed

text \<open>
  Redirecting the node behind the cursor. The result is the same memory except for that one node,
  as far as the nodes of the list are concerned.
\<close>

lemma set_next_cursor:
  assumes rel: "ll_rel self (xs @ ys)" and ok: "free_ok lo hi (xs @ zs)"
    and zs: "chain n_size n_next (heap_mem self) q zs"
  shows "\<exists>self'. set_next self (cursor xs) q = Inr self' \<and> ll_rel self' (xs @ zs) \<and>
    (\<forall>a. (\<forall>x \<in> set xs. apart (fst x) node_size a node_size \<and> fst x \<noteq> a) \<longrightarrow>
       heap_mem self' a = heap_mem self a)"
proof (cases xs rule: rev_cases)
  case Nil
  with zs show ?thesis by (auto simp: set_next_def node_at_def ll_rel_def)
next
  case (snoc ws r)
  obtain n where n: "heap_mem self (fst r) = Some n" "n_size n = snd r"
    and ws: "seg n_size n_next (heap_mem self) (n_next (head self)) ws (Some (fst r))"
    using rel by (auto simp: snoc ll_rel_def chain_append seg_append)
  let ?m = "mem_write node_size (fst r) (n\<lparr>n_next := q\<rparr>) (heap_mem self)"
  have ok': "free_ok lo hi (ws @ r # zs)" using ok by (simp add: snoc)
  have fr: "?m (fst x) = heap_mem self (fst x)" if "x \<in> set (ws @ zs)" for x
    by (rule mem_write_region [OF ok' that])
  have "seg n_size n_next ?m (n_next (head self)) ws (Some (fst r))"
    using ws by (subst seg_cong [of ws ?m "heap_mem self"]) (auto intro: fr)
  moreover have "chain n_size n_next ?m q zs"
    using zs by (subst seg_cong [of zs ?m "heap_mem self"]) (auto intro: fr)
  ultimately have "ll_rel (self\<lparr>heap_mem := ?m\<rparr>) (xs @ zs)"
    using n by (simp add: snoc ll_rel_def seg_append)
  then show ?thesis
    using n by (auto simp: set_next_def node_at_def snoc mem_write_other mem_read_Some)
qed

lemma unlink_cursor:
  assumes rel: "ll_rel self (xs @ r # ys)" and ok: "free_ok lo hi (xs @ r # ys)"
  shows "\<exists>self'. unlink self (cursor xs) (fst r) = Inr self' \<and> ll_rel self' (xs @ ys) \<and>
    (\<exists>n. heap_mem self' (fst r) = Some n \<and> n_size n = snd r)"
proof -
  have okx: "free_ok lo hi (xs @ [r])" "free_ok lo hi (xs @ ys)" "free_ok lo hi xs"
    using ok by (auto simp: free_ok_def sorted_wrt_append)
  obtain n where n1: "heap_mem self (fst r) = Some n"
    and ys1: "chain n_size n_next (heap_mem self) (n_next n) ys"
    using rel by (auto simp: ll_rel_def chain_append)
  note n = n1 chain_first [OF ys1] and ys = ys1 [unfolded chain_first [OF ys1]]
  obtain self1 where s1: "set_next self (Some (fst r)) None = Inr self1"
    and rel1: "ll_rel self1 (xs @ [r])"
    and fr1: "\<And>a. \<forall>x \<in> set (xs @ [r]). apart (fst x) node_size a node_size \<and> fst x \<noteq> a \<Longrightarrow>
       heap_mem self1 a = heap_mem self a"
    using set_next_cursor [of self "xs @ [r]" ys lo hi "[]" None] rel okx(1) by auto
  obtain self2 where s2: "set_next self1 (cursor xs) None = Inr self2" and rel2: "ll_rel self2 xs"
    and fr2: "\<And>a. \<forall>x \<in> set xs. apart (fst x) node_size a node_size \<and> fst x \<noteq> a \<Longrightarrow>
       heap_mem self2 a = heap_mem self1 a"
    using set_next_cursor [of self1 xs "[r]" lo hi "[]" None] rel1 okx(3) by auto
  have other: "\<forall>x \<in> set (xs @ [r]). apart (fst x) node_size (fst t) node_size \<and> fst x \<noteq> fst t"
    if t: "t \<in> set ys" for t
  proof -
    obtain us vs where "ys = us @ t # vs" using t by (meson split_list)
    then have "free_ok lo hi ((xs @ r # us) @ t # vs)" using ok by simp
    from free_ok_nodes_apart [OF this] show ?thesis by (simp add: apart_sym [of _ _ "fst t"])
  qed
  have "heap_mem self2 (fst t) = heap_mem self (fst t)" if t: "t \<in> set ys" for t
    using fr1 [OF other [OF t]] fr2 [of "fst t"] other [OF t] by simp
  then have "chain n_size n_next (heap_mem self2) (first_addr ys) ys"
    using ys seg_cong [of ys "heap_mem self2" "heap_mem self"] by blast
  then obtain self3 where s3: "set_next self2 (cursor xs) (first_addr ys) = Inr self3"
    and rel3: "ll_rel self3 (xs @ ys)"
    and fr3: "\<And>a. \<forall>x \<in> set xs. apart (fst x) node_size a node_size \<and> fst x \<noteq> a \<Longrightarrow>
       heap_mem self3 a = heap_mem self2 a"
    using set_next_cursor [of self2 xs "[]" lo hi ys "first_addr ys"] rel2 okx(2) by auto
  have "\<forall>x \<in> set xs. apart (fst x) node_size (fst r) node_size \<and> fst x \<noteq> fst r"
    using free_ok_nodes_apart [OF ok] by (simp add: apart_sym [of _ _ "fst r"])
  then have "heap_mem self3 (fst r) = heap_mem self1 (fst r)"
    using fr2 fr3 by metis
  moreover obtain n1 where "heap_mem self1 (fst r) = Some n1" "n_size n1 = snd r"
    using rel1 by (auto simp: ll_rel_def seg_append)
  ultimately show ?thesis
    using s1 s2 s3 rel3 n by (auto simp: unlink_def node_at_def)
qed

lemma first_fit_split:
  "first_fit sz align rs = Some (r, s, rs') \<Longrightarrow>
   \<exists>ws zs. rs = ws @ r # zs \<and> rs' = ws @ zs \<and> region_fit sz align r = Some s"
proof (induction rs arbitrary: rs')
  case (Cons t rs)
  show ?case
  proof (cases "region_fit sz align t")
    case None
    with Cons.prems obtain ts where "first_fit sz align rs = Some (r, s, ts)" "rs' = t # ts"
      by (auto split: option.splits)
    with Cons.IH show ?thesis by (metis append_Cons)
  next
    case (Some u)
    with Cons.prems have "rs = rs'" "t = r" "u = s" by simp_all
    with Some show ?thesis by (metis append_Nil)
  qed
qed simp

lemma find_region_loop_refines:
  assumes "ll_rel self (xs @ ys)" and "free_ok lo hi (xs @ ys)" and "0 < align" and "align \<le> 2 ^ 63"
  shows "case first_fit sz align ys of
      None \<Rightarrow> find_region_loop self (cursor xs) sz align = Some (Inr (None, self))
    | Some (r, s, ys') \<Rightarrow> \<exists>self'.
        find_region_loop self (cursor xs) sz align = Some (Inr (Some (fst r, s), self')) \<and>
        ll_rel self' (xs @ ys') \<and> (\<exists>n. heap_mem self' (fst r) = Some n \<and> n_size n = snd r)"
  using assms
proof (induction ys arbitrary: xs)
  case Nil
  from node_at_cursor [OF Nil.prems(1)] show ?case
    by (auto simp: find_region_loop.simps [of self "cursor xs"])
next
  case (Cons r ys)
  obtain cur where cur: "node_at self (cursor xs) = Inr cur" "n_next cur = Some (fst r)"
    using node_at_cursor [OF Cons.prems(1)] by auto
  obtain n where n: "node_at self (Some (fst r)) = Inr n" "n_size n = snd r"
    using Cons.prems(1) by (auto simp: ll_rel_def chain_append node_at_def)
  have hi: "hi \<le> 2 ^ 63" and r: "region_ok lo hi (fst r, n_size n)"
    using Cons.prems(2) n(2) by (auto simp: free_ok_def region_ok_def)
  have fit: "alloc_from_region (fst r) n sz align = Inr (region_fit sz align r)"
    using alloc_from_region_eq [OF r hi Cons.prems(3,4)] n(2) by simp
  show ?case
  proof (cases "region_fit sz align r")
    case None
    then have "find_region_loop self (cursor xs) sz align =
        find_region_loop self (cursor (xs @ [r])) sz align"
      using cur n fit by (simp add: find_region_loop.simps [of self "cursor xs"])
    with Cons.IH [of "xs @ [r]"] Cons.prems None show ?thesis
      by (auto split: option.splits)
  next
    case (Some s)
    obtain self' where "unlink self (cursor xs) (fst r) = Inr self'" "ll_rel self' (xs @ ys)"
      "\<exists>n. heap_mem self' (fst r) = Some n \<and> n_size n = snd r"
      using unlink_cursor [OF Cons.prems(1,2)] by blast
    then show ?thesis
      using Some cur n fit by (simp add: find_region_loop.simps [of self "cursor xs"])
  qed
qed

section \<open>The operations refine the abstract free list\<close>

lemma add_free_region_refines:
  assumes rel: "ll_rel self rs" and ok: "free_ok lo hi ((a, sz) # rs)"
  shows "\<exists>self'. add_free_region self a sz = Inr self' \<and> ll_rel self' ((a, sz) # rs)"
proof -
  have a: "node_align dvd a" "node_size \<le> sz"
    using ok by (auto simp: free_ok_Cons region_ok_def)
  have au: "align_up a node_align = Inr a"
    using a(1) by (simp add: align_up_eq aligned_above_def dvd_eq_mod_eq_0)
  let ?m = "mem_write node_size a ((node_new sz)\<lparr>n_next := n_next (head self)\<rparr>) (heap_mem self)"
  have ok': "free_ok lo hi ([] @ (a, sz) # rs)" using ok by simp
  have "?m (fst t) = heap_mem self (fst t)" if "t \<in> set rs" for t
    using mem_write_region [OF ok', of t] that by simp
  then have "chain n_size n_next ?m (n_next (head self)) rs"
    using rel seg_cong [of rs ?m "heap_mem self"] by (auto simp: ll_rel_def)
  then show ?thesis
    using a au by (simp add: add_free_region_def Let_def ll_rel_def node_new_def)
qed

lemma region_fit_props:
  assumes fit: "region_fit sz align r = Some s" and ok: "region_ok lo hi r"
    and al: "0 < align" "node_align dvd align" "node_align dvd sz"
  shows "align dvd s" and "fst r \<le> s" and "s + sz \<le> fst r + snd r"
    and "s + sz < fst r + snd r \<Longrightarrow> region_ok lo hi (s + sz, fst r + snd r - (s + sz))"
proof -
  have s: "s = aligned_above (fst r) align"
    and e: "s + sz \<le> fst r + snd r" "fst r + snd r = s + sz \<or> node_size \<le> fst r + snd r - (s + sz)"
    using fit by (auto simp: region_fit_def Let_def split: if_splits)
  show "align dvd s" and le: "fst r \<le> s"
    using aligned_above_props [OF al(1), of "fst r"] by (simp_all add: s)
  then have "node_align dvd s" using al(2) by (blast intro: dvd_trans)
  then show "s + sz < fst r + snd r \<Longrightarrow> region_ok lo hi (s + sz, fst r + snd r - (s + sz))"
    using e le ok al(3) by (auto simp: region_ok_def)
  show "s + sz \<le> fst r + snd r" by (rule e)
qed

text \<open>
  The regions after a successful allocation: the remainder of the chosen region, if any, and the
  other regions. Everything in them was free before and is apart from the allocated range.
\<close>

lemma region_apart_mono:
  assumes "region_apart t r" and "fst r \<le> a" and "a + n \<le> fst r + snd r"
  shows "region_apart t (a, n)"
  using apart_mono [of "fst t" "snd t" "fst r" "snd r"] assms by (auto simp: region_apart_def)

lemma free_alloc_ok:
  assumes ok: "free_ok lo hi rs" and al: "0 < align" "node_align dvd align" "node_align dvd sz"
    and fa: "free_alloc sz align rs = (p, rs')"
  shows "free_ok lo hi rs'"
    and "p \<noteq> 0 \<Longrightarrow> align dvd p \<and> lo \<le> p \<and> p + sz \<le> hi \<and> (\<forall>t \<in> set rs'. region_apart (p, sz) t)"
    and "\<forall>x. (\<forall>r \<in> set rs. region_apart x r) \<longrightarrow>
           (\<forall>r \<in> set rs'. region_apart x r) \<and> (p \<noteq> 0 \<longrightarrow> region_apart x (p, sz))"
proof -
  consider (none) "first_fit sz align rs = None" "p = 0" "rs' = rs"
    | (some) ws r zs where "rs = ws @ r # zs" "region_fit sz align r = Some p"
        "rs' = (if p + sz < fst r + snd r then [(p + sz, fst r + snd r - (p + sz))] else []) @ ws @ zs"
    using fa first_fit_split [of sz align rs]
    by (cases "first_fit sz align rs") (auto simp: free_alloc_def split: if_splits)
  then have "free_ok lo hi rs' \<and>
    (p \<noteq> 0 \<longrightarrow> align dvd p \<and> lo \<le> p \<and> p + sz \<le> hi \<and> (\<forall>t \<in> set rs'. region_apart (p, sz) t)) \<and>
    (\<forall>x. (\<forall>r \<in> set rs. region_apart x r) \<longrightarrow>
       (\<forall>r \<in> set rs'. region_apart x r) \<and> (p \<noteq> 0 \<longrightarrow> region_apart x (p, sz)))"
  proof cases
    case none
    with ok show ?thesis by simp
  next
    case some
    let ?t = "(p + sz, fst r + snd r - (p + sz))"
    have r: "region_ok lo hi r" and rest: "free_ok lo hi (ws @ zs)"
      and ap: "\<forall>t \<in> set (ws @ zs). region_apart t r"
      using ok some(1) by (auto simp: free_ok_append free_ok_Cons region_apart_sym)
    note fit = region_fit_props [OF some(2) r al]
    have "region_apart t ?t" "region_apart t (p, sz)" if "region_apart t r" for t
      using region_apart_mono [OF that] fit(2,3) by simp_all
    note sub = this
    have pt: "region_apart (p, sz) ?t" by (simp add: region_apart_def apart_def)
    have ws: "\<forall>u \<in> set (ws @ zs). region_apart ?t u \<and> region_apart (p, sz) u"
      using sub ap region_apart_sym by blast
    have "free_ok lo hi rs'" using rest ws fit(4) by (simp add: some free_ok_Cons)
    moreover have "align dvd p \<and> lo \<le> p \<and> p + sz \<le> hi \<and> (\<forall>t \<in> set rs'. region_apart (p, sz) t)"
      using fit(1-3) r ws pt by (auto simp: some region_ok_def)
    moreover have "(\<forall>u \<in> set rs'. region_apart x u) \<and> region_apart x (p, sz)"
      if "\<forall>u \<in> set rs. region_apart x u" for x
      using that sub [of x] by (auto simp: some)
    ultimately show ?thesis by blast
  qed
  then show "free_ok lo hi rs'"
    and "p \<noteq> 0 \<Longrightarrow> align dvd p \<and> lo \<le> p \<and> p + sz \<le> hi \<and> (\<forall>t \<in> set rs'. region_apart (p, sz) t)"
    and "\<forall>x. (\<forall>r \<in> set rs. region_apart x r) \<longrightarrow>
           (\<forall>r \<in> set rs'. region_apart x r) \<and> (p \<noteq> 0 \<longrightarrow> region_apart x (p, sz))"
    by blast+
qed

abbreviation request_alloc :: "layout \<Rightarrow> region list \<Rightarrow> nat \<times> region list" where
  "request_alloc l rs \<equiv> free_alloc (reserved l) (max (l_align l) node_align) rs"

lemma ll_alloc_refines:
  assumes rel: "ll_rel self rs" and ok: "free_ok lo hi rs" and req: "ll_request l"
  shows "\<exists>self'. ll_alloc self l = Inr (fst (request_alloc l rs), self') \<and>
    ll_rel self' (snd (request_alloc l rs))"
proof -
  let ?al = "max (l_align l) node_align" and ?sz = "reserved l"
  note al = request_align [OF req] and sz = request_reserved [OF req]
  have ref: "case first_fit ?sz ?al rs of
      None \<Rightarrow> find_region_loop self None ?sz ?al = Some (Inr (None, self))
    | Some (r, s, rs') \<Rightarrow> \<exists>self'.
        find_region_loop self None ?sz ?al = Some (Inr (Some (fst r, s), self')) \<and>
        ll_rel self' rs' \<and> (\<exists>n. heap_mem self' (fst r) = Some n \<and> n_size n = snd r)"
    by (rule find_region_loop_refines [of self "[]" rs, unfolded cursor_simps append_Nil,
          OF rel ok al(3,4)])
  show ?thesis
  proof (cases "first_fit ?sz ?al rs")
    case None
    with ref rel show ?thesis
      by (simp add: ll_alloc_def size_align_eq [OF req] find_region_def free_alloc_def)
  next
    case (Some x)
    obtain r s rs' where x: "x = (r, s, rs')" by (cases x)
    from ref Some x obtain self1 n where
      f: "find_region_loop self None ?sz ?al = Some (Inr (Some (fst r, s), self1))"
      and rel1: "ll_rel self1 rs'" and n: "heap_mem self1 (fst r) = Some n" "n_size n = snd r"
      by auto
    obtain ws zs where w: "rs = ws @ r # zs" "region_fit ?sz ?al r = Some s"
      using first_fit_split Some x by blast
    have r: "region_ok lo hi r" and hi: "hi \<le> 2 ^ 63"
      using ok w by (auto simp: free_ok_append free_ok_Cons free_ok_def)
    note fit = region_fit_props [OF w(2) r al(3,1) sz(3)]
    have bnd: "fst r + snd r \<le> 2 ^ 63" using r hi by (simp add: region_ok_def)
    let ?rest = "fst r + snd r - (s + ?sz)"
    have step: "ll_alloc self l =
        (if ?rest > 0
         then bindR (add_free_region self1 (s + ?sz) ?rest) (\<lambda>self. Inr (s, self))
         else Inr (s, self1))"
      using f n fit(3) bnd
      by (simp add: ll_alloc_def size_align_eq [OF req] find_region_def node_at_def end_addr_def
          usize_defs)
    have fa: "request_alloc l rs = (s, if ?rest > 0 then (s + ?sz, ?rest) # rs' else rs')"
      using Some x fit(3) by (auto simp: free_alloc_def)
    show ?thesis
    proof (cases "?rest > 0")
      case True
      have "free_ok lo hi ((s + ?sz, ?rest) # rs')"
        using free_alloc_ok(1) [OF ok al(3,1) sz(3) fa] True by simp
      from add_free_region_refines [OF rel1 this] True show ?thesis
        by (auto simp: step fa)
    next
      case False
      with rel1 show ?thesis by (simp add: step fa)
    qed
  qed
qed

lemma ll_dealloc_refines:
  assumes rel: "ll_rel self rs" and req: "ll_request l"
    and ok: "free_ok lo hi (free_dealloc p (reserved l) rs)"
  shows "\<exists>self'. ll_dealloc self p l = Inr self' \<and> ll_rel self' (free_dealloc p (reserved l) rs)"
  using add_free_region_refines [OF rel ok [unfolded free_dealloc_def]]
  by (simp add: ll_dealloc_def size_align_eq [OF req] free_dealloc_def)

section \<open>The allocator contract\<close>

lemma block_region_disjoint:
  assumes "region_apart (block_region b) (block_region c)" and "ll_request (snd b)" and "ll_request (snd c)"
  shows "block_disjoint b c"
  using assms(1) request_reserved(1) [OF assms(2)] request_reserved(1) [OF assms(3)]
  by (auto simp: region_apart_def block_region_def block_disjoint_def apart_def)

lemma ll_alloc_inv:
  assumes rel: "ll_rel self rs" and ok: "free_ok lo hi rs" and live: "live_ok lo hi rs L"
    and req: "ll_request l" and p: "fst (request_alloc l rs) = p" "p \<noteq> 0"
  shows "fresh (p, l) L" and "live_ok lo hi (snd (request_alloc l rs)) (insert (p, l) L)"
proof -
  note al = request_align [OF req] and sz = request_reserved [OF req]
  obtain rs' where fa: "request_alloc l rs = (p, rs')" using p(1) by (metis prod.collapse)
  note fok = free_alloc_ok [OF ok al(3,1) sz(3) fa]
  have old: "(\<forall>r \<in> set rs'. region_apart (block_region b) r) \<and>
      region_apart (block_region b) (block_region (p, l))" if "b \<in> L" for b
    using fok(3) live that p(2) by (auto simp: live_ok_def block_region_def)
  have new: "l_align l dvd p" "region_ok lo hi (block_region (p, l))"
    "\<forall>r \<in> set rs'. region_apart (block_region (p, l)) r"
    using fok(2) [OF p(2)] al sz by (auto simp: block_region_def region_ok_def intro: dvd_trans)
  show "fresh (p, l) L"
    unfolding fresh_def
  proof
    fix b assume b: "b \<in> L"
    then have "ll_request (snd b)" using live by (auto simp: live_ok_def)
    then have "block_disjoint b (p, l)"
      using block_region_disjoint [of b "(p, l)"] old [OF b] req by simp
    then show "block_disjoint (p, l) b" using block_disjoint_sym by blast
  qed
  show "live_ok lo hi (snd (request_alloc l rs)) (insert (p, l) L)"
    unfolding fa snd_conv live_ok_def
  proof (intro conjI ballI impI)
    fix b c assume bc: "b \<in> insert (p, l) L" "c \<in> insert (p, l) L" "b \<noteq> c"
    then consider "b \<in> L" "c \<in> L" | "b = (p, l)" "c \<in> L" | "b \<in> L" "c = (p, l)" by blast
    then show "region_apart (block_region b) (block_region c)"
      using live old bc(3) region_apart_sym unfolding live_ok_def by cases blast+
  qed (use live old new req in \<open>auto simp: live_ok_def\<close>)
qed

lemma live_ok_dealloc:
  assumes ok: "free_ok lo hi rs" and live: "live_ok lo hi rs L" and b: "(p, l) \<in> L"
  shows "free_ok lo hi (free_dealloc p (reserved l) rs)"
    and "live_ok lo hi (free_dealloc p (reserved l) rs) (L - {(p, l)})"
proof -
  have "region_ok lo hi (p, reserved l)" "\<forall>r \<in> set rs. region_apart (p, reserved l) r"
    using live b by (auto simp: live_ok_def block_region_def)
  then show "free_ok lo hi (free_dealloc p (reserved l) rs)"
    using ok by (simp add: free_dealloc_def free_ok_Cons)
  have "region_apart (block_region c) (p, reserved l)" if "c \<in> L - {(p, l)}" for c
    using live b that unfolding live_ok_def block_region_def by (metis DiffD1 DiffD2 fst_conv singletonI snd_conv)
  then show "live_ok lo hi (free_dealloc p (reserved l) rs) (L - {(p, l)})"
    using live by (auto simp: live_ok_def free_dealloc_def)
qed

lemma ll_touch_rel:
  assumes rel: "ll_rel self rs" and ok: "free_ok lo hi rs" and live: "live_ok lo hi rs L"
    and b: "(p, l) \<in> L" and a: "p \<le> a" "a + n \<le> p + l_size l"
  shows "ll_rel (ll_touch self a n) rs"
proof -
  have req: "ll_request l" and ap: "\<forall>r \<in> set rs. region_apart (p, reserved l) r"
    using live b by (auto simp: live_ok_def block_region_def)
  have "apart a n (fst r) node_size" if r: "r \<in> set rs" for r
    using ap r a request_reserved(1) [OF req] free_ok_region [OF ok r]
    unfolding region_apart_def region_ok_def
    by (intro apart_mono [of p "reserved l" "fst r" "snd r" a n]) auto
  then have "mem_clobber node_size a n (heap_mem self) (fst r) = heap_mem self (fst r)"
    if "r \<in> set rs" for r
    using that by (simp add: mem_clobber_other)
  then show ?thesis
    using rel seg_cong [of rs "mem_clobber node_size a n (heap_mem self)" "heap_mem self"]
    by (auto simp: ll_rel_def ll_touch_def)
qed

lemma ll_inv_blocks:
  assumes "ll_inv lo hi self L"
  shows "blocks_ok lo hi L"
proof -
  obtain rs where live: "live_ok lo hi rs L" using assms by (auto simp: ll_inv_def)
  have "in_heap lo hi b" if "b \<in> L" for b
    using live that request_reserved(1) [of "snd b"]
    by (fastforce simp: live_ok_def in_heap_def region_ok_def block_region_def)
  moreover have "block_disjoint b c" if "b \<in> L" "c \<in> L" "b \<noteq> c" for b c
    using live that by (intro block_region_disjoint) (simp_all add: live_ok_def)
  ultimately show ?thesis by (simp add: blocks_ok_def)
qed

lemma ll_inv_nonnull: "ll_inv lo hi self L \<Longrightarrow> (p, l) \<in> L \<Longrightarrow> p \<noteq> 0 \<and> ll_request l"
  by (auto simp: ll_inv_def live_ok_def free_ok_def region_ok_def block_region_def)

interpretation ll_heap:
  global_alloc ll_alloc ll_dealloc ll_touch "ll_inv lo hi" ll_request lo hi for lo hi
proof
  fix s L l
  assume "ll_inv lo hi s L" and req: "ll_request l"
  then obtain rs where rel: "ll_rel s rs" and ok: "free_ok lo hi rs" and live: "live_ok lo hi rs L"
    by (auto simp: ll_inv_def)
  obtain s1 where al: "ll_alloc s l = Inr (fst (request_alloc l rs), s1)"
    and rel1: "ll_rel s1 (snd (request_alloc l rs))"
    using ll_alloc_refines [OF rel ok req] by blast
  note facts = request_align(3,1) [OF req] request_reserved(3) [OF req]
  have ok1: "free_ok lo hi (snd (request_alloc l rs))"
    by (rule free_alloc_ok(1) [OF ok facts]) (rule prod.collapse [symmetric])
  show "\<exists>p s'. ll_alloc s l = Inr (p, s')" using al by blast
  show "ll_inv lo hi s' L" if "ll_alloc s l = Inr (0, s')" for s'
  proof -
    have "live_ok lo hi (snd (request_alloc l rs)) L"
      using free_alloc_ok(3) [OF ok facts prod.collapse [symmetric]] live
      unfolding live_ok_def by blast
    with that al rel1 ok1 show ?thesis unfolding ll_inv_def by auto
  qed
  fix p s' assume "ll_alloc s l = Inr (p, s')" and p: "p \<noteq> 0"
  then have p': "fst (request_alloc l rs) = p" "s' = s1" using al by auto
  show "fresh (p, l) L" by (rule ll_alloc_inv(1) [OF rel ok live req p'(1) p])
  show "ll_inv lo hi s' (insert (p, l) L)"
    using ll_alloc_inv(2) [OF rel ok live req p'(1) p] rel1 ok1 p'(2) unfolding ll_inv_def by blast
next
  fix s L p l
  assume "ll_inv lo hi s L" and b: "(p, l) \<in> L"
  then obtain rs where rel: "ll_rel s rs" and ok: "free_ok lo hi rs" and live: "live_ok lo hi rs L"
    by (auto simp: ll_inv_def)
  have req: "ll_request l" using live b by (auto simp: live_ok_def)
  show "\<exists>s'. ll_dealloc s p l = Inr s' \<and> ll_inv lo hi s' (L - {(p, l)})"
    using ll_dealloc_refines [OF rel req live_ok_dealloc(1) [OF ok live b]]
      live_ok_dealloc [OF ok live b] unfolding ll_inv_def by blast
  show "ll_inv lo hi (ll_touch s a n) L" if "p \<le> a" "a + n \<le> p + l_size l" for a n
    using ll_touch_rel [OF rel ok live b that] ok live unfolding ll_inv_def by blast
qed (auto simp: ll_request_def intro: ll_inv_blocks dest: ll_inv_nonnull)

section \<open>What the allocator promises\<close>

lemma ll_init_rel:
  assumes "0 < start" and "start + sz \<le> 2 ^ 63" and "ll_init (ll_new m) start sz = Inr self"
  shows "ll_rel self [(start, sz)]" and "free_ok start (start + sz) [(start, sz)]"
proof -
  have "start mod 8 = 0" "16 \<le> sz"
    using assms by (auto simp: ll_init_def add_free_region_def bindR_Inr_iff align_up_eq
        aligned_above_def split: if_splits)
  then show ok: "free_ok start (start + sz) [(start, sz)]"
    using assms by (simp add: free_ok_def region_ok_def dvd_eq_mod_eq_0)
  have "ll_rel (ll_new m) []" by (simp add: ll_rel_def ll_new_def node_new_def)
  from add_free_region_refines [OF this ok] show "ll_rel self [(start, sz)]"
    using assms(3) by (auto simp: ll_init_def)
qed

lemma ll_init_inv:
  assumes "0 < start" and "start + sz \<le> 2 ^ 63" and "ll_init (ll_new m) start sz = Inr self"
  shows "ll_inv start (start + sz) self {}"
  using ll_init_rel [OF assms] by (auto simp: ll_inv_def live_ok_def)

lemma first_fit_None_iff: "first_fit sz align rs = None \<longleftrightarrow> (\<forall>r \<in> set rs. region_fit sz align r = None)"
  by (induction rs) (auto split: option.splits)

lemma free_alloc_null_iff:
  assumes "free_ok lo hi rs" and "0 < align"
  shows "fst (free_alloc sz align rs) = 0 \<longleftrightarrow> (\<forall>r \<in> set rs. region_fit sz align r = None)"
proof (cases "first_fit sz align rs")
  case None
  then show ?thesis using first_fit_None_iff [of sz align rs] by (simp add: free_alloc_def)
next
  case (Some x)
  obtain r s rs' where x: "x = (r, s, rs')" by (cases x)
  obtain ws zs where w: "rs = ws @ r # zs" "region_fit sz align r = Some s"
    using first_fit_split Some x by blast
  have "0 < fst r" using assms(1) w(1) by (auto simp: free_ok_def region_ok_def)
  moreover have "fst r \<le> s"
    using w(2) aligned_above_props(2) [OF assms(2), of "fst r"]
    by (auto simp: region_fit_def Let_def split: if_splits)
  ultimately have "s \<noteq> 0" by simp
  with w Some x show ?thesis by (auto simp: free_alloc_def)
qed

lemma total_free_simps [simp]:
  "total_free [] = 0" "total_free (r # rs) = snd r + total_free rs"
  "total_free (rs @ ts) = total_free rs + total_free ts"
  by (simp_all add: total_free_def)

text \<open>The bytes a successful allocation takes from the list: the block and the gap before it.\<close>

lemma free_alloc_total:
  assumes ok: "free_ok lo hi rs" and al: "0 < align"
    and fa: "free_alloc sz align rs = (p, rs')" and p: "p \<noteq> 0"
  shows "\<exists>r \<in> set rs. fst r \<le> p \<and> p - fst r < align \<and>
    total_free rs = total_free rs' + sz + (p - fst r)"
proof -
  obtain r ts where f: "first_fit sz align rs = Some (r, p, ts)"
    and rs': "rs' = (if p + sz < fst r + snd r then [(p + sz, fst r + snd r - (p + sz))] else []) @ ts"
    using fa p by (auto simp: free_alloc_def split: option.splits if_splits)
  obtain ws zs where w: "rs = ws @ r # zs" "ts = ws @ zs" "region_fit sz align r = Some p"
    using first_fit_split [OF f] by blast
  have fit: "p = aligned_above (fst r) align" "p + sz \<le> fst r + snd r"
    using w(3) by (auto simp: region_fit_def Let_def split: if_splits)
  note ab = aligned_above_props [OF al, of "fst r"]
  show ?thesis
    using fit ab by (intro bexI [of _ r]) (auto simp: rs' w)
qed

lemma small_request:
  "ll_request \<lparr>l_size = 20, l_align = 16\<rparr>" "reserved \<lparr>l_size = 20, l_align = 16\<rparr> = 32"
proof -
  have p16: "is_power_of_two 16" by code_simp
  show "ll_request \<lparr>l_size = 20, l_align = 16\<rparr>" "reserved \<lparr>l_size = 20, l_align = 16\<rparr> = 32"
    by (simp_all add: ll_request_def alloc_request_def layout_ok_def layout_align_to_def
        layout_from_size_align_def p16 reserved_def size_align_def layout_pad_to_align_def Let_def)
qed

text \<open>
  C1: The linked-list allocator, initialised on a heap in the lower half of the address space, is
  safe: along every sequence of allocations, releases and client writes into live blocks, the search
  for a region terminates, the free list in memory stays readable, live blocks are aligned, inside
  the heap and pairwise disjoint, and no allowed request and no release of a live block panics.
\<close>

theorem ll_safe:
  assumes "0 < start" and "start + sz \<le> 2 ^ 63" and "ll_init (ll_new m) start sz = Inr self"
  shows "safe_heap ll_alloc ll_dealloc ll_touch ll_request start (start + sz) self"
  by (rule ll_heap.safe_heapI [OF ll_init_inv [OF assms]])

theorem ll_safe_witness:
  "\<exists>self. ll_init (ll_new Map.empty) 4096 65536 = Inr self \<and>
     safe_heap ll_alloc ll_dealloc ll_touch ll_request 4096 (4096 + 65536) self"
proof -
  obtain self where i: "ll_init (ll_new Map.empty) 4096 65536 = Inr self"
    by (simp add: ll_init_def add_free_region_def align_up_def usize_defs Let_def)
  have "safe_heap ll_alloc ll_dealloc ll_touch ll_request 4096 (4096 + 65536) self"
    by (rule ll_safe [OF _ _ i]) simp_all
  with i show ?thesis by blast
qed

text \<open>
  C14: The allocation on the list in memory refines first fit on the abstract list of free regions: it
  returns the start of the first region that fits and leaves the abstract result list in memory, and
  it returns a null pointer exactly when no region fits.
\<close>

theorem ll_alloc_first_fit:
  assumes "ll_rel self rs" and "free_ok lo hi rs" and "ll_request l"
  shows "\<exists>p self'. ll_alloc self l = Inr (p, self') \<and>
    (p, snd (request_alloc l rs)) = request_alloc l rs \<and> ll_rel self' (snd (request_alloc l rs)) \<and>
    (p = 0 \<longleftrightarrow> (\<forall>r \<in> set rs. region_fit (reserved l) (max (l_align l) node_align) r = None))"
proof -
  obtain self' where "ll_alloc self l = Inr (fst (request_alloc l rs), self')"
    "ll_rel self' (snd (request_alloc l rs))"
    using ll_alloc_refines [OF assms] by blast
  then show ?thesis
    using free_alloc_null_iff [OF assms(2) request_align(3) [OF assms(3)]] by auto
qed

theorem ll_alloc_first_fit_witness:
  "\<exists>p self'. ll_alloc \<lparr>head = \<lparr>n_size = 0, n_next = Some 4104\<rparr>,
       heap_mem = [4104 \<mapsto> \<lparr>n_size = 64, n_next = None\<rparr>]\<rparr> \<lparr>l_size = 20, l_align = 16\<rparr> =
     Inr (p, self') \<and> p = 4112"
proof -
  let ?self = "\<lparr>head = \<lparr>n_size = 0, n_next = Some 4104\<rparr>,
       heap_mem = [4104 \<mapsto> \<lparr>n_size = 64, n_next = None\<rparr>]\<rparr>" and ?l = "\<lparr>l_size = 20, l_align = 16\<rparr>"
  have rel: "ll_rel ?self [(4104, 64)]" by (simp add: ll_rel_def)
  have ok: "free_ok 4096 8192 [(4104, 64)]" by (simp add: free_ok_def region_ok_def)
  obtain p self' where p: "ll_alloc ?self ?l = Inr (p, self')"
    "(p, snd (request_alloc ?l [(4104, 64)])) = request_alloc ?l [(4104, 64)]"
    using ll_alloc_first_fit [OF rel ok small_request(1)] by blast
  then have "p = 4112"
    by (simp add: small_request free_alloc_def region_fit_def aligned_above_def Let_def)
  with p(1) show ?thesis by blast
qed


text \<open>
  C26: The only valid non-empty requests that make the allocator panic are those whose size cannot be
  rounded up to the alignment of a list node: \<^verbatim>\<open>Layout::align_to\<close> fails and its \<^verbatim>\<open>expect\<close> panics.
\<close>

theorem ll_alloc_panics_iff:
  assumes "ll_inv lo hi self L" and "alloc_request l"
  shows "(\<exists>e. ll_alloc self l = Inl e) \<longleftrightarrow> l_align l < node_align \<and> 2 ^ 63 - node_align < l_size l"
proof (cases "ll_request l")
  case True
  then have "\<not> (l_align l < node_align \<and> 2 ^ 63 - node_align < l_size l)"
    by (auto simp: ll_request_def layout_align_to_def layout_from_size_align_def max_def split: if_splits)
  with ll_heap.alloc_returns [OF assms(1) True] show ?thesis by auto
next
  case False
  have l: "is_power_of_two (l_align l)" "l_size l \<le> isize_max - (l_align l - 1)"
    using assms(2) by (simp_all add: alloc_request_def layout_ok_iff)
  have p8: "is_power_of_two 8" by code_simp
  from False have none: "layout_align_to l node_align = None"
    using assms(2) by (simp add: ll_request_def)
  then have "l_align l < node_align \<and> 2 ^ 63 - node_align < l_size l"
    using l is_power_of_two_max [OF l(1) p8]
    by (auto simp: layout_align_to_def layout_from_size_align_def max_def split: if_splits)
  with none show ?thesis by (simp add: ll_alloc_def size_align_def)
qed


theorem ll_alloc_panics_iff_witness:
  "\<exists>e. ll_alloc (ll_new Map.empty) \<lparr>l_size = 2 ^ 63 - 1, l_align = 1\<rparr> = Inl e"
proof -
  have inv: "ll_inv 4096 8192 (ll_new Map.empty) {}"
    by (auto simp: ll_inv_def ll_rel_def ll_new_def node_new_def free_ok_def live_ok_def
        intro: exI [of _ "[]"])
  have p1: "is_power_of_two 1" by code_simp
  have "alloc_request \<lparr>l_size = 2 ^ 63 - 1, l_align = 1\<rparr>"
    using p1 by (simp add: alloc_request_def layout_ok_def layout_from_size_align_def)
  from ll_alloc_panics_iff [OF inv this] show ?thesis by simp
qed

end
