(* ===== verification/Fixed_Size_Block.thy ===== *)
theory Fixed_Size_Block
  imports Alloc_Spec Node_Mem Linked_List
begin

text \<open>
  \<^verbatim>\<open>kernel/src/allocator/fixed_size_block.rs\<close>: the kernel's global allocator. Blocks of nine sizes
  are kept on free lists and everything else goes to a fallback allocator,
  \<^verbatim>\<open>linked_list_allocator::Heap\<close>. That crate is not part of the repository: its operations are the
  arguments \<open>fb_alloc\<close>, \<open>fb_dealloc\<close> (with \<open>0\<close> for \<^verbatim>\<open>allocate_first_fit\<close>'s \<^verbatim>\<open>Err\<close>, since a
  \<^verbatim>\<open>NonNull\<close> is never null) and \<open>fb_touch\<close>, the effect on it of writing into a block it has handed
  out, and what the code relies on is the allocator contract \<open>global_alloc\<close>. The kernel's own
  linked-list allocator fulfils that contract.
\<close>

section \<open>The struct and its operations\<close>

record FsbNode =
  fb_next :: "nat option"

definition BLOCK_SIZES :: "nat list" where
  "BLOCK_SIZES = [8, 16, 32, 64, 128, 256, 512, 1024, 2048]"

record 'f FixedSizeBlockAllocator =
  list_heads :: "nat option list"
  fallback_allocator :: 'f
  block_mem :: "nat \<rightharpoonup> FsbNode"

abbreviation fsb_node_size :: nat where "fsb_node_size \<equiv> 8"
abbreviation fsb_node_align :: nat where "fsb_node_align \<equiv> 8"

definition fsb_new :: "'f \<Rightarrow> (nat \<rightharpoonup> FsbNode) \<Rightarrow> 'f FixedSizeBlockAllocator" where
  "fsb_new heap_empty m =
     \<lparr>list_heads = replicate (length BLOCK_SIZES) None, fallback_allocator = heap_empty, block_mem = m\<rparr>"

definition fsb_init ::
  "('f \<Rightarrow> nat \<Rightarrow> nat \<Rightarrow> 'f outcome) \<Rightarrow> 'f FixedSizeBlockAllocator \<Rightarrow> nat \<Rightarrow> nat \<Rightarrow>
   'f FixedSizeBlockAllocator outcome" where
  "fsb_init fb_init self start sz =
     bindR (fb_init (fallback_allocator self) start sz) (\<lambda>f. Inr (self\<lparr>fallback_allocator := f\<rparr>))"

definition fallback_alloc ::
  "('f \<Rightarrow> layout \<Rightarrow> (nat \<times> 'f) outcome) \<Rightarrow> 'f FixedSizeBlockAllocator \<Rightarrow> layout \<Rightarrow>
   (nat \<times> 'f FixedSizeBlockAllocator) outcome" where
  "fallback_alloc fb_alloc self l =
     bindR (fb_alloc (fallback_allocator self) l) (\<lambda>(p, f). Inr (p, self\<lparr>fallback_allocator := f\<rparr>))"

text \<open>\<^verbatim>\<open>Iterator::position\<close>.\<close>

primrec position :: "('a \<Rightarrow> bool) \<Rightarrow> 'a list \<Rightarrow> nat option" where
  "position P [] = None"
| "position P (x # xs) = (if P x then Some 0 else map_option Suc (position P xs))"

definition list_index :: "layout \<Rightarrow> nat option" where
  "list_index l = position (\<lambda>s. s \<ge> max (l_size l) (l_align l)) BLOCK_SIZES"

text \<open>Storing a list node in a block; the bytes belong to the fallback's heap.\<close>

definition write_node ::
  "('f \<Rightarrow> nat \<Rightarrow> nat \<Rightarrow> 'f) \<Rightarrow> 'f FixedSizeBlockAllocator \<Rightarrow> nat \<Rightarrow> FsbNode \<Rightarrow>
   'f FixedSizeBlockAllocator" where
  "write_node fb_touch self a n =
     self\<lparr>block_mem := mem_write fsb_node_size a n (block_mem self),
          fallback_allocator := fb_touch (fallback_allocator self) a fsb_node_size\<rparr>"

definition fsb_alloc ::
  "('f \<Rightarrow> layout \<Rightarrow> (nat \<times> 'f) outcome) \<Rightarrow> ('f \<Rightarrow> nat \<Rightarrow> nat \<Rightarrow> 'f) \<Rightarrow>
   'f FixedSizeBlockAllocator \<Rightarrow> layout \<Rightarrow> (nat \<times> 'f FixedSizeBlockAllocator) outcome" where
  "fsb_alloc fb_alloc fb_touch self l =
     (case list_index l of
        Some index \<Rightarrow>
          (case list_heads self ! index of
             Some node \<Rightarrow>
               bindR (mem_read (block_mem self) node) (\<lambda>n.
                 let self = self\<lparr>list_heads := (list_heads self)[index := fb_next n]\<rparr>;
                     self = write_node fb_touch self node (n\<lparr>fb_next := None\<rparr>)
                 in Inr (node, self))
           | None \<Rightarrow>
               (let block_size = BLOCK_SIZES ! index; block_align = block_size
                in bindR (unwrapR ''unwrap'' (layout_from_size_align block_size block_align)) (\<lambda>l.
                     fallback_alloc fb_alloc self l)))
      | None \<Rightarrow> fallback_alloc fb_alloc self l)"

definition fsb_dealloc ::
  "('f \<Rightarrow> nat \<Rightarrow> layout \<Rightarrow> 'f outcome) \<Rightarrow> ('f \<Rightarrow> nat \<Rightarrow> nat \<Rightarrow> 'f) \<Rightarrow>
   'f FixedSizeBlockAllocator \<Rightarrow> nat \<Rightarrow> layout \<Rightarrow> 'f FixedSizeBlockAllocator outcome" where
  "fsb_dealloc fb_dealloc fb_touch self p l =
     (case list_index l of
        Some index \<Rightarrow>
          (let new_node = \<lparr>fb_next = list_heads self ! index\<rparr>;
               self = self\<lparr>list_heads := (list_heads self)[index := None]\<rparr>
           in bindR (assertR (fsb_node_size \<le> BLOCK_SIZES ! index)) (\<lambda>_.
              bindR (assertR (fsb_node_align \<le> BLOCK_SIZES ! index)) (\<lambda>_.
                let self = write_node fb_touch self p new_node
                in Inr (self\<lparr>list_heads := (list_heads self)[index := Some p]\<rparr>))))
      | None \<Rightarrow>
          bindR (unwrapR ''unwrap'' (if p = 0 then None else Some p)) (\<lambda>p.
          bindR (fb_dealloc (fallback_allocator self) p l) (\<lambda>f.
            Inr (self\<lparr>fallback_allocator := f\<rparr>))))"

definition fsb_touch ::
  "('f \<Rightarrow> nat \<Rightarrow> nat \<Rightarrow> 'f) \<Rightarrow> 'f FixedSizeBlockAllocator \<Rightarrow> nat \<Rightarrow> nat \<Rightarrow> 'f FixedSizeBlockAllocator" where
  "fsb_touch fb_touch self a n =
     self\<lparr>block_mem := mem_clobber fsb_node_size a n (block_mem self),
          fallback_allocator := fb_touch (fallback_allocator self) a n\<rparr>"

section \<open>The invariant\<close>

definition class_layout :: "nat \<Rightarrow> layout" where
  "class_layout i = \<lparr>l_size = BLOCK_SIZES ! i, l_align = BLOCK_SIZES ! i\<rparr>"

text \<open>The block of the fallback allocator behind a block of the client.\<close>

definition backing :: "block \<Rightarrow> block" where
  "backing b = (fst b, case list_index (snd b) of Some i \<Rightarrow> class_layout i | None \<Rightarrow> snd b)"

text \<open>The blocks on the free lists, when \<open>cs ! i\<close> are the addresses on list \<open>i\<close>.\<close>

definition cached :: "nat list list \<Rightarrow> block set" where
  "cached cs = {(a, class_layout i) | a i. i < length BLOCK_SIZES \<and> a \<in> set (cs ! i)}"

abbreviation fsb_chain :: "(nat \<rightharpoonup> FsbNode) \<Rightarrow> nat option \<Rightarrow> nat list \<Rightarrow> bool" where
  "fsb_chain m p as \<equiv> chain (\<lambda>_. ()) fb_next m p (map (\<lambda>a. (a, ())) as)"

definition lists_ok :: "'f FixedSizeBlockAllocator \<Rightarrow> nat list list \<Rightarrow> bool" where
  "lists_ok self cs \<longleftrightarrow>
     length (list_heads self) = length BLOCK_SIZES \<and> length cs = length BLOCK_SIZES \<and>
     (\<forall>i < length BLOCK_SIZES.
        fsb_chain (block_mem self) (list_heads self ! i) (cs ! i) \<and> distinct (cs ! i))"

definition fsb_inv ::
  "('f \<Rightarrow> block set \<Rightarrow> bool) \<Rightarrow> (layout \<Rightarrow> bool) \<Rightarrow> 'f FixedSizeBlockAllocator \<Rightarrow> block set \<Rightarrow> bool" where
  "fsb_inv fb_inv adm self L \<longleftrightarrow>
     (\<exists>cs. lists_ok self cs \<and> fb_inv (fallback_allocator self) (backing ` L \<union> cached cs) \<and>
        backing ` L \<inter> cached cs = {} \<and> inj_on backing L \<and> (\<forall>b \<in> L. fst b \<noteq> 0 \<and> adm (snd b)))"

section \<open>Size classes\<close>

lemma length_BLOCK_SIZES [simp]: "length BLOCK_SIZES = 9"
  by (simp add: BLOCK_SIZES_def)

lemma position_Some:
  "position P xs = Some i \<Longrightarrow> i < length xs \<and> P (xs ! i) \<and> (\<forall>j < i. \<not> P (xs ! j))"
proof (induction xs arbitrary: i)
  case (Cons x xs)
  then show ?case by (cases i) (auto simp: less_Suc_eq_0_disj split: if_splits)
qed simp

lemma position_None: "position P xs = None \<longleftrightarrow> (\<forall>x \<in> set xs. \<not> P x)"
  by (induction xs) auto

lemma nth_BLOCK_SIZES: "i < 9 \<Longrightarrow> BLOCK_SIZES ! i = 2 ^ (i + 3)"
proof -
  assume "i < 9"
  then have "i \<in> {0, 1, 2, 3, 4, 5, 6, 7, 8}" by auto
  then show ?thesis by (auto simp: BLOCK_SIZES_def)
qed

lemma block_size_power: "i < 9 \<Longrightarrow> is_power_of_two (BLOCK_SIZES ! i)"
  unfolding is_power_of_two_iff by (auto simp: nth_BLOCK_SIZES intro!: exI [of _ "i + 3"])

lemma block_size_bounds: "i < 9 \<Longrightarrow> 8 \<le> BLOCK_SIZES ! i \<and> BLOCK_SIZES ! i \<le> 2048"
proof -
  assume "i < 9"
  then have "BLOCK_SIZES ! i \<in> set BLOCK_SIZES" by (intro nth_mem) simp
  then show ?thesis by (auto simp: BLOCK_SIZES_def)
qed

lemma class_layout_ok: "i < 9 \<Longrightarrow> layout_from_size_align (BLOCK_SIZES ! i) (BLOCK_SIZES ! i) = Some (class_layout i)"
  using block_size_power [of i] block_size_bounds [of i]
  by (auto simp: layout_from_size_align_def class_layout_def)

lemma class_layout_request: "i < 9 \<Longrightarrow> alloc_request (class_layout i)"
  using class_layout_ok [of i] block_size_bounds [of i]
  by (simp add: alloc_request_def layout_ok_def class_layout_def)

lemma list_index_Some:
  assumes "list_index l = Some i"
  shows "i < 9" and "l_size l \<le> BLOCK_SIZES ! i" and "l_align l \<le> BLOCK_SIZES ! i"
  using position_Some [OF assms [unfolded list_index_def]] by simp_all

lemma backing_simps:
  "list_index l = Some i \<Longrightarrow> backing (p, l) = (p, class_layout i)"
  "list_index l = None \<Longrightarrow> backing (p, l) = (p, l)"
  "fst (backing b) = fst b"
  by (simp_all add: backing_def)

lemma backing_contains:
  "l_size (snd b) \<le> l_size (snd (backing b))"
  "layout_ok (snd b) \<Longrightarrow> l_align (snd b) dvd l_align (snd (backing b))"
proof -
  show "l_size (snd b) \<le> l_size (snd (backing b))"
    by (cases "list_index (snd b)") (auto simp: backing_def class_layout_def dest: list_index_Some)
  show "l_align (snd b) dvd l_align (snd (backing b))" if "layout_ok (snd b)"
  proof (cases "list_index (snd b)")
    case (Some i)
    then have "l_align (snd b) dvd BLOCK_SIZES ! i"
      using that list_index_Some [OF Some] block_size_power [of i]
      by (intro is_power_of_two_dvd) (auto simp: layout_ok_iff)
    with Some show ?thesis by (simp add: backing_def class_layout_def)
  qed (simp add: backing_def)
qed

lemma backing_disjoint: "block_disjoint (backing b) (backing c) \<Longrightarrow> block_disjoint b c"
  using backing_contains(1) [of b] backing_contains(1) [of c]
  by (auto simp: block_disjoint_def apart_def backing_simps)

lemma fsb_chain_cong:
  "(\<And>a. a \<in> set as \<Longrightarrow> m' a = m a) \<Longrightarrow> fsb_chain m' p as \<longleftrightarrow> fsb_chain m p as"
  by (rule seg_cong) auto

lemma class_layout_inj: "i < 9 \<Longrightarrow> j < 9 \<Longrightarrow> class_layout i = class_layout j \<longleftrightarrow> i = j"
  by (simp add: class_layout_def nth_BLOCK_SIZES power_inject_exp)

lemma cached_mem: "(a, class_layout i) \<in> cached cs \<longleftrightarrow> a \<in> set (cs ! i)" if "i < 9"
  using that by (auto simp: cached_def class_layout_inj)

lemma cached_pop:
  assumes "length cs = 9" and "i < 9" and "cs ! i = a # as" and "a \<notin> set as"
  shows "cached cs = insert (a, class_layout i) (cached (cs[i := as]))"
    and "(a, class_layout i) \<notin> cached (cs[i := as])"
proof -
  have nth: "cs[i := as] ! j = (if j = i then as else cs ! j)" for j
    using assms(1,2) by simp
  have rep: "(x, m) \<in> cached ds \<longleftrightarrow> (\<exists>j < 9. m = class_layout j \<and> x \<in> set (ds ! j))" for x m ds
    by (auto simp: cached_def)
  have mem: "x \<in> set (cs ! j) \<longleftrightarrow> j = i \<and> x = a \<or> x \<in> set (cs[i := as] ! j)" for x j
    unfolding nth using assms(3) by simp
  have "(x, m) \<in> cached cs \<longleftrightarrow> x = a \<and> m = class_layout i \<or> (x, m) \<in> cached (cs[i := as])" for x m
    unfolding rep mem using assms(2) by blast
  then show "cached cs = insert (a, class_layout i) (cached (cs[i := as]))" by auto
  show "(a, class_layout i) \<notin> cached (cs[i := as])"
    using assms by (simp add: cached_mem)
qed

lemma cached_push:
  assumes "length cs = 9" and "i < 9" and "a \<notin> set (cs ! i)"
  shows "cached (cs[i := a # cs ! i]) = insert (a, class_layout i) (cached cs)"
  using cached_pop(1) [of "cs[i := a # cs ! i]" i a "cs ! i"] assms by simp

lemma lists_ok_pop:
  assumes ok: "lists_ok self cs" and i: "i < 9" and c: "cs ! i = a # as"
    and n: "block_mem self a = Some n"
    and other: "\<And>j x. j < 9 \<Longrightarrow> x \<in> set (cs[i := as] ! j) \<Longrightarrow> apart a fsb_node_size x fsb_node_size \<and> x \<noteq> a"
  shows "lists_ok (write_node fb_touch (self\<lparr>list_heads := (list_heads self)[i := fb_next n]\<rparr>) a v)
    (cs[i := as])"
proof -
  let ?m = "mem_write fsb_node_size a v (block_mem self)"
  have len: "length (list_heads self) = 9" "length cs = 9" using ok by (auto simp: lists_ok_def)
  have "fsb_chain (block_mem self) ((list_heads self)[i := fb_next n] ! j) (cs[i := as] ! j) \<and>
      distinct (cs[i := as] ! j)" if "j < 9" for j
    using ok that i c n len by (cases "j = i") (auto simp: lists_ok_def)
  moreover have "?m x = block_mem self x" if "j < 9" "x \<in> set (cs[i := as] ! j)" for j x
    using other [OF that] by (simp add: mem_write_other)
  ultimately have "fsb_chain ?m ((list_heads self)[i := fb_next n] ! j) (cs[i := as] ! j) \<and>
      distinct (cs[i := as] ! j)" if "j < 9" for j
    using that fsb_chain_cong [of "cs[i := as] ! j" ?m "block_mem self"] by blast
  then show ?thesis using len by (simp add: lists_ok_def write_node_def)
qed

lemma lists_ok_push:
  assumes ok: "lists_ok self cs" and i: "i < 9" and a: "a \<notin> set (cs ! i)"
    and other: "\<And>j x. j < 9 \<Longrightarrow> x \<in> set (cs ! j) \<Longrightarrow> apart a fsb_node_size x fsb_node_size \<and> x \<noteq> a"
  shows "lists_ok ((write_node fb_touch (self\<lparr>list_heads := (list_heads self)[i := None]\<rparr>) a
       \<lparr>fb_next = list_heads self ! i\<rparr>)\<lparr>list_heads := (list_heads self)[i := Some a]\<rparr>) (cs[i := a # cs ! i])"
proof -
  let ?m = "mem_write fsb_node_size a \<lparr>fb_next = list_heads self ! i\<rparr> (block_mem self)"
  have len: "length (list_heads self) = 9" "length cs = 9" using ok by (auto simp: lists_ok_def)
  have "?m x = block_mem self x" if "j < 9" "x \<in> set (cs ! j)" for j x
    using other [OF that] by (simp add: mem_write_other)
  then have old: "fsb_chain ?m (list_heads self ! j) (cs ! j) \<and> distinct (cs ! j)" if "j < 9" for j
    using that ok fsb_chain_cong [of "cs ! j" ?m "block_mem self"] by (simp add: lists_ok_def)
  have "fsb_chain ?m ((list_heads self)[i := Some a] ! j) (cs[i := a # cs ! i] ! j) \<and>
      distinct (cs[i := a # cs ! i] ! j)" if "j < 9" for j
    using old [OF that] i a len by (cases "j = i") auto
  then show ?thesis using len by (simp add: lists_ok_def write_node_def)
qed

lemma lists_ok_clobber:
  assumes ok: "lists_ok self cs"
    and other: "\<And>j x. j < 9 \<Longrightarrow> x \<in> set (cs ! j) \<Longrightarrow> apart a n x fsb_node_size"
  shows "lists_ok (fsb_touch fb_touch self a n) cs"
proof -
  let ?m = "mem_clobber fsb_node_size a n (block_mem self)"
  have "?m x = block_mem self x" if "j < 9" "x \<in> set (cs ! j)" for j x
    using other [OF that] by (simp add: mem_clobber_other)
  then have "fsb_chain ?m (list_heads self ! j) (cs ! j)" if "j < 9" for j
    using that ok fsb_chain_cong [of "cs ! j" ?m "block_mem self"] by (simp add: lists_ok_def)
  then show ?thesis using ok by (simp add: lists_ok_def fsb_touch_def)
qed

lemma lists_ok_fallback: "lists_ok (self\<lparr>fallback_allocator := f\<rparr>) cs \<longleftrightarrow> lists_ok self cs"
  by (simp add: lists_ok_def)

section \<open>An allocator over any fallback that keeps the contract\<close>

locale fsb_over = fb: global_alloc fb_alloc fb_dealloc fb_touch fb_inv adm lo hi
  for fb_alloc :: "'f \<Rightarrow> layout \<Rightarrow> (nat \<times> 'f) outcome"
    and fb_dealloc :: "'f \<Rightarrow> nat \<Rightarrow> layout \<Rightarrow> 'f outcome"
    and fb_touch :: "'f \<Rightarrow> nat \<Rightarrow> nat \<Rightarrow> 'f"
    and fb_inv :: "'f \<Rightarrow> block set \<Rightarrow> bool" and adm :: "layout \<Rightarrow> bool" and lo hi :: nat +
  assumes adm_class: "i < 9 \<Longrightarrow> adm (class_layout i)"
begin

lemma other_node:
  assumes inv: "fb_inv f H" and b: "(p, m) \<in> H" and a: "(a, class_layout i) \<in> H" "i < 9"
    and ne: "(p, m) \<noteq> (a, class_layout i)" and r: "p \<le> x" "x + n \<le> p + l_size m"
  shows "apart x n a fsb_node_size"
proof -
  have "block_disjoint (p, m) (a, class_layout i)"
    using fb.inv_blocks [OF inv] b a ne by (auto simp: blocks_ok_def)
  then show ?thesis
    using r block_size_bounds [OF a(2)] by (auto simp: block_disjoint_def class_layout_def apart_def)
qed

lemma inv_parts:
  assumes "fsb_inv fb_inv adm self L"
  obtains cs where "lists_ok self cs" "fb_inv (fallback_allocator self) (backing ` L \<union> cached cs)"
    "backing ` L \<inter> cached cs = {}" "inj_on backing L" "\<And>b. b \<in> L \<Longrightarrow> fst b \<noteq> 0 \<and> adm (snd b)"
    "length cs = 9"
  using assms unfolding fsb_inv_def lists_ok_def by auto

text \<open>A block that is new to the fallback allocator is new to the client.\<close>

lemma backing_fresh:
  assumes "fresh (backing (p, l)) (backing ` L)"
  shows "fresh (p, l) L"
  using assms by (auto simp: fresh_def intro: backing_disjoint)

lemma backing_new:
  assumes f: "fresh (backing (p, l)) H" and H: "H = backing ` L \<union> cached cs" and l: "adm l"
  shows "backing (p, l) \<notin> H" and "(p, l) \<notin> L"
proof -
  have "0 < l_size (snd (backing (p, l)))"
    using backing_contains(1) [of "(p, l)"] fb.adm_request [OF l] by (simp add: alloc_request_def)
  then show "backing (p, l) \<notin> H"
    using fresh_not_member [of "fst (backing (p, l))" "snd (backing (p, l))" H] f by simp
  then show "(p, l) \<notin> L" using H by auto
qed

text \<open>A block from the fallback allocator.\<close>

lemma fallback_inv:
  assumes inv: "fsb_inv fb_inv adm self L" and l: "adm l"
    and m: "adm m" "backing (p, l) = (p, m)"
    and al: "fallback_alloc fb_alloc self m = Inr (p, self')" and p: "p \<noteq> 0"
  shows "fresh (p, l) L" and "fsb_inv fb_inv adm self' (insert (p, l) L)"
proof -
  obtain cs where cs: "lists_ok self cs" "fb_inv (fallback_allocator self) (backing ` L \<union> cached cs)"
    "backing ` L \<inter> cached cs = {}" "inj_on backing L" "\<And>b. b \<in> L \<Longrightarrow> fst b \<noteq> 0 \<and> adm (snd b)"
    by (rule inv_parts [OF inv]) blast
  obtain f where f: "fb_alloc (fallback_allocator self) m = Inr (p, f)"
    and self': "self' = self\<lparr>fallback_allocator := f\<rparr>"
    using al by (auto simp: fallback_alloc_def bindR_Inr_iff)
  have fr: "fresh (backing (p, l)) (backing ` L \<union> cached cs)"
    using fb.alloc_fresh [OF cs(2) m(1) f p] m(2) by simp
  note new = backing_new [OF fr refl l]
  show "fresh (p, l) L" by (rule backing_fresh [OF fresh_subset [OF fr]]) simp
  have "fb_inv f (backing ` insert (p, l) L \<union> cached cs)"
    using fb.alloc_inv [OF cs(2) m(1) f p] m(2) by simp
  moreover have "inj_on backing (insert (p, l) L)" using cs(4) new by auto
  ultimately show "fsb_inv fb_inv adm self' (insert (p, l) L)"
    unfolding fsb_inv_def self' using cs new l p
    by (intro exI [of _ cs]) (auto simp: lists_ok_fallback)
qed

lemma fallback_null:
  assumes inv: "fsb_inv fb_inv adm self L" and m: "adm m"
    and al: "fallback_alloc fb_alloc self m = Inr (0, self')"
  shows "fsb_inv fb_inv adm self' L"
proof -
  obtain cs where cs: "lists_ok self cs" "fb_inv (fallback_allocator self) (backing ` L \<union> cached cs)"
    "backing ` L \<inter> cached cs = {}" "inj_on backing L" "\<And>b. b \<in> L \<Longrightarrow> fst b \<noteq> 0 \<and> adm (snd b)"
    by (rule inv_parts [OF inv]) blast
  obtain f where f: "fb_alloc (fallback_allocator self) m = Inr (0, f)"
    and self': "self' = self\<lparr>fallback_allocator := f\<rparr>"
    using al by (auto simp: fallback_alloc_def bindR_Inr_iff)
  have "fb_inv f (backing ` L \<union> cached cs)" by (rule fb.alloc_null [OF cs(2) m f])
  then show ?thesis
    unfolding fsb_inv_def self' using cs by (intro exI [of _ cs]) (simp add: lists_ok_fallback)
qed

lemma fallback_returns:
  assumes inv: "fsb_inv fb_inv adm self L" and m: "adm m"
  shows "\<exists>p self'. fallback_alloc fb_alloc self m = Inr (p, self')"
  using fb.alloc_returns [OF _ m] inv by (fastforce simp: fsb_inv_def fallback_alloc_def)

end

context fsb_over
begin

text \<open>A block from a free list.\<close>

lemma pop_inv:
  assumes inv: "fsb_inv fb_inv adm self L" and l: "adm l" and i: "list_index l = Some i"
    and h: "list_heads self ! i = Some a"
  shows "\<exists>self'. fsb_alloc fb_alloc fb_touch self l = Inr (a, self') \<and> a \<noteq> 0 \<and>
    fresh (a, l) L \<and> fsb_inv fb_inv adm self' (insert (a, l) L)"
proof -
  obtain cs where cs: "lists_ok self cs" "fb_inv (fallback_allocator self) (backing ` L \<union> cached cs)"
    "backing ` L \<inter> cached cs = {}" "inj_on backing L" "\<And>b. b \<in> L \<Longrightarrow> fst b \<noteq> 0 \<and> adm (snd b)"
    and len: "length cs = 9" by (rule inv_parts [OF inv]) blast
  let ?H = "backing ` L \<union> cached cs"
  have i9: "i < 9" by (rule list_index_Some [OF i])
  obtain n as where c: "cs ! i = a # as" "a \<notin> set as" and n: "block_mem self a = Some n"
  proof -
    have "fsb_chain (block_mem self) (Some a) (cs ! i)" "distinct (cs ! i)"
      using cs(1) h i9 by (auto simp: lists_ok_def)
    then show thesis using that by (cases "cs ! i") auto
  qed
  have a: "(a, class_layout i) \<in> cached cs" using c(1) by (simp add: cached_mem [OF i9])
  note pop = cached_pop [OF len i9 c]
  have ba: "backing (a, l) = (a, class_layout i)" by (rule backing_simps(1) [OF i])
  have other: "apart a fsb_node_size x fsb_node_size \<and> x \<noteq> a"
    if j: "j < 9" "x \<in> set (cs[i := as] ! j)" for j x
  proof -
    have x: "(x, class_layout j) \<in> cached (cs[i := as])" using j by (simp add: cached_mem)
    then have ne: "(a, class_layout i) \<noteq> (x, class_layout j)" using pop(2) by auto
    have "apart a fsb_node_size x fsb_node_size"
      using other_node [OF cs(2) _ _ j(1) ne, of a fsb_node_size] a x pop(1) block_size_bounds [OF i9]
      by (simp add: class_layout_def)
    then show ?thesis by (auto simp: apart_def)
  qed
  define self' where
    "self' = write_node fb_touch (self\<lparr>list_heads := (list_heads self)[i := fb_next n]\<rparr>) a (n\<lparr>fb_next := None\<rparr>)"
  have al: "fsb_alloc fb_alloc fb_touch self l = Inr (a, self')"
    using i h n by (simp add: fsb_alloc_def self'_def)
  have a0: "a \<noteq> 0" using fb.inv_nonnull [OF cs(2), of a "class_layout i"] a by simp
  have fr: "fresh (a, l) L"
  proof (rule backing_fresh)
    show "fresh (backing (a, l)) (backing ` L)"
      unfolding fresh_def ba
    proof
      fix c assume c: "c \<in> backing ` L"
      then have "(a, class_layout i) \<noteq> c" using a cs(3) by blast
      then show "block_disjoint (a, class_layout i) c"
        using fb.inv_blocks [OF cs(2)] a c unfolding blocks_ok_def by blast
    qed
  qed
  have "fb_inv (fallback_allocator self') (backing ` insert (a, l) L \<union> cached (cs[i := as]))"
    using fb.touch_inv [OF cs(2), of a "class_layout i" a fsb_node_size] a block_size_bounds [OF i9] pop(1)
    by (simp add: self'_def write_node_def ba class_layout_def)
  moreover have "lists_ok self' (cs[i := as])"
    unfolding self'_def by (rule lists_ok_pop [OF cs(1) i9 c(1) n other])
  moreover have "inj_on backing (insert (a, l) L)"
    using cs(3,4) a ba by (auto simp: inj_on_insert)
  moreover have "backing ` insert (a, l) L \<inter> cached (cs[i := as]) = {}"
    using cs(3) pop ba by auto
  ultimately have "fsb_inv fb_inv adm self' (insert (a, l) L)"
    unfolding fsb_inv_def using cs(5) l a0 by (intro exI [of _ "cs[i := as]"]) auto
  with al a0 fr show ?thesis by blast
qed

text \<open>What a request becomes when its free list is empty or it has none.\<close>

lemma alloc_fallback:
  assumes "adm l" and "\<And>i a. list_index l = Some i \<Longrightarrow> list_heads self ! i \<noteq> Some a"
  shows "\<exists>m. adm m \<and> (\<forall>p. backing (p, l) = (p, m)) \<and>
    fsb_alloc fb_alloc fb_touch self l = fallback_alloc fb_alloc self m"
proof (cases "list_index l")
  case None
  then show ?thesis using assms(1) by (simp add: fsb_alloc_def backing_simps)
next
  case (Some i)
  have i9: "i < 9" by (rule list_index_Some [OF Some])
  have "list_heads self ! i = None" using assms(2) [OF Some] by auto
  then show ?thesis
    using Some adm_class [OF i9] class_layout_ok [OF i9]
    by (intro exI [of _ "class_layout i"]) (simp add: fsb_alloc_def backing_simps Let_def)
qed

lemma fsb_dealloc_inv:
  assumes inv: "fsb_inv fb_inv adm self L" and live: "(p, l) \<in> L"
  shows "\<exists>self'. fsb_dealloc fb_dealloc fb_touch self p l = Inr self' \<and>
    fsb_inv fb_inv adm self' (L - {(p, l)})"
proof -
  obtain cs where cs: "lists_ok self cs" "fb_inv (fallback_allocator self) (backing ` L \<union> cached cs)"
    "backing ` L \<inter> cached cs = {}" "inj_on backing L" "\<And>b. b \<in> L \<Longrightarrow> fst b \<noteq> 0 \<and> adm (snd b)"
    and len: "length cs = 9" by (rule inv_parts [OF inv]) blast
  have p0: "p \<noteq> 0" using cs(5) [OF live] by simp
  have rest: "backing ` (L - {(p, l)}) = backing ` L - {backing (p, l)}"
    using inj_on_image_set_diff [OF cs(4), of L "{(p, l)}"] live by simp
  have inj: "inj_on backing (L - {(p, l)})" using cs(4) by (rule inj_on_subset) auto
  show ?thesis
  proof (cases "list_index l")
    case None
    then have b: "backing (p, l) = (p, l)" by (rule backing_simps)
    have ph: "(p, l) \<in> backing ` L" using imageI [OF live, of backing] b by simp
    then obtain f where f: "fb_dealloc (fallback_allocator self) p l = Inr f"
      "fb_inv f (backing ` L \<union> cached cs - {(p, l)})"
      using fb.dealloc_inv [OF cs(2), of p l] by auto
    have "backing ` L \<union> cached cs - {(p, l)} = backing ` (L - {(p, l)}) \<union> cached cs"
      using cs(3) ph b rest by auto
    then have "fsb_inv fb_inv adm (self\<lparr>fallback_allocator := f\<rparr>) (L - {(p, l)})"
      unfolding fsb_inv_def using cs f(2) inj rest
      by (intro exI [of _ cs]) (auto simp: lists_ok_fallback)
    then show ?thesis using None f(1) p0 by (simp add: fsb_dealloc_def)
  next
    case (Some i)
    have i9: "i < 9" by (rule list_index_Some [OF Some])
    have b: "backing (p, l) = (p, class_layout i)" by (rule backing_simps(1) [OF Some])
    have ph: "(p, class_layout i) \<in> backing ` L" using imageI [OF live, of backing] b by simp
    then have pc: "p \<notin> set (cs ! i)" using cs(3) cached_mem [OF i9, of p cs] by auto
    have other: "apart p fsb_node_size x fsb_node_size \<and> x \<noteq> p" if j: "j < 9" "x \<in> set (cs ! j)" for j x
    proof -
      have x: "(x, class_layout j) \<in> cached cs" using j by (simp add: cached_mem)
      then have ne: "(p, class_layout i) \<noteq> (x, class_layout j)" using cs(3) ph by auto
      have "apart p fsb_node_size x fsb_node_size"
        using other_node [OF cs(2) _ _ j(1) ne, of p fsb_node_size] ph x block_size_bounds [OF i9]
        by (simp add: class_layout_def)
      then show ?thesis by (auto simp: apart_def)
    qed
    define self' where "self' =
      (write_node fb_touch (self\<lparr>list_heads := (list_heads self)[i := None]\<rparr>) p
         \<lparr>fb_next = list_heads self ! i\<rparr>)\<lparr>list_heads := (list_heads self)[i := Some p]\<rparr>"
    have de: "fsb_dealloc fb_dealloc fb_touch self p l = Inr self'"
      using Some block_size_bounds [OF i9] by (simp add: fsb_dealloc_def self'_def write_node_def Let_def)
    note push = cached_push [OF len i9 pc]
    have H: "backing ` (L - {(p, l)}) \<union> cached (cs[i := p # cs ! i]) = backing ` L \<union> cached cs"
      using push ph b rest by auto
    have "fb_inv (fallback_allocator self') (backing ` (L - {(p, l)}) \<union> cached (cs[i := p # cs ! i]))"
      unfolding H using fb.touch_inv [OF cs(2), of p "class_layout i" p fsb_node_size] ph block_size_bounds [OF i9]
      by (simp add: self'_def write_node_def class_layout_def)
    moreover have "lists_ok self' (cs[i := p # cs ! i])"
      unfolding self'_def by (rule lists_ok_push [OF cs(1) i9 pc other])
    moreover have "backing ` (L - {(p, l)}) \<inter> cached (cs[i := p # cs ! i]) = {}"
      using cs(3) push b rest by auto
    ultimately have "fsb_inv fb_inv adm self' (L - {(p, l)})"
      unfolding fsb_inv_def using cs(5) inj by blast
    with de show ?thesis by blast
  qed
qed

lemma fsb_touch_inv:
  assumes inv: "fsb_inv fb_inv adm self L" and live: "(p, l) \<in> L" and r: "p \<le> a" "a + n \<le> p + l_size l"
  shows "fsb_inv fb_inv adm (fsb_touch fb_touch self a n) L"
proof -
  obtain cs where cs: "lists_ok self cs" "fb_inv (fallback_allocator self) (backing ` L \<union> cached cs)"
    "backing ` L \<inter> cached cs = {}" "inj_on backing L" "\<And>b. b \<in> L \<Longrightarrow> fst b \<noteq> 0 \<and> adm (snd b)"
    by (rule inv_parts [OF inv]) blast
  obtain m where b: "backing (p, l) = (p, m)" by (simp add: backing_def)
  have bl: "(p, m) \<in> backing ` L" using imageI [OF live, of backing] b by simp
  have r': "a + n \<le> p + l_size m" using r backing_contains(1) [of "(p, l)"] b by simp
  have "apart a n x fsb_node_size" if j: "j < 9" "x \<in> set (cs ! j)" for j x
  proof -
    have x: "(x, class_layout j) \<in> cached cs" using j by (simp add: cached_mem)
    then have "(p, m) \<noteq> (x, class_layout j)" using cs(3) bl by auto
    then show ?thesis using other_node [OF cs(2) _ _ j(1) _ r(1) r'] bl x by simp
  qed
  then have "lists_ok (fsb_touch fb_touch self a n) cs" by (rule lists_ok_clobber [OF cs(1)])
  moreover have "fb_inv (fallback_allocator (fsb_touch fb_touch self a n)) (backing ` L \<union> cached cs)"
    using fb.touch_inv [OF cs(2) _ r(1) r'] bl by (simp add: fsb_touch_def)
  ultimately show ?thesis unfolding fsb_inv_def using cs(3-5) by blast
qed

lemma fsb_nonnull: "fsb_inv fb_inv adm self L \<Longrightarrow> (p, l) \<in> L \<Longrightarrow> p \<noteq> 0 \<and> adm l"
  by (force simp: fsb_inv_def)

lemma fsb_blocks:
  assumes inv: "fsb_inv fb_inv adm self L"
  shows "blocks_ok lo hi L"
proof -
  obtain cs where cs: "fb_inv (fallback_allocator self) (backing ` L \<union> cached cs)"
    "inj_on backing L" "\<And>b. b \<in> L \<Longrightarrow> fst b \<noteq> 0 \<and> adm (snd b)"
    by (rule inv_parts [OF inv]) blast
  note ok = fb.inv_blocks [OF cs(1)]
  have "in_heap lo hi b" if b: "b \<in> L" for b
  proof -
    have "in_heap lo hi (backing b)" using ok b by (simp add: blocks_ok_def)
    moreover have "layout_ok (snd b)"
      using fb.adm_request cs(3) [OF b] by (simp add: alloc_request_def)
    ultimately show ?thesis
      using backing_contains [of b] by (auto simp: in_heap_def backing_simps intro: dvd_trans)
  qed
  moreover have "block_disjoint b c" if "b \<in> L" "c \<in> L" "b \<noteq> c" for b c
    by (rule backing_disjoint) (use ok that inj_onD [OF cs(2), of b c] in \<open>auto simp: blocks_ok_def\<close>)
  ultimately show ?thesis by (simp add: blocks_ok_def)
qed

end

sublocale fsb_over \<subseteq> fsb: global_alloc "fsb_alloc fb_alloc fb_touch" "fsb_dealloc fb_dealloc fb_touch"
  "fsb_touch fb_touch" "fsb_inv fb_inv adm" adm lo hi
proof
  fix self L l
  assume inv: "fsb_inv fb_inv adm self L" and l: "adm l"
  have "\<exists>p self'. fsb_alloc fb_alloc fb_touch self l = Inr (p, self') \<and>
      (p = 0 \<longrightarrow> fsb_inv fb_inv adm self' L) \<and>
      (p \<noteq> 0 \<longrightarrow> fresh (p, l) L \<and> fsb_inv fb_inv adm self' (insert (p, l) L))"
  proof (cases "\<exists>i a. list_index l = Some i \<and> list_heads self ! i = Some a")
    case True
    with pop_inv [OF inv l] show ?thesis by blast
  next
    case False
    then obtain m where m: "adm m" "\<forall>p. backing (p, l) = (p, m)"
      "fsb_alloc fb_alloc fb_touch self l = fallback_alloc fb_alloc self m"
      using alloc_fallback [OF l] by blast
    obtain p self' where "fallback_alloc fb_alloc self m = Inr (p, self')"
      using fallback_returns [OF inv m(1)] by blast
    then show ?thesis using m fallback_inv [OF inv l m(1)] fallback_null [OF inv m(1)] by auto
  qed
  then show "\<exists>p s'. fsb_alloc fb_alloc fb_touch self l = Inr (p, s')"
    and "fsb_alloc fb_alloc fb_touch self l = Inr (0, s') \<Longrightarrow> fsb_inv fb_inv adm s' L"
    and "fsb_alloc fb_alloc fb_touch self l = Inr (p, s') \<Longrightarrow> p \<noteq> 0 \<Longrightarrow> fresh (p, l) L"
    and "fsb_alloc fb_alloc fb_touch self l = Inr (p, s') \<Longrightarrow> p \<noteq> 0 \<Longrightarrow>
      fsb_inv fb_inv adm s' (insert (p, l) L)" for p s'
    by auto
qed (fact fsb_dealloc_inv fsb_touch_inv fsb_blocks fsb_nonnull fb.adm_request)+

context fsb_over
begin

lemma fsb_safe_heap:
  "fsb_inv fb_inv adm self {} \<Longrightarrow>
     safe_heap (fsb_alloc fb_alloc fb_touch) (fsb_dealloc fb_dealloc fb_touch) (fsb_touch fb_touch)
       adm lo hi self"
  by (rule fsb.safe_heapI)

end

lemma class_layout_ll: "i < 9 \<Longrightarrow> ll_request (class_layout i)"
  using class_layout_request [of i] class_layout_ok [of i] block_size_bounds [of i]
  by (auto simp: ll_request_def layout_align_to_def class_layout_def max_def)

text \<open>The kernel's linked-list allocator as the fallback.\<close>

interpretation ll_fsb: fsb_over ll_alloc ll_dealloc ll_touch "ll_inv lo hi" ll_request lo hi for lo hi
  by unfold_locales (rule class_layout_ll)

section \<open>Properties\<close>

lemma fsb_new_inv: "fb_inv f {} \<Longrightarrow> fsb_inv fb_inv adm (fsb_new f m) {}"
proof -
  assume f: "fb_inv f {}"
  have "cached (replicate 9 []) = {}" by (auto simp: cached_def)
  then show ?thesis using f
    by (auto simp: fsb_inv_def fsb_new_def lists_ok_def intro!: exI [of _ "replicate 9 []"])
qed

text \<open>
  C2: The fixed-size block allocator is safe over every fallback allocator that is: if the fallback,
  once initialised on the heap, keeps the allocator contract and accepts the nine block layouts, then
  along every sequence of allocations, releases and client writes into live blocks the blocks handed
  out are aligned, inside the heap and pairwise disjoint, whether they come from a free list or from
  the fallback, the free lists stay readable, and nothing panics.
\<close>

theorem fsb_safe:
  assumes fb: "global_alloc fb_alloc fb_dealloc fb_touch fb_inv adm lo hi"
    and classes: "\<And>i. i < length BLOCK_SIZES \<Longrightarrow> adm (class_layout i)"
    and init: "fb_init heap_empty start sz = Inr f" and inv: "fb_inv f {}"
  shows "\<exists>self. fsb_init fb_init (fsb_new heap_empty m) start sz = Inr self \<and>
    safe_heap (fsb_alloc fb_alloc fb_touch) (fsb_dealloc fb_dealloc fb_touch) (fsb_touch fb_touch)
      adm lo hi self"
proof -
  have over: "fsb_over fb_alloc fb_dealloc fb_touch fb_inv adm lo hi"
    using fb classes by (simp add: fsb_over_def fsb_over_axioms_def)
  have "fsb_init fb_init (fsb_new heap_empty m) start sz = Inr (fsb_new f m)"
    using init by (simp add: fsb_init_def fsb_new_def)
  moreover have "safe_heap (fsb_alloc fb_alloc fb_touch) (fsb_dealloc fb_dealloc fb_touch)
      (fsb_touch fb_touch) adm lo hi (fsb_new f m)"
    by (rule fsb_over.fsb_safe_heap [OF over fsb_new_inv [where fb_inv = fb_inv, OF inv]])
  ultimately show ?thesis by blast
qed

theorem fsb_safe_witness:
  "\<exists>self. fsb_init ll_init (fsb_new (ll_new Map.empty) Map.empty) 4096 65536 = Inr self \<and>
     safe_heap (fsb_alloc ll_alloc ll_touch) (fsb_dealloc ll_dealloc ll_touch) (fsb_touch ll_touch)
       ll_request 4096 (4096 + 65536) self"
proof -
  obtain self where i: "ll_init (ll_new Map.empty) 4096 65536 = Inr self"
    by (simp add: ll_init_def add_free_region_def align_up_def usize_defs Let_def)
  have inv: "ll_inv 4096 (4096 + 65536) self {}" by (rule ll_init_inv [OF _ _ i]) simp_all
  show ?thesis
    by (rule fsb_safe [where fb_init = ll_init and fb_inv = "ll_inv 4096 (4096 + 65536)",
          OF ll_heap.global_alloc_axioms _ i inv]) (simp add: class_layout_ll)
qed

text \<open>
  The free lists are last-in first-out stacks that leave the fallback allocator out: after a block
  of a size class is released, the next request of that class gets the same block, whatever the
  fallback would have answered, and the free lists are what they were before the release.
\<close>

theorem fsb_reuse:
  assumes "list_index l = Some i" and "list_index l' = Some i"
    and "length (list_heads self) = length BLOCK_SIZES"
  shows "\<exists>self1 self2. fsb_dealloc fb_dealloc fb_touch self p l = Inr self1 \<and>
    fsb_alloc fb_alloc fb_touch self1 l' = Inr (p, self2) \<and> list_heads self2 = list_heads self"
  using assms list_index_Some(1) [OF assms(1)] block_size_bounds [of i]
  by (auto simp: fsb_dealloc_def fsb_alloc_def write_node_def Let_def)

theorem fsb_reuse_witness:
  "\<exists>self1 self2. fsb_dealloc ll_dealloc ll_touch (fsb_new (ll_new Map.empty) Map.empty) 4096
       \<lparr>l_size = 20, l_align = 4\<rparr> = Inr self1 \<and>
     fsb_alloc ll_alloc ll_touch self1 \<lparr>l_size = 32, l_align = 8\<rparr> = Inr (4096, self2) \<and>
     list_heads self2 = replicate 9 None"
proof -
  have "list_index \<lparr>l_size = 20, l_align = 4\<rparr> = Some 2" "list_index \<lparr>l_size = 32, l_align = 8\<rparr> = Some 2"
    by (simp_all add: list_index_def BLOCK_SIZES_def)
  from fsb_reuse [OF this, of "fsb_new (ll_new Map.empty) Map.empty"] show ?thesis
    by (simp add: fsb_new_def)
qed

text \<open>
  A layout is served from a free list exactly when its size and its alignment are at most 2048, and
  then from the smallest class that holds both: class \<open>i\<close> serves the requirements above \<open>2 ^ (i + 2)\<close>
  up to \<open>2 ^ (i + 3)\<close>, and class 0 everything up to 8 bytes.
\<close>

theorem list_index_classes:
  "list_index l = Some i \<longleftrightarrow>
     i < 9 \<and> max (l_size l) (l_align l) \<le> 2 ^ (i + 3) \<and> (i = 0 \<or> 2 ^ (i + 2) < max (l_size l) (l_align l))"
proof (cases "i < 9")
  case True
  define r where "r = max (l_size l) (l_align l)"
  from True have "i \<in> {0, 1, 2, 3, 4, 5, 6, 7, 8}" by auto
  then have "position (\<lambda>s. r \<le> s) [8, 16, 32, 64, 128, 256, 512, 1024, 2048] = Some i \<longleftrightarrow>
      r \<le> 2 ^ (i + 3) \<and> (i = 0 \<or> 2 ^ (i + 2) < r)"
    by (elim insertE) auto
  with True show ?thesis by (simp add: list_index_def BLOCK_SIZES_def r_def)
next
  case False
  then show ?thesis using list_index_Some(1) by blast
qed

end
