(* ===== verification/Paging.thy ===== *)
theory Paging
  imports Fixed_Size_Block
begin

text \<open>
  \<^verbatim>\<open>kernel/src/memory.rs\<close>, \<^verbatim>\<open>kernel/src/allocator/page.rs\<close> and \<^verbatim>\<open>init_heap\<close> of
  \<^verbatim>\<open>kernel/src/allocator.rs\<close>: physical frames from the boot loader's memory map, virtual pages
  for device mappings, the page-table walk, and the mapping of the kernel heap.

  The address types, the page-table mapper and their operations come from the crate \<^verbatim>\<open>x86_64\<close>. They
  are the fields of a record of functions; the documented behaviour the kernel relies on is stated in
  \<open>x86_docs\<close> and \<open>mapper_docs\<close>. Addresses are numbers, and a page or a frame is its start address.
\<close>

section \<open>The crate\<close>

record x86_64 =
  virt_new :: "nat \<Rightarrow> nat outcome"
  virt_new_truncate :: "nat \<Rightarrow> nat"
  virt_add :: "nat \<Rightarrow> nat \<Rightarrow> nat outcome"
  virt_sub :: "nat \<Rightarrow> nat \<Rightarrow> nat outcome"
  page_containing :: "nat \<Rightarrow> nat"
  page_from_start :: "nat \<Rightarrow> nat option"
  range_inclusive :: "nat \<Rightarrow> nat \<Rightarrow> nat list"
  phys_new :: "nat \<Rightarrow> nat outcome"
  phys_add :: "nat \<Rightarrow> nat \<Rightarrow> nat outcome"
  phys_align_down :: "nat \<Rightarrow> nat \<Rightarrow> nat"
  phys_align_up :: "nat \<Rightarrow> nat \<Rightarrow> nat outcome"
  frame_containing :: "nat \<Rightarrow> nat"
  p4_index :: "nat \<Rightarrow> nat"
  p3_index :: "nat \<Rightarrow> nat"
  p2_index :: "nat \<Rightarrow> nat"
  p1_index :: "nat \<Rightarrow> nat"
  page_offset :: "nat \<Rightarrow> nat"

text \<open>
  Lower-half virtual addresses are below \<open>2 ^ 47\<close> and physical addresses below \<open>2 ^ 52\<close>; constructors
  and additions accept them and panic outside. Pages and frames have 4096 bytes, and the four table
  indices and the page offset are the fields of the address.
\<close>

definition x86_docs :: "x86_64 \<Rightarrow> bool" where
  "x86_docs X \<longleftrightarrow>
     (\<forall>a < 2 ^ 47. virt_new X a = Inr a \<and> virt_new_truncate X a = a) \<and>
     (\<forall>a b. a + b < 2 ^ 47 \<longrightarrow> virt_add X a b = Inr (a + b)) \<and>
     (\<forall>a b. a < 2 ^ 47 \<and> b \<le> a \<longrightarrow> virt_sub X a b = Inr (a - b)) \<and>
     (\<forall>a. page_containing X a = a - a mod 4096 \<and> frame_containing X a = a - a mod 4096) \<and>
     (\<forall>a. page_from_start X a = (if 4096 dvd a then Some a else None)) \<and>
     (\<forall>a n. 4096 dvd a \<and> a + 4096 * n < 2 ^ 47 \<longrightarrow>
        range_inclusive X a (a + 4096 * n) = map (\<lambda>i. a + 4096 * i) [0..<n + 1]) \<and>
     (\<forall>a < 2 ^ 52. phys_new X a = Inr a) \<and>
     (\<forall>a b. a + b < 2 ^ 52 \<longrightarrow> phys_add X a b = Inr (a + b)) \<and>
     (\<forall>a. phys_align_down X a 4096 = a - a mod 4096) \<and>
     (\<forall>a. aligned_above a 4096 < 2 ^ 52 \<longrightarrow> phys_align_up X a 4096 = Inr (aligned_above a 4096)) \<and>
     (\<forall>a. p4_index X a = a div 2 ^ 39 mod 512 \<and> p3_index X a = a div 2 ^ 30 mod 512 \<and>
        p2_index X a = a div 2 ^ 21 mod 512 \<and> p1_index X a = a div 2 ^ 12 mod 512 \<and>
        page_offset X a = a mod 4096)"

datatype FrameError = FrameNotPresent | HugeFrame

datatype MapToError = FrameAllocationFailed | ParentEntryHugePage | PageAlreadyMapped nat

datatype PageTableFlag = PRESENT | WRITABLE | NO_CACHE

section \<open>Physical frames\<close>

datatype MemoryRegionKind = Usable | Bootloader | UnknownUefi u32 | UnknownBios u32

record MemoryRegion =
  r_start :: nat
  r_end :: nat
  r_kind :: MemoryRegionKind

record BootInfoFrameAllocator =
  memory_regions :: "MemoryRegion list"
  next_frame :: nat

definition frame_allocator_init :: "MemoryRegion list \<Rightarrow> BootInfoFrameAllocator" where
  "frame_allocator_init regions = \<lparr>memory_regions = regions, next_frame = 0\<rparr>"

text \<open>\<^verbatim>\<open>(start..end).step_by(4096)\<close>.\<close>

definition step_by_4096 :: "nat \<Rightarrow> nat \<Rightarrow> nat list" where
  "step_by_4096 start e = map (\<lambda>k. start + 4096 * k) [0..<(e - start + 4095) div 4096]"

definition frame_addresses :: "MemoryRegion list \<Rightarrow> nat list" where
  "frame_addresses regions =
     concat (map (\<lambda>r. step_by_4096 (r_start r) (r_end r)) (filter (\<lambda>r. r_kind r = Usable) regions))"

text \<open>
  The iterator of \<^verbatim>\<open>usable_frames\<close>: an item is computed when the iterator reaches it, so the list
  holds the computations of its items. \<open>iter_nth\<close> is \<^verbatim>\<open>Iterator::nth\<close>, which computes the items it
  skips.
\<close>

definition usable_frames :: "x86_64 \<Rightarrow> BootInfoFrameAllocator \<Rightarrow> nat outcome list" where
  "usable_frames X self =
     map (\<lambda>addr. bindR (phys_new X addr) (\<lambda>a. Inr (frame_containing X a)))
       (frame_addresses (memory_regions self))"

fun iter_nth :: "'a outcome list \<Rightarrow> nat \<Rightarrow> 'a option outcome" where
  "iter_nth [] n = Inr None"
| "iter_nth (x # xs) 0 = bindR x (\<lambda>v. Inr (Some v))"
| "iter_nth (x # xs) (Suc n) = bindR x (\<lambda>_. iter_nth xs n)"

fun iter_find :: "('a \<Rightarrow> bool) \<Rightarrow> 'a outcome list \<Rightarrow> 'a option outcome" where
  "iter_find P [] = Inr None"
| "iter_find P (x # xs) = bindR x (\<lambda>v. if P v then Inr (Some v) else iter_find P xs)"

definition allocate_frame ::
  "x86_64 \<Rightarrow> BootInfoFrameAllocator \<Rightarrow> (nat option \<times> BootInfoFrameAllocator) outcome" where
  "allocate_frame X self =
     bindR (iter_nth (usable_frames X self) (next_frame self)) (\<lambda>frame.
     bindR (add_usize (next_frame self) 1) (\<lambda>n.
       Inr (frame, self\<lparr>next_frame := n\<rparr>)))"

definition allocate_frame_from_physical ::
  "x86_64 \<Rightarrow> BootInfoFrameAllocator \<Rightarrow> nat \<Rightarrow> (nat option \<times> BootInfoFrameAllocator) outcome" where
  "allocate_frame_from_physical X self ptr =
     (let ptr = phys_align_down X ptr 4096
      in bindR (iter_find (\<lambda>frame. frame = ptr) (usable_frames X self)) (\<lambda>r. Inr (r, self)))"

section \<open>Virtual pages\<close>

record PageAllocatorImpl =
  page_addr :: nat

definition page_allocator_new :: "x86_64 \<Rightarrow> PageAllocatorImpl" where
  "page_allocator_new X = \<lparr>page_addr = virt_new_truncate X 0x1000000000\<rparr>"

definition allocate_n :: "x86_64 \<Rightarrow> PageAllocatorImpl \<Rightarrow> nat \<Rightarrow> (nat \<times> PageAllocatorImpl) outcome" where
  "allocate_n X allocator n =
     bindR (assertR (n \<noteq> 0)) (\<lambda>_.
     bindR (mul_usize n 4096) (\<lambda>sz.
       let addr = page_addr allocator
       in bindR (virt_add X (page_addr allocator) sz) (\<lambda>a.
            Inr (addr, allocator\<lparr>page_addr := a\<rparr>))))"

definition allocate_page :: "x86_64 \<Rightarrow> PageAllocatorImpl \<Rightarrow> (nat \<times> PageAllocatorImpl) outcome" where
  "allocate_page X allocator = allocate_n X allocator 1"

section \<open>The page-table walk\<close>

text \<open>
  The walk reads the entries of page tables through the physical-memory mapping: \<open>table_frame ptr i\<close>
  is \<^verbatim>\<open>frame()\<close> of entry \<open>i\<close> of the table at the virtual address \<open>ptr\<close>, and \<open>cr3\<close> the frame of the
  level-4 table.
\<close>

fun translate_levels ::
  "x86_64 \<Rightarrow> (nat \<Rightarrow> nat \<Rightarrow> FrameError + nat) \<Rightarrow> nat \<Rightarrow> nat list \<Rightarrow> nat \<Rightarrow> nat option outcome" where
  "translate_levels X table_frame off [] frame = Inr (Some frame)"
| "translate_levels X table_frame off (index # indexes) frame =
     bindR (virt_add X off frame) (\<lambda>table_ptr.
       case table_frame table_ptr index of
         Inr frame \<Rightarrow> translate_levels X table_frame off indexes frame
       | Inl FrameNotPresent \<Rightarrow> Inr None
       | Inl HugeFrame \<Rightarrow> Inl (Panicked ''huge pages not supported''))"

definition translate_addr_inner ::
  "x86_64 \<Rightarrow> nat \<Rightarrow> (nat \<Rightarrow> nat \<Rightarrow> FrameError + nat) \<Rightarrow> nat \<Rightarrow> nat \<Rightarrow> nat option outcome" where
  "translate_addr_inner X cr3 table_frame addr off =
     (let table_indexes = [p4_index X addr, p3_index X addr, p2_index X addr, p1_index X addr]
      in bindR (translate_levels X table_frame off table_indexes cr3) (\<lambda>r.
           case r of
             None \<Rightarrow> Inr None
           | Some frame \<Rightarrow> bindR (phys_add X frame (page_offset X addr)) (\<lambda>a. Inr (Some a))))"

definition translate_addr ::
  "x86_64 \<Rightarrow> nat \<Rightarrow> (nat \<Rightarrow> nat \<Rightarrow> FrameError + nat) \<Rightarrow> nat \<Rightarrow> nat \<Rightarrow> nat option outcome" where
  "translate_addr X cr3 table_frame addr off = translate_addr_inner X cr3 table_frame addr off"

section \<open>The mapper\<close>

datatype UnmapError = Unmap_ParentEntryHugePage | PageNotMapped | InvalidFrameAddress nat

text \<open>
  An \<^verbatim>\<open>OffsetPageTable\<close> of the crate is a state of type \<open>'m\<close>. \<open>map_to\<close> may take frames for new page
  tables from the frame allocator it is given. The last two fields only observe a state: the frame and
  the flags a page is mapped to, and whether a page can be mapped (it is not mapped yet, and no huge
  page covers it).
\<close>

record 'm mapper_ops =
  map_to :: "'m \<Rightarrow> nat \<Rightarrow> nat \<Rightarrow> PageTableFlag set \<Rightarrow> BootInfoFrameAllocator \<Rightarrow>
    ((MapToError + unit) \<times> 'm \<times> BootInfoFrameAllocator) outcome"
  unmap :: "'m \<Rightarrow> nat \<Rightarrow> ((UnmapError + nat) \<times> 'm) outcome"
  mapped :: "'m \<Rightarrow> nat \<Rightarrow> (nat \<times> PageTableFlag set) option"
  free_page :: "'m \<Rightarrow> nat \<Rightarrow> bool"

text \<open>Frames the allocator has not handed out yet.\<close>

definition frames_left :: "BootInfoFrameAllocator \<Rightarrow> nat" where
  "frames_left fa = length (frame_addresses (memory_regions fa)) - next_frame fa"

text \<open>
  Mapping a page that can be mapped succeeds if three frames are left, one for each level of page
  tables below the first, and changes the mapping of that page only; unmapping a mapped page succeeds
  and changes that page only.
\<close>

definition mapper_docs :: "'m mapper_ops \<Rightarrow> bool" where
  "mapper_docs M \<longleftrightarrow>
     (\<forall>m page frame flags fa. free_page M m page \<and> 4096 dvd page \<and> 4096 dvd frame \<and> 3 \<le> frames_left fa \<longrightarrow>
        (\<exists>m' k. k \<le> 3 \<and>
           map_to M m page frame flags fa = Inr (Inr (), m', fa\<lparr>next_frame := next_frame fa + k\<rparr>) \<and>
           mapped M m' = (mapped M m)(page \<mapsto> (frame, flags)) \<and>
           (\<forall>q. free_page M m' q \<longleftrightarrow> free_page M m q \<and> q \<noteq> page))) \<and>
     (\<forall>m page frame flags. mapped M m page = Some (frame, flags) \<longrightarrow>
        (\<exists>m'. unmap M m page = Inr (Inr frame, m') \<and> mapped M m' = (mapped M m)(page := None) \<and>
           (\<forall>q. free_page M m' q \<longleftrightarrow> free_page M m q \<or> q = page))) \<and>
     (\<forall>m page. free_page M m page \<longrightarrow> mapped M m page = None)"

record 'm kernel_memory =
  km_mapper :: "'m option"
  km_frames :: "BootInfoFrameAllocator option"
  km_pages :: PageAllocatorImpl

text \<open>
  \<^verbatim>\<open>with_mapper\<close> and \<^verbatim>\<open>with_frame_allocator\<close>. The closure gets the content of the lock and the other
  globals, and returns them together with its result.
\<close>

definition with_mapper ::
  "('m \<Rightarrow> 'm kernel_memory \<Rightarrow> ('r \<times> 'm \<times> 'm kernel_memory) outcome) \<Rightarrow> 'm kernel_memory \<Rightarrow>
   ('r \<times> 'm kernel_memory) outcome" where
  "with_mapper f km =
     bindR (unwrapR ''unwrap'' (km_mapper km)) (\<lambda>mapper.
     bindR (f mapper km) (\<lambda>(r, mapper, km). Inr (r, km\<lparr>km_mapper := Some mapper\<rparr>)))"

definition with_frame_allocator ::
  "(BootInfoFrameAllocator \<Rightarrow> ('r \<times> BootInfoFrameAllocator) outcome) \<Rightarrow> 'm kernel_memory \<Rightarrow>
   ('r \<times> 'm kernel_memory) outcome" where
  "with_frame_allocator f km =
     bindR (unwrapR ''unwrap'' (km_frames km)) (\<lambda>allocator.
     bindR (f allocator) (\<lambda>(r, allocator). Inr (r, km\<lparr>km_frames := Some allocator\<rparr>)))"

text \<open>
  \<^verbatim>\<open>init_mapper\<close>: \<open>new_table\<close> is \<^verbatim>\<open>OffsetPageTable::new\<close> on the table at the given virtual address.
\<close>

definition active_level_4_table :: "x86_64 \<Rightarrow> nat \<Rightarrow> nat \<Rightarrow> nat outcome" where
  "active_level_4_table X cr3 off = virt_add X off cr3"

definition init_mapper ::
  "x86_64 \<Rightarrow> (nat \<Rightarrow> nat \<Rightarrow> 'm) \<Rightarrow> nat \<Rightarrow> nat \<Rightarrow> 'm kernel_memory \<Rightarrow> 'm kernel_memory outcome" where
  "init_mapper X new_table cr3 off km =
     bindR (active_level_4_table X cr3 off) (\<lambda>level_4_table.
       Inr (km\<lparr>km_mapper := Some (new_table level_4_table off)\<rparr>))"

definition init_frame_allocator :: "MemoryRegion list \<Rightarrow> 'm kernel_memory \<Rightarrow> 'm kernel_memory" where
  "init_frame_allocator regions km = km\<lparr>km_frames := Some (frame_allocator_init regions)\<rparr>"

section \<open>Mapping the kernel heap\<close>

definition HEAP_START :: nat where "HEAP_START = 0x444444440000"

definition HEAP_SIZE :: nat where "HEAP_SIZE = 1024 * 1024"

definition heap_pages :: "x86_64 \<Rightarrow> nat list outcome" where
  "heap_pages X =
     bindR (virt_new X HEAP_START) (\<lambda>heap_start.
     bindR (bindR (virt_add X heap_start HEAP_SIZE) (\<lambda>e. virt_sub X e 1)) (\<lambda>heap_end.
       let heap_start_page = page_containing X heap_start;
           heap_end_page = page_containing X heap_end
       in Inr (range_inclusive X heap_start_page heap_end_page)))"

fun map_heap_pages ::
  "x86_64 \<Rightarrow> 'm mapper_ops \<Rightarrow> nat list \<Rightarrow> 'm \<Rightarrow> BootInfoFrameAllocator \<Rightarrow>
   ((MapToError + unit) \<times> 'm \<times> BootInfoFrameAllocator) outcome" where
  "map_heap_pages X M [] mapper fa = Inr (Inr (), mapper, fa)"
| "map_heap_pages X M (page # pages) mapper fa =
     bindR (allocate_frame X fa) (\<lambda>(frame, fa).
       case frame of
         None \<Rightarrow> Inr (Inl FrameAllocationFailed, mapper, fa)
       | Some frame \<Rightarrow>
           bindR (map_to M mapper page frame {PRESENT, WRITABLE} fa) (\<lambda>(r, mapper, fa).
             case r of
               Inl e \<Rightarrow> Inr (Inl e, mapper, fa)
             | Inr _ \<Rightarrow> map_heap_pages X M pages mapper fa))"

text \<open>\<open>fb_init\<close> is \<^verbatim>\<open>init\<close> of the global allocator's fallback.\<close>

definition init_heap ::
  "x86_64 \<Rightarrow> 'm mapper_ops \<Rightarrow> ('f \<Rightarrow> nat \<Rightarrow> nat \<Rightarrow> 'f outcome) \<Rightarrow> 'm \<Rightarrow> BootInfoFrameAllocator \<Rightarrow>
   'f FixedSizeBlockAllocator \<Rightarrow>
   ((MapToError + unit) \<times> 'm \<times> BootInfoFrameAllocator \<times> 'f FixedSizeBlockAllocator) outcome" where
  "init_heap X M fb_init mapper fa allocator =
     bindR (heap_pages X) (\<lambda>page_range.
     bindR (map_heap_pages X M page_range mapper fa) (\<lambda>(r, mapper, fa).
       case r of
         Inl e \<Rightarrow> Inr (Inl e, mapper, fa, allocator)
       | Inr _ \<Rightarrow>
           bindR (fsb_init fb_init allocator HEAP_START HEAP_SIZE) (\<lambda>allocator.
             Inr (Inr (), mapper, fa, allocator))))"

text \<open>
  \<^verbatim>\<open>init_heap\<close> of \<^verbatim>\<open>kernel/src/main.rs\<close>, from the boot information to a working heap.
\<close>

definition kernel_init_heap ::
  "x86_64 \<Rightarrow> 'm mapper_ops \<Rightarrow> (nat \<Rightarrow> nat \<Rightarrow> 'm) \<Rightarrow> ('f \<Rightarrow> nat \<Rightarrow> nat \<Rightarrow> 'f outcome) \<Rightarrow> nat \<Rightarrow>
   nat option \<Rightarrow> MemoryRegion list \<Rightarrow> 'm kernel_memory \<Rightarrow> 'f FixedSizeBlockAllocator \<Rightarrow>
   ('m kernel_memory \<times> 'f FixedSizeBlockAllocator) outcome" where
  "kernel_init_heap X M new_table fb_init cr3 physical_memory_offset regions km allocator =
     (case physical_memory_offset of
        None \<Rightarrow> Inl (Panicked ''No bootloader_api::BootInfo.physical_memory_offset'')
      | Some off \<Rightarrow>
          bindR (virt_new X off) (\<lambda>phys_mem_offset.
          bindR (init_mapper X new_table cr3 phys_mem_offset km) (\<lambda>km.
            let km = init_frame_allocator regions km
            in bindR (with_mapper (\<lambda>mapper km.
                 bindR (with_frame_allocator (\<lambda>frame_allocator.
                   bindR (init_heap X M fb_init mapper frame_allocator allocator) (\<lambda>(r, mapper, fa, allocator).
                     case r of
                       Inl _ \<Rightarrow> Inl (Unwrap_Failed ''heap initialization failed'')
                     | Inr _ \<Rightarrow> Inr ((allocator, mapper), fa))) km) (\<lambda>((allocator, mapper), km).
                   Inr (allocator, mapper, km))) km) (\<lambda>(allocator, km).
               Inr (km, allocator)))))"

section \<open>The documented laws, one by one\<close>

lemma x86_docsD:
  assumes "x86_docs X"
  shows x86_virt_new: "a < 2 ^ 47 \<Longrightarrow> virt_new X a = Inr a"
    and x86_virt_new_truncate: "a < 2 ^ 47 \<Longrightarrow> virt_new_truncate X a = a"
    and x86_virt_add: "a + b < 2 ^ 47 \<Longrightarrow> virt_add X a b = Inr (a + b)"
    and x86_virt_sub: "a < 2 ^ 47 \<Longrightarrow> b \<le> a \<Longrightarrow> virt_sub X a b = Inr (a - b)"
    and x86_containing: "page_containing X a = a - a mod 4096" "frame_containing X a = a - a mod 4096"
    and x86_from_start: "page_from_start X a = (if 4096 dvd a then Some a else None)"
    and x86_range: "4096 dvd a \<Longrightarrow> a + 4096 * n < 2 ^ 47 \<Longrightarrow>
      range_inclusive X a (a + 4096 * n) = map (\<lambda>i. a + 4096 * i) [0..<n + 1]"
    and x86_phys_new: "a < 2 ^ 52 \<Longrightarrow> phys_new X a = Inr a"
    and x86_phys_add: "a + b < 2 ^ 52 \<Longrightarrow> phys_add X a b = Inr (a + b)"
    and x86_align_down: "phys_align_down X a 4096 = a - a mod 4096"
    and x86_align_up: "aligned_above a 4096 < 2 ^ 52 \<Longrightarrow> phys_align_up X a 4096 = Inr (aligned_above a 4096)"
    and x86_indices: "p4_index X a = a div 2 ^ 39 mod 512" "p3_index X a = a div 2 ^ 30 mod 512"
      "p2_index X a = a div 2 ^ 21 mod 512" "p1_index X a = a div 2 ^ 12 mod 512"
      "page_offset X a = a mod 4096"
  using assms unfolding x86_docs_def by simp_all

section \<open>Frames\<close>

text \<open>
  What the boot loader promises about the memory map: usable regions consist of whole frames of the
  physical address space and do not overlap.
\<close>

definition region_apart_map :: "MemoryRegion \<Rightarrow> MemoryRegion \<Rightarrow> bool" where
  "region_apart_map r s \<longleftrightarrow> apart (r_start r) (r_end r - r_start r) (r_start s) (r_end s - r_start s)"

definition memory_map_ok :: "MemoryRegion list \<Rightarrow> bool" where
  "memory_map_ok rs \<longleftrightarrow>
     (\<forall>r \<in> set rs. r_kind r = Usable \<longrightarrow> 4096 dvd r_start r \<and> 4096 dvd r_end r \<and> r_end r \<le> 2 ^ 52) \<and>
     (\<forall>i j. i < j \<and> j < length rs \<and> r_kind (rs ! i) = Usable \<and> r_kind (rs ! j) = Usable \<longrightarrow>
        region_apart_map (rs ! i) (rs ! j))"

lemma memory_map_usable:
  assumes "memory_map_ok rs" and "r \<in> set rs" and "r_kind r = Usable"
  shows "4096 dvd r_start r" and "4096 dvd r_end r" and "r_end r \<le> 2 ^ 52"
  using assms unfolding memory_map_ok_def by blast+

lemma memory_map_ok_Cons:
  "memory_map_ok (r # rs) \<longleftrightarrow> memory_map_ok rs \<and>
     (r_kind r = Usable \<longrightarrow> 4096 dvd r_start r \<and> 4096 dvd r_end r \<and> r_end r \<le> 2 ^ 52 \<and>
        (\<forall>s \<in> set rs. r_kind s = Usable \<longrightarrow> region_apart_map r s))"
  (is "?A \<longleftrightarrow> ?B")
proof
  assume A: ?A
  then have ok: "4096 dvd r_start s \<and> 4096 dvd r_end s \<and> r_end s \<le> 2 ^ 52"
    if "s \<in> set (r # rs)" "r_kind s = Usable" for s
    using that memory_map_usable by blast
  have ap: "region_apart_map ((r # rs) ! i) ((r # rs) ! j)"
    if "i < j" "j < length (r # rs)" "r_kind ((r # rs) ! i) = Usable" "r_kind ((r # rs) ! j) = Usable" for i j
    using A that unfolding memory_map_ok_def by blast
  have "region_apart_map (rs ! i) (rs ! j)"
    if "i < j" "j < length rs" "r_kind (rs ! i) = Usable" "r_kind (rs ! j) = Usable" for i j
    using ap [of "Suc i" "Suc j"] that by simp
  moreover have "region_apart_map r s" if s: "s \<in> set rs" "r_kind r = Usable" "r_kind s = Usable" for s
  proof -
    obtain j where "j < length rs" "s = rs ! j" using s(1) by (auto simp: in_set_conv_nth)
    then show ?thesis using ap [of 0 "Suc j"] s by simp
  qed
  ultimately show ?B using ok by (simp add: memory_map_ok_def)
next
  assume B: ?B
  have "region_apart_map ((r # rs) ! i) ((r # rs) ! j)"
    if "i < j" "j < length (r # rs)" "r_kind ((r # rs) ! i) = Usable" "r_kind ((r # rs) ! j) = Usable" for i j
    using B that by (cases i; cases j) (auto simp: memory_map_ok_def)
  then show ?A using B by (auto simp: memory_map_ok_def)
qed

lemma set_step_by:
  assumes "4096 dvd start" and "4096 dvd e"
  shows "x \<in> set (step_by_4096 start e) \<longleftrightarrow> 4096 dvd x \<and> start \<le> x \<and> x + 4096 \<le> e"
proof -
  obtain a where a: "start = 4096 * a" using assms(1) by (elim dvdE)
  obtain b where b: "e = 4096 * b" using assms(2) by (elim dvdE)
  have n: "(e - start + 4095) div 4096 = b - a" unfolding a b by simp
  have "x \<in> set (step_by_4096 start e) \<longleftrightarrow> (\<exists>k < b - a. x = 4096 * (a + k))"
    unfolding step_by_4096_def n by (auto simp: a)
  also have "\<dots> \<longleftrightarrow> (\<exists>c. x = 4096 * c \<and> a \<le> c \<and> c < b)"
  proof
    assume "\<exists>k < b - a. x = 4096 * (a + k)"
    then obtain k where "k < b - a" "x = 4096 * (a + k)" by blast
    then show "\<exists>c. x = 4096 * c \<and> a \<le> c \<and> c < b" by (intro exI [of _ "a + k"]) auto
  next
    assume "\<exists>c. x = 4096 * c \<and> a \<le> c \<and> c < b"
    then obtain c where "x = 4096 * c" "a \<le> c" "c < b" by blast
    then show "\<exists>k < b - a. x = 4096 * (a + k)" by (intro exI [of _ "c - a"]) auto
  qed
  also have "\<dots> \<longleftrightarrow> 4096 dvd x \<and> start \<le> x \<and> x + 4096 \<le> e"
    unfolding a b dvd_def by auto
  finally show ?thesis .
qed

lemma distinct_step_by: "distinct (step_by_4096 start e)"
  by (auto simp: step_by_4096_def distinct_map inj_on_def)

lemma set_frame_addresses:
  assumes "memory_map_ok rs"
  shows "x \<in> set (frame_addresses rs) \<longleftrightarrow>
    4096 dvd x \<and> (\<exists>r \<in> set rs. r_kind r = Usable \<and> r_start r \<le> x \<and> x + 4096 \<le> r_end r)"
proof -
  have "x \<in> set (frame_addresses rs) \<longleftrightarrow>
      (\<exists>r \<in> set rs. r_kind r = Usable \<and> x \<in> set (step_by_4096 (r_start r) (r_end r)))"
    by (auto simp: frame_addresses_def)
  also have "\<dots> \<longleftrightarrow> (\<exists>r \<in> set rs. r_kind r = Usable \<and> 4096 dvd x \<and> r_start r \<le> x \<and> x + 4096 \<le> r_end r)"
    using memory_map_usable [OF assms] set_step_by by blast
  finally show ?thesis by blast
qed

lemma distinct_frame_addresses:
  assumes "memory_map_ok rs"
  shows "distinct (frame_addresses rs)"
  using assms
proof (induction rs)
  case (Cons r rs)
  then have rs: "memory_map_ok rs" and IH: "distinct (frame_addresses rs)"
    by (auto simp: memory_map_ok_Cons)
  show ?case
  proof (cases "r_kind r = Usable")
    case True
    have "x \<notin> set (frame_addresses rs)" if x: "x \<in> set (step_by_4096 (r_start r) (r_end r))" for x
    proof
      assume "x \<in> set (frame_addresses rs)"
      then obtain s where s: "s \<in> set rs" "r_kind s = Usable" "r_start s \<le> x" "x + 4096 \<le> r_end s"
        by (auto simp: set_frame_addresses [OF rs])
      have "region_apart_map r s" using Cons.prems True s by (auto simp: memory_map_ok_Cons)
      moreover have "r_start r \<le> x" "x + 4096 \<le> r_end r"
        using x Cons.prems True by (auto simp: set_step_by memory_map_ok_Cons)
      ultimately show False using s by (auto simp: region_apart_map_def apart_def)
    qed
    with IH True show ?thesis by (auto simp: frame_addresses_def distinct_step_by)
  qed (use IH in \<open>simp add: frame_addresses_def\<close>)
qed (simp add: frame_addresses_def)

lemma usable_frames_eq:
  assumes "x86_docs X" and "memory_map_ok (memory_regions fa)"
  shows "usable_frames X fa = map Inr (frame_addresses (memory_regions fa))"
proof -
  have "bindR (phys_new X a) (\<lambda>a. Inr (frame_containing X a)) = Inr a"
    if a: "a \<in> set (frame_addresses (memory_regions fa))" for a
  proof -
    obtain r where "4096 dvd a" "r \<in> set (memory_regions fa)" "r_kind r = Usable" "a + 4096 \<le> r_end r"
      using a assms(2) by (auto simp: set_frame_addresses)
    moreover from this have "a < 2 ^ 52" using memory_map_usable(3) [OF assms(2)] by fastforce
    ultimately show ?thesis by (simp add: x86_phys_new [OF assms(1)] x86_containing [OF assms(1)])
  qed
  then show ?thesis by (simp add: usable_frames_def)
qed

lemma iter_nth_map_Inr: "iter_nth (map Inr xs) n = Inr (if n < length xs then Some (xs ! n) else None)"
proof (induction xs arbitrary: n)
  case (Cons x xs)
  then show ?case by (cases n) auto
qed simp

lemma iter_find_map_Inr:
  "iter_find (\<lambda>y. y = x) (map Inr xs) = Inr (if x \<in> set xs then Some x else None)"
  by (induction xs) auto

text \<open>What the request number \<open>i\<close> gets.\<close>

definition frame_at :: "nat list \<Rightarrow> nat \<Rightarrow> nat option" where
  "frame_at frames i = (if i < length frames then Some (frames ! i) else None)"

lemma allocate_frame_eq:
  assumes "x86_docs X" and "memory_map_ok (memory_regions fa)" and "next_frame fa + 1 < 2 ^ 64"
  shows "allocate_frame X fa =
    Inr (frame_at (frame_addresses (memory_regions fa)) (next_frame fa),
      fa\<lparr>next_frame := next_frame fa + 1\<rparr>)"
  using assms(3) by (simp add: allocate_frame_def usable_frames_eq [OF assms(1,2)] iter_nth_map_Inr
      add_usize_def frame_at_def)

text \<open>A client that asks for \<open>n\<close> frames.\<close>

primrec allocate_frames ::
  "x86_64 \<Rightarrow> BootInfoFrameAllocator \<Rightarrow> nat \<Rightarrow> (nat option list \<times> BootInfoFrameAllocator) outcome" where
  "allocate_frames X fa 0 = Inr ([], fa)"
| "allocate_frames X fa (Suc n) =
     bindR (allocate_frame X fa) (\<lambda>(f, fa).
     bindR (allocate_frames X fa n) (\<lambda>(fs, fa). Inr (f # fs, fa)))"

lemma allocate_frames_eq:
  assumes "x86_docs X" and "memory_map_ok (memory_regions fa)" and "next_frame fa + n < 2 ^ 64"
  shows "allocate_frames X fa n =
    Inr (map (frame_at (frame_addresses (memory_regions fa)))
           [next_frame fa..<next_frame fa + n],
      fa\<lparr>next_frame := next_frame fa + n\<rparr>)"
  using assms(2,3)
proof (induction n arbitrary: fa)
  case (Suc n)
  let ?fa = "fa\<lparr>next_frame := next_frame fa + 1\<rparr>"
  have "next_frame fa + 1 < 2 ^ 64" using Suc.prems(2) by simp
  note al = allocate_frame_eq [OF assms(1) Suc.prems(1) this]
  have IH: "allocate_frames X ?fa n = Inr (map (frame_at (frame_addresses (memory_regions fa)))
           [next_frame fa + 1..<next_frame fa + 1 + n], ?fa\<lparr>next_frame := next_frame fa + 1 + n\<rparr>)"
    using Suc.IH [of ?fa] Suc.prems by simp
  have "[next_frame fa..<next_frame fa + Suc n] = next_frame fa # [next_frame fa + 1..<next_frame fa + 1 + n]"
    by (simp add: upt_rec [of "next_frame fa"])
  then show ?case using IH by (simp add: al del: upt_Suc)
qed simp

text \<open>A frame lies in a range of whole frames exactly when each of its bytes does.\<close>

lemma frame_in_range:
  fixes p s e :: nat
  assumes "4096 dvd s" and "4096 dvd e"
  shows "s \<le> p - p mod 4096 \<and> p - p mod 4096 + 4096 \<le> e \<longleftrightarrow> s \<le> p \<and> p < e"
proof -
  obtain a where a: "s = 4096 * a" using assms(1) by (elim dvdE)
  obtain b where b: "e = 4096 * b" using assms(2) by (elim dvdE)
  define q r where "q = p div 4096" and "r = p mod 4096"
  have p: "p = 4096 * q + r" and r: "r < 4096" by (simp_all add: q_def r_def)
  have m: "p - p mod 4096 = 4096 * q" by (simp add: q_def minus_mod_eq_mult_div)
  have "4096 * a \<le> 4096 * q + r \<longleftrightarrow> a \<le> q" "4096 * q + 4096 \<le> 4096 * b \<longleftrightarrow> q < b"
    "4096 * q + r < 4096 * b \<longleftrightarrow> q < b"
    using r by linarith+
  then show ?thesis unfolding m a b by (simp add: p)
qed

section \<open>Properties of the frame and page allocators\<close>

text \<open>
  C24: The frame allocator hands out every usable frame exactly once. On a valid memory map the first
  \<open>n\<close> requests return the first \<open>n\<close> entries of a duplicate-free list and \<open>None\<close> after its end, and
  that list holds exactly the aligned frames that lie inside a usable region.
\<close>

theorem frame_allocator_exact:
  assumes "x86_docs X" and "memory_map_ok rs" and "n < 2 ^ 64"
  shows "\<exists>frames fa. allocate_frames X (frame_allocator_init rs) n =
      Inr (map Some (take n frames) @ replicate (n - length frames) None, fa) \<and>
    distinct frames \<and>
    (\<forall>a. a \<in> set frames \<longleftrightarrow>
       4096 dvd a \<and> (\<exists>r \<in> set rs. r_kind r = Usable \<and> r_start r \<le> a \<and> a + 4096 \<le> r_end r))"
proof -
  let ?F = "frame_addresses rs"
  have "map (frame_at ?F) [0..<n] =
      map Some (take n ?F) @ replicate (n - length ?F) None"
    by (rule nth_equalityI) (auto simp: nth_append frame_at_def)
  then show ?thesis
    using allocate_frames_eq [OF assms(1), of "\<lparr>memory_regions = rs, next_frame = 0\<rparr>" n] assms(2,3)
      distinct_frame_addresses [OF assms(2)] set_frame_addresses [OF assms(2)]
    unfolding frame_allocator_init_def by (intro exI [of _ ?F]) simp
qed

text \<open>
  \<^verbatim>\<open>allocate_frame_from_physical\<close> finds the frame of an address exactly when that frame is usable,
  but it reserves nothing: the allocator is unchanged, and if the frame is the next one in the memory
  map the following \<^verbatim>\<open>allocate_frame\<close> hands out the same frame again.
\<close>

theorem allocate_from_physical_unreserved:
  assumes "x86_docs X" and "memory_map_ok (memory_regions fa)"
  shows "allocate_frame_from_physical X fa p =
      Inr (if \<exists>r \<in> set (memory_regions fa). r_kind r = Usable \<and> r_start r \<le> p \<and> p < r_end r
           then Some (p - p mod 4096) else None, fa) \<and>
    (next_frame fa + 1 < 2 ^ 64 \<and> allocate_frame X fa = Inr (Some f, fa') \<longrightarrow>
       allocate_frame_from_physical X fa f = Inr (Some f, fa))"
proof -
  let ?F = "frame_addresses (memory_regions fa)"
  have eq: "allocate_frame_from_physical X fa q =
      Inr (if q - q mod 4096 \<in> set ?F then Some (q - q mod 4096) else None, fa)" for q
    by (simp add: allocate_frame_from_physical_def usable_frames_eq [OF assms] iter_find_map_Inr
        x86_align_down [OF assms(1)])
  have "p - p mod 4096 \<in> set ?F \<longleftrightarrow>
      (\<exists>r \<in> set (memory_regions fa). r_kind r = Usable \<and> r_start r \<le> p \<and> p < r_end r)"
    unfolding set_frame_addresses [OF assms(2)]
    using frame_in_range [OF memory_map_usable(1,2) [OF assms(2)]] dvd_minus_mod [of 4096 p] by blast
  moreover have "f - f mod 4096 = f \<and> f \<in> set ?F"
    if "next_frame fa + 1 < 2 ^ 64" "allocate_frame X fa = Inr (Some f, fa')"
    using that allocate_frame_eq [OF assms that(1)] set_frame_addresses [OF assms(2), of f]
    by (auto simp: frame_at_def split: if_splits)
  ultimately show ?thesis using eq by auto
qed

text \<open>A client that asks for page ranges of the given lengths, and where they start.\<close>

primrec allocate_pages :: "x86_64 \<Rightarrow> PageAllocatorImpl \<Rightarrow> nat list \<Rightarrow> (nat list \<times> PageAllocatorImpl) outcome" where
  "allocate_pages X pa [] = Inr ([], pa)"
| "allocate_pages X pa (n # ns) =
     bindR (allocate_n X pa n) (\<lambda>(a, pa).
     bindR (allocate_pages X pa ns) (\<lambda>(as, pa). Inr (a # as, pa)))"

primrec range_starts :: "nat \<Rightarrow> nat list \<Rightarrow> nat list" where
  "range_starts a [] = []"
| "range_starts a (n # ns) = a # range_starts (a + 4096 * n) ns"

lemma allocate_n_eq:
  assumes "x86_docs X" and "n \<noteq> 0" and "page_addr pa + 4096 * n < 2 ^ 47"
  shows "allocate_n X pa n = Inr (page_addr pa, pa\<lparr>page_addr := page_addr pa + 4096 * n\<rparr>)"
proof -
  have "virt_add X (page_addr pa) (4096 * n) = Inr (page_addr pa + 4096 * n)"
    by (rule x86_virt_add [OF assms(1,3)])
  moreover have "n * 4096 < 2 ^ 64" using assms(3) by simp
  ultimately show ?thesis using assms(2) by (simp add: allocate_n_def mul_usize_def mult.commute)
qed

lemma allocate_pages_eq:
  assumes "x86_docs X" and "0 \<notin> set ns" and "page_addr pa + 4096 * sum_list ns < 2 ^ 47"
  shows "allocate_pages X pa ns =
    Inr (range_starts (page_addr pa) ns, pa\<lparr>page_addr := page_addr pa + 4096 * sum_list ns\<rparr>)"
  using assms(2,3)
proof (induction ns arbitrary: pa)
  case (Cons n ns)
  then show ?case using allocate_n_eq [OF assms(1), of n pa] by (simp add: add.assoc)
qed simp

lemma range_starts_props:
  "length (range_starts a ns) = length ns"
  "i < length ns \<Longrightarrow> a \<le> range_starts a ns ! i \<and> range_starts a ns ! i + 4096 * ns ! i \<le> a + 4096 * sum_list ns"
  "i < length ns \<Longrightarrow> 4096 dvd a \<Longrightarrow> 4096 dvd range_starts a ns ! i"
proof (induction ns arbitrary: a i)
  case (Cons n ns)
  { case 1 show ?case using Cons by simp }
  { case 2 then show ?case using Cons(2) [of "i - 1" "a + 4096 * n"] by (cases i) auto }
  { case 3 then show ?case using Cons(3) [of "i - 1" "a + 4096 * n"] by (cases i) auto }
qed simp_all

lemma range_starts_before:
  "i < length ns \<Longrightarrow> j < i \<Longrightarrow>
     range_starts a ns ! j + 4096 * ns ! j \<le> range_starts a ns ! i"
proof (induction ns arbitrary: a i j)
  case (Cons n ns)
  then show ?case
    using range_starts_props(2) [of "i - 1" ns "a + 4096 * n"] Cons.IH [of "i - 1" "j - 1" "a + 4096 * n"]
    by (cases i; cases j) auto
qed simp

text \<open>
  The page allocator never gives out a page twice: the ranges of successive requests for at least
  one page each are page-aligned, follow one another without overlap, and keep clear of the kernel heap
  as long as their total stays below it; a request for no page panics.
\<close>

theorem page_ranges_disjoint:
  assumes "x86_docs X" and "0 \<notin> set ns" and "0x1000000000 + 4096 * sum_list ns \<le> HEAP_START"
  shows "\<exists>as pa. allocate_pages X (page_allocator_new X) ns = Inr (as, pa) \<and> length as = length ns \<and>
    (\<forall>i < length ns. 4096 dvd as ! i \<and> apart (as ! i) (4096 * ns ! i) HEAP_START HEAP_SIZE \<and>
       (\<forall>j < i. apart (as ! j) (4096 * ns ! j) (as ! i) (4096 * ns ! i))) \<and>
    allocate_n X pa 0 = Inl Assertion_Failed"
proof -
  let ?a = "0x1000000000 :: nat"
  have new: "page_addr (page_allocator_new X) = ?a"
    by (simp add: page_allocator_new_def x86_virt_new_truncate [OF assms(1)])
  have "?a + 4096 * sum_list ns < 2 ^ 47" using assms(3) by (simp add: HEAP_START_def)
  then have "allocate_pages X (page_allocator_new X) ns =
      Inr (range_starts ?a ns, (page_allocator_new X)\<lparr>page_addr := ?a + 4096 * sum_list ns\<rparr>)"
    using allocate_pages_eq [OF assms(1,2), of "page_allocator_new X"] new by simp
  moreover have "4096 dvd range_starts ?a ns ! i" if "i < length ns" for i
    by (rule range_starts_props(3) [OF that]) simp
  moreover have "apart (range_starts ?a ns ! i) (4096 * ns ! i) HEAP_START HEAP_SIZE" if "i < length ns" for i
    using range_starts_props(2) [OF that, of ?a] assms(3) by (simp add: apart_def)
  moreover have "apart (range_starts ?a ns ! j) (4096 * ns ! j) (range_starts ?a ns ! i) (4096 * ns ! i)"
    if "i < length ns" "j < i" for i j
    using range_starts_before [OF that, of ?a] by (simp add: apart_def)
  ultimately show ?thesis by (auto simp: range_starts_props(1) allocate_n_def)
qed

section \<open>Mapping pages\<close>

lemma mapper_map_to:
  assumes "mapper_docs M" and "free_page M m page" and "4096 dvd page" and "4096 dvd frame"
    and "3 \<le> frames_left fa"
  obtains m' k where "k \<le> 3"
    and "map_to M m page frame flags fa = Inr (Inr (), m', fa\<lparr>next_frame := next_frame fa + k\<rparr>)"
    and "mapped M m' = (mapped M m)(page \<mapsto> (frame, flags))"
    and "\<And>q. free_page M m' q \<longleftrightarrow> free_page M m q \<and> q \<noteq> page"
  using assms unfolding mapper_docs_def by metis

lemma mapper_unmap:
  assumes "mapper_docs M" and "mapped M m page = Some (frame, flags)"
  obtains m' where "unmap M m page = Inr (Inr frame, m')" and "mapped M m' = (mapped M m)(page := None)"
    and "\<And>q. free_page M m' q \<longleftrightarrow> free_page M m q \<or> q = page"
  using assms unfolding mapper_docs_def by metis

lemma map_heap_pages_ok:
  assumes X: "x86_docs X" and M: "mapper_docs M" and map: "memory_map_ok rs"
    and "memory_regions fa = rs"
    and "\<And>p. p \<in> set pages \<Longrightarrow> free_page M m p \<and> 4096 dvd p" and "distinct pages"
    and "4 * length pages \<le> frames_left fa" and "next_frame fa + 4 * length pages < 2 ^ 64"
  shows "\<exists>m' fa' fs. map_heap_pages X M pages m fa = Inr (Inr (), m', fa') \<and>
    length fs = length pages \<and> distinct fs \<and> set fs \<subseteq> set (drop (next_frame fa) (frame_addresses rs)) \<and>
    mapped M m' = (\<lambda>q. case map_of (zip pages fs) q of
      None \<Rightarrow> mapped M m q | Some f \<Rightarrow> Some (f, {PRESENT, WRITABLE})) \<and>
    (\<forall>q. free_page M m' q \<longleftrightarrow> free_page M m q \<and> q \<notin> set pages) \<and> frames_left fa \<le> frames_left fa' + 4 * length pages"
  using assms(4-)
proof (induction pages arbitrary: m fa)
  case (Cons page pages)
  let ?F = "frame_addresses rs" and ?fa = "fa\<lparr>next_frame := next_frame fa + 1\<rparr>"
  have lt: "next_frame fa < length ?F" using Cons.prems by (simp add: frames_left_def)
  have al: "allocate_frame X fa = Inr (Some (?F ! next_frame fa), ?fa)"
    using allocate_frame_eq [OF X, of fa] map Cons.prems lt by (simp add: frame_at_def)
  have dvd: "4096 dvd ?F ! next_frame fa"
    using set_frame_addresses [OF map, of "?F ! next_frame fa"] lt by simp
  have left: "3 \<le> frames_left ?fa" using Cons.prems by (simp add: frames_left_def)
  have pg: "free_page M m page" "4096 dvd page" using Cons.prems(2) by auto
  obtain m1 k where k: "k \<le> 3"
    and mt: "map_to M m page (?F ! next_frame fa) {PRESENT, WRITABLE} ?fa =
      Inr (Inr (), m1, ?fa\<lparr>next_frame := next_frame ?fa + k\<rparr>)"
    and m1: "mapped M m1 = (mapped M m)(page \<mapsto> (?F ! next_frame fa, {PRESENT, WRITABLE}))"
    and free: "\<And>q. free_page M m1 q \<longleftrightarrow> free_page M m q \<and> q \<noteq> page"
    by (rule mapper_map_to [OF M pg dvd left, where flags = "{PRESENT, WRITABLE}"]) blast
  let ?fa1 = "fa\<lparr>next_frame := next_frame fa + 1 + k\<rparr>"
  obtain m' fa' fs where IH: "map_heap_pages X M pages m1 ?fa1 = Inr (Inr (), m', fa')"
    "length fs = length pages" "distinct fs" "set fs \<subseteq> set (drop (next_frame fa + 1 + k) ?F)"
    "mapped M m' = (\<lambda>q. case map_of (zip pages fs) q of
      None \<Rightarrow> mapped M m1 q | Some f \<Rightarrow> Some (f, {PRESENT, WRITABLE}))"
    "\<forall>q. free_page M m' q \<longleftrightarrow> free_page M m1 q \<and> q \<notin> set pages" "frames_left ?fa1 \<le> frames_left fa' + 4 * length pages"
  proof -
    have "free_page M m1 p \<and> 4096 dvd p" if "p \<in> set pages" for p
      using that Cons.prems(2,3) free by auto
    moreover have "4 * length pages \<le> frames_left ?fa1" "next_frame ?fa1 + 4 * length pages < 2 ^ 64"
      using Cons.prems(4,5) k by (simp_all add: frames_left_def)
    ultimately show thesis using Cons.IH [of ?fa1 m1] Cons.prems(1,3) that by auto
  qed
  have "set (drop (next_frame fa + 1 + k) ?F) \<subseteq> set (drop (next_frame fa + 1) ?F)"
    by (rule set_drop_subset_set_drop) simp
  then have sub: "set fs \<subseteq> set (drop (Suc (next_frame fa)) ?F)" using IH(4) by simp
  have "?F ! next_frame fa \<notin> set (drop (Suc (next_frame fa)) ?F)"
    using distinct_frame_addresses [OF map] lt by (auto simp: in_set_conv_nth distinct_conv_nth)
  then have "distinct (?F ! next_frame fa # fs)" using IH(3) sub by auto
  moreover have "set (?F ! next_frame fa # fs) \<subseteq> set (drop (next_frame fa) ?F)"
    using sub by (auto simp: Cons_nth_drop_Suc [OF lt, symmetric])
  moreover have "page \<notin> set (map fst (zip pages fs))" using Cons.prems(3) IH(2) by simp
  then have "map_of (zip pages fs) page = None" by (simp add: map_of_eq_None_iff)
  then have "mapped M m' = (\<lambda>q. case map_of (zip (page # pages) (?F ! next_frame fa # fs)) q of
      None \<Rightarrow> mapped M m q | Some f \<Rightarrow> Some (f, {PRESENT, WRITABLE}))"
    by (intro ext) (simp add: IH(5) m1 split: option.split)
  moreover have "frames_left fa \<le> frames_left ?fa1 + 4" using k by (simp add: frames_left_def)
  ultimately show ?case
    using al mt IH(1,2,6,7) free by (intro exI [of _ m'] exI [of _ fa'] exI [of _ "?F ! next_frame fa # fs"]) auto
qed simp

text \<open>The physical byte behind a virtual byte.\<close>

definition phys_byte :: "'m mapper_ops \<Rightarrow> 'm \<Rightarrow> nat \<Rightarrow> nat option" where
  "phys_byte M m a = map_option (\<lambda>(frame, flags). frame + a mod 4096) (mapped M m (a - a mod 4096))"

definition heap_page_list :: "nat list" where
  "heap_page_list = map (\<lambda>i. HEAP_START + 4096 * i) [0..<256]"

lemma heap_pages_eq: "x86_docs X \<Longrightarrow> heap_pages X = Inr heap_page_list"
proof -
  assume X: "x86_docs X"
  have "virt_new X HEAP_START = Inr HEAP_START"
    "virt_add X HEAP_START HEAP_SIZE = Inr (HEAP_START + HEAP_SIZE)"
    "virt_sub X (HEAP_START + HEAP_SIZE) 1 = Inr (HEAP_START + HEAP_SIZE - 1)"
    by (rule x86_virt_new [OF X] x86_virt_add [OF X] x86_virt_sub [OF X]; simp add: HEAP_START_def HEAP_SIZE_def)+
  moreover have "page_containing X HEAP_START = HEAP_START"
    "page_containing X (HEAP_START + HEAP_SIZE - 1) = HEAP_START + 4096 * 255"
    unfolding x86_containing [OF X] by (simp_all add: HEAP_START_def HEAP_SIZE_def)
  moreover have "range_inclusive X HEAP_START (HEAP_START + 4096 * 255) = heap_page_list"
    unfolding heap_page_list_def using x86_range [OF X, of HEAP_START 255] by (simp add: HEAP_START_def)
  ultimately show ?thesis by (simp add: heap_pages_def)
qed

lemma heap_page_of:
  assumes "HEAP_START \<le> a" and "a < HEAP_START + HEAP_SIZE"
  shows "a - a mod 4096 \<in> set heap_page_list"
proof -
  have s: "HEAP_START = 4096 * 0x444444440" by (simp add: HEAP_START_def)
  have "a - a mod 4096 = HEAP_START + 4096 * (a div 4096 - 0x444444440)" "a div 4096 - 0x444444440 < 256"
    using assms unfolding s HEAP_SIZE_def minus_mod_eq_mult_div by linarith+
  then show ?thesis unfolding heap_page_list_def by auto
qed

text \<open>
  If the pages of a heap are mapped to distinct frames, distinct bytes of the heap are distinct bytes
  of memory.
\<close>

lemma phys_byte_inj:
  assumes pages: "\<And>a. a \<in> A \<Longrightarrow> a - a mod 4096 \<in> set pages"
    and m: "\<And>p. p \<in> set pages \<Longrightarrow> mapped M m p = Some (frame p, fl) \<and> 4096 dvd frame p"
    and inj: "inj_on frame (set pages)"
  shows "inj_on (phys_byte M m) A" and "\<And>a. a \<in> A \<Longrightarrow> phys_byte M m a = Some (frame (a - a mod 4096) + a mod 4096)"
proof -
  show eq: "phys_byte M m a = Some (frame (a - a mod 4096) + a mod 4096)" if "a \<in> A" for a
    using m [OF pages [OF that]] by (simp add: phys_byte_def)
  show "inj_on (phys_byte M m) A"
  proof (rule inj_onI)
    fix a b assume ab: "a \<in> A" "b \<in> A" "phys_byte M m a = phys_byte M m b"
    let ?p = "a - a mod 4096" and ?q = "b - b mod 4096"
    have e: "frame ?p + a mod 4096 = frame ?q + b mod 4096" using ab eq by simp
    have d: "4096 dvd frame ?p" "4096 dvd frame ?q" using m pages ab by blast+
    have "(frame ?p + a mod 4096) mod 4096 = a mod 4096" "(frame ?q + b mod 4096) mod 4096 = b mod 4096"
      using d by (auto elim!: dvdE)
    then have r: "a mod 4096 = b mod 4096" using e by simp
    then have "frame ?p = frame ?q" using e by simp
    then have "?p = ?q" using inj_onD [OF inj] pages [OF ab(1)] pages [OF ab(2)] by blast
    then show "a = b" using r by (metis add_diff_inverse_nat mod_less_eq_dividend not_less)
  qed
qed

lemma init_heap_ready:
  assumes X: "x86_docs X" and M: "mapper_docs M" and map: "memory_map_ok (memory_regions fa)"
    and free: "\<And>p. p \<in> set heap_page_list \<Longrightarrow> free_page M m p"
    and left: "1024 \<le> frames_left fa" "next_frame fa + 1024 < 2 ^ 64"
    and fb: "fb_init (fallback_allocator al) HEAP_START HEAP_SIZE = Inr f"
  shows "\<exists>m' fa' frame. init_heap X M fb_init m fa al = Inr (Inr (), m', fa', al\<lparr>fallback_allocator := f\<rparr>) \<and>
    inj_on frame (set heap_page_list) \<and>
    (\<forall>p \<in> set heap_page_list. mapped M m' p = Some (frame p, {PRESENT, WRITABLE}) \<and>
       frame p \<in> set (frame_addresses (memory_regions fa))) \<and>
    (\<forall>q. free_page M m' q \<longleftrightarrow> free_page M m q \<and> q \<notin> set heap_page_list) \<and> frames_left fa \<le> frames_left fa' + 1024"
proof -
  let ?ps = heap_page_list
  have ps: "distinct ?ps" "length ?ps = 256" "\<And>p. p \<in> set ?ps \<Longrightarrow> 4096 dvd p"
    by (auto simp: heap_page_list_def distinct_map inj_on_def HEAP_START_def)
  obtain m' fa' fs where r: "map_heap_pages X M ?ps m fa = Inr (Inr (), m', fa')"
    "length fs = length ?ps" "distinct fs" "set fs \<subseteq> set (drop (next_frame fa) (frame_addresses (memory_regions fa)))"
    "mapped M m' = (\<lambda>q. case map_of (zip ?ps fs) q of
      None \<Rightarrow> mapped M m q | Some f \<Rightarrow> Some (f, {PRESENT, WRITABLE}))"
    "\<forall>q. free_page M m' q \<longleftrightarrow> free_page M m q \<and> q \<notin> set ?ps" "frames_left fa \<le> frames_left fa' + 1024"
    using map_heap_pages_ok [OF X M map refl, of ?ps m] ps free left by auto
  define frame where "frame p = the (map_of (zip ?ps fs) p)" for p
  have at: "map_of (zip ?ps fs) (?ps ! i) = Some (fs ! i)" if "i < 256" for i
    using that ps r(2) by (simp add: map_of_zip_nth)
  have "inj_on frame (set ?ps)"
  proof (rule inj_onI)
    fix p q assume "p \<in> set ?ps" "q \<in> set ?ps" "frame p = frame q"
    then obtain i j where "i < 256" "p = ?ps ! i" "j < 256" "q = ?ps ! j" "fs ! i = fs ! j"
      using ps(2) at by (auto simp: in_set_conv_nth frame_def)
    then show "p = q" using r(2,3) ps(2) by (simp add: nth_eq_iff_index_eq)
  qed
  moreover have "mapped M m' p = Some (frame p, {PRESENT, WRITABLE}) \<and>
      frame p \<in> set (frame_addresses (memory_regions fa))" if p: "p \<in> set ?ps" for p
  proof -
    obtain i where i: "i < 256" "p = ?ps ! i" using p ps(2) by (auto simp: in_set_conv_nth)
    then have "frame p \<in> set fs" using r(2) ps(2) at by (simp add: frame_def)
    then have "frame p \<in> set (frame_addresses (memory_regions fa))"
      using r(4) by (blast dest: in_set_dropD)
    then show ?thesis using r(5) at i by (simp add: frame_def)
  qed
  ultimately show ?thesis
    using r(1,6,7) fb by (auto simp: init_heap_def heap_pages_eq [OF X] fsb_init_def)
qed

lemma kernel_init_heap_ok:
  assumes "x86_docs X" and "mapper_docs M" and "memory_map_ok regions"
    and "virt_new X off = Inr off" and "virt_add X off level_four = Inr table"
    and "\<And>i. i < 256 \<Longrightarrow> free_page M (new_table table off) (HEAP_START + 4096 * i)"
    and "1024 \<le> length (frame_addresses regions)"
    and "global_alloc fb_alloc fb_dealloc fb_touch fb_inv adm HEAP_START (HEAP_START + HEAP_SIZE)"
    and "\<And>i. i < length BLOCK_SIZES \<Longrightarrow> adm (class_layout i)"
    and "fb_init heap_empty HEAP_START HEAP_SIZE = Inr f" and "fb_inv f {}"
  shows "\<exists>m' fa'. kernel_init_heap X M new_table fb_init level_four (Some off) regions km (fsb_new heap_empty mem) =
      Inr (km\<lparr>km_mapper := Some m', km_frames := Some fa'\<rparr>, (fsb_new heap_empty mem)\<lparr>fallback_allocator := f\<rparr>) \<and>
    inj_on (phys_byte M m') {HEAP_START..<HEAP_START + HEAP_SIZE} \<and>
    (\<forall>a \<in> {HEAP_START..<HEAP_START + HEAP_SIZE}. \<exists>frame. frame \<in> set (frame_addresses regions) \<and>
       mapped M m' (a - a mod 4096) = Some (frame, {PRESENT, WRITABLE}) \<and>
       phys_byte M m' a = Some (frame + a mod 4096)) \<and>
    safe_heap (fsb_alloc fb_alloc fb_touch) (fsb_dealloc fb_dealloc fb_touch) (fsb_touch fb_touch)
      adm HEAP_START (HEAP_START + HEAP_SIZE) ((fsb_new heap_empty mem)\<lparr>fallback_allocator := f\<rparr>) \<and>
    (\<forall>q. free_page M m' q \<longleftrightarrow> free_page M (new_table table off) q \<and> q \<notin> set heap_page_list) \<and>
    length (frame_addresses regions) \<le> frames_left fa' + 1024"
proof -
  let ?al = "fsb_new heap_empty mem" and ?fa = "frame_allocator_init regions" and ?H = "{HEAP_START..<HEAP_START + HEAP_SIZE}"
  have free: "free_page M (new_table table off) p" if "p \<in> set heap_page_list" for p
    using that assms(6) by (auto simp: heap_page_list_def)
  have fa: "memory_regions ?fa = regions" "next_frame ?fa = 0" by (simp_all add: frame_allocator_init_def)
  have fb: "fb_init (fallback_allocator ?al) HEAP_START HEAP_SIZE = Inr f" using assms(10) by (simp add: fsb_new_def)
  obtain m' fa' frame where i: "init_heap X M fb_init (new_table table off) ?fa ?al =
      Inr (Inr (), m', fa', ?al\<lparr>fallback_allocator := f\<rparr>)"
    and inj: "inj_on frame (set heap_page_list)"
    and m': "\<And>p. p \<in> set heap_page_list \<Longrightarrow> mapped M m' p = Some (frame p, {PRESENT, WRITABLE}) \<and>
       frame p \<in> set (frame_addresses regions)"
    and rest: "\<forall>q. free_page M m' q \<longleftrightarrow> free_page M (new_table table off) q \<and> q \<notin> set heap_page_list"
      "length (frame_addresses regions) \<le> frames_left fa' + 1024"
    using init_heap_ready [where fb_init = fb_init and al = ?al and fa = ?fa and m = "new_table table off",
        OF assms(1,2) _ free _ _ fb] assms(3,7) fa
    by (auto simp: frames_left_def)
  have fr: "4096 dvd frame p" if "p \<in> set heap_page_list" for p
    using m' [OF that] set_frame_addresses [OF assms(3)] by blast
  have pages: "a - a mod 4096 \<in> set heap_page_list" if "a \<in> ?H" for a
    using heap_page_of [of a] that by simp
  note bytes = phys_byte_inj [where A = ?H, OF pages, of M m' frame "{PRESENT, WRITABLE}"]
  have run: "kernel_init_heap X M new_table fb_init level_four (Some off) regions km ?al =
      Inr (km\<lparr>km_mapper := Some m', km_frames := Some fa'\<rparr>, ?al\<lparr>fallback_allocator := f\<rparr>)"
    using assms(4,5) i by (simp add: kernel_init_heap_def init_mapper_def active_level_4_table_def
        init_frame_allocator_def with_mapper_def with_frame_allocator_def)
  have "fsb_over fb_alloc fb_dealloc fb_touch fb_inv adm HEAP_START (HEAP_START + HEAP_SIZE)"
    using assms(8,9) by (simp add: fsb_over_def fsb_over_axioms_def)
  from fsb_over.fsb_safe_heap [OF this fsb_new_inv [where fb_inv = fb_inv, OF assms(11)]]
  have "safe_heap (fsb_alloc fb_alloc fb_touch) (fsb_dealloc fb_dealloc fb_touch) (fsb_touch fb_touch)
      adm HEAP_START (HEAP_START + HEAP_SIZE) (?al\<lparr>fallback_allocator := f\<rparr>)"
    by (simp add: fsb_new_def)
  with run bytes m' fr inj pages rest show ?thesis
    by (intro exI [of _ m'] exI [of _ fa']) auto
qed

text \<open>
  C3: Booting leaves a working heap. With a valid memory map that has 1024 usable frames, four for
  each of the 256 heap pages, heap pages that are not mapped yet, and a fallback allocator that keeps
  the allocator contract, heap initialisation returns without a panic. Every byte of the heap is then
  backed by a byte of a usable frame, no two by the same one, through present and writable pages, and
  every sequence of allocations, releases and writes on the global allocator is safe in that range.
\<close>

theorem kernel_heap_ready:
  assumes "x86_docs X" and "mapper_docs M" and "memory_map_ok regions"
    and "virt_new X off = Inr off" and "virt_add X off level_four = Inr table"
    and "\<And>i. i < 256 \<Longrightarrow> free_page M (new_table table off) (HEAP_START + 4096 * i)"
    and "1024 \<le> length (frame_addresses regions)"
    and "global_alloc fb_alloc fb_dealloc fb_touch fb_inv adm HEAP_START (HEAP_START + HEAP_SIZE)"
    and "\<And>i. i < length BLOCK_SIZES \<Longrightarrow> adm (class_layout i)"
    and "fb_init heap_empty HEAP_START HEAP_SIZE = Inr f" and "fb_inv f {}"
  shows "\<exists>km' m' allocator.
    kernel_init_heap X M new_table fb_init level_four (Some off) regions km (fsb_new heap_empty mem) =
      Inr (km', allocator) \<and> km_mapper km' = Some m' \<and>
    inj_on (phys_byte M m') {HEAP_START..<HEAP_START + HEAP_SIZE} \<and>
    (\<forall>a \<in> {HEAP_START..<HEAP_START + HEAP_SIZE}. \<exists>frame. frame \<in> set (frame_addresses regions) \<and>
       mapped M m' (a - a mod 4096) = Some (frame, {PRESENT, WRITABLE}) \<and>
       phys_byte M m' a = Some (frame + a mod 4096)) \<and>
    safe_heap (fsb_alloc fb_alloc fb_touch) (fsb_dealloc fb_dealloc fb_touch) (fsb_touch fb_touch)
      adm HEAP_START (HEAP_START + HEAP_SIZE) allocator"
  using kernel_init_heap_ok [where X = X and M = M and regions = regions and off = off and level_four = level_four
      and table = table and new_table = new_table and fb_init = fb_init and heap_empty = heap_empty and fb_inv = fb_inv
      and adm = adm, OF assms, of km mem]
  by fastforce

text \<open>
  The page-table walk translates page by page: an address \<open>d\<close> bytes into a page translates to the
  byte \<open>d\<close> of the frame the page's first address translates to, and is unmapped or panics exactly
  when that address does.
\<close>

theorem translate_addr_page:
  assumes "x86_docs X" and "4096 dvd p" and "d < 4096"
    and "cr3 + 4096 \<le> 2 ^ 52" and "\<And>table i frame. table_frame table i = Inr frame \<Longrightarrow> frame + 4096 \<le> 2 ^ 52"
  shows "translate_addr X cr3 table_frame (p + d) off =
    bindR (translate_addr X cr3 table_frame p off) (\<lambda>r. Inr (map_option (\<lambda>a. a + d) r))"
proof -
  have bound: "frame' + 4096 \<le> 2 ^ 52" if "translate_levels X table_frame off is frame = Inr (Some frame')"
    "frame + 4096 \<le> 2 ^ 52" for "is" frame frame'
    using that
  proof (induction "is" arbitrary: frame)
    case (Cons i "is")
    then obtain ptr where ptr: "(case table_frame ptr i of
         Inr frame \<Rightarrow> translate_levels X table_frame off is frame
       | Inl FrameNotPresent \<Rightarrow> Inr None
       | Inl HugeFrame \<Rightarrow> Inl (Panicked ''huge pages not supported'')) = Inr (Some frame')"
      by (auto simp: bindR_Inr_iff)
    then obtain frame1 where "table_frame ptr i = Inr frame1"
      "translate_levels X table_frame off is frame1 = Inr (Some frame')"
      by (cases "table_frame ptr i") (auto split: FrameError.splits)
    then show ?case using Cons.IH assms(5) by blast
  qed simp
  obtain q where p: "p = 4096 * q" using assms(2) by (elim dvdE)
  have div: "(p + d) div (4096 * k) = p div (4096 * k)" for k :: nat
    using assms(3) by (simp add: p div_mult2_eq)
  have idx: "p4_index X (p + d) = p4_index X p" "p3_index X (p + d) = p3_index X p"
    "p2_index X (p + d) = p2_index X p" "p1_index X (p + d) = p1_index X p"
    using div [of "2 ^ 27"] div [of "2 ^ 18"] div [of "2 ^ 9"] div [of 1]
    by (simp_all add: x86_indices [OF assms(1)])
  have off: "page_offset X (p + d) = d" "page_offset X p = 0"
    using assms(2,3) by (simp_all add: x86_indices [OF assms(1)] p)
  have add: "phys_add X frame e = Inr (frame + e)" if "frame + 4096 \<le> 2 ^ 52" "e < 4096" for frame e
    by (rule x86_phys_add [OF assms(1)]) (use that in simp)
  define W where "W = translate_levels X table_frame off
    [p4_index X p, p3_index X p, p2_index X p, p1_index X p] cr3"
  have W: "frame + 4096 \<le> 2 ^ 52" if "W = Inr (Some frame)" for frame
    using bound [OF that [unfolded W_def] assms(4)] .
  show ?thesis
    unfolding translate_addr_def translate_addr_inner_def idx off Let_def W_def [symmetric]
  proof (cases W)
    case (Inr r)
    with W add assms(3) show "bindR W (\<lambda>r. case r of None \<Rightarrow> Inr None
        | Some frame \<Rightarrow> bindR (phys_add X frame d) (\<lambda>a. Inr (Some a))) =
      bindR (bindR W (\<lambda>r. case r of None \<Rightarrow> Inr None
        | Some frame \<Rightarrow> bindR (phys_add X frame 0) (\<lambda>a. Inr (Some a))))
        (\<lambda>r. Inr (map_option (\<lambda>a. a + d) r))"
      by (cases r) simp_all
  qed simp
qed

section \<open>An instance of the crate's laws\<close>

definition x86_std :: x86_64 where
  "x86_std = \<lparr>
     virt_new = (\<lambda>a. if a < 2 ^ 47 then Inr a else Inl (Panicked ''virtual address'')),
     virt_new_truncate = (\<lambda>a. a mod 2 ^ 47),
     virt_add = (\<lambda>a b. if a + b < 2 ^ 47 then Inr (a + b) else Inl (Panicked ''virtual address'')),
     virt_sub = (\<lambda>a b. if b \<le> a then Inr (a - b) else Inl (Panicked ''virtual address'')),
     page_containing = (\<lambda>a. a - a mod 4096),
     page_from_start = (\<lambda>a. if 4096 dvd a then Some a else None),
     range_inclusive = (\<lambda>a b. map (\<lambda>i. a + 4096 * i) [0..<(b - a) div 4096 + 1]),
     phys_new = (\<lambda>a. if a < 2 ^ 52 then Inr a else Inl (Panicked ''physical address'')),
     phys_add = (\<lambda>a b. if a + b < 2 ^ 52 then Inr (a + b) else Inl (Panicked ''physical address'')),
     phys_align_down = (\<lambda>a n. a - a mod n),
     phys_align_up = (\<lambda>a n. Inr (aligned_above a n)),
     frame_containing = (\<lambda>a. a - a mod 4096),
     p4_index = (\<lambda>a. a div 2 ^ 39 mod 512), p3_index = (\<lambda>a. a div 2 ^ 30 mod 512),
     p2_index = (\<lambda>a. a div 2 ^ 21 mod 512), p1_index = (\<lambda>a. a div 2 ^ 12 mod 512),
     page_offset = (\<lambda>a. a mod 4096)\<rparr>"

lemma x86_std_docs: "x86_docs x86_std"
  by (simp add: x86_docs_def x86_std_def)

text \<open>A mapper whose page tables exist already and that has no huge pages.\<close>

definition map_mapper :: "(nat \<rightharpoonup> nat \<times> PageTableFlag set) mapper_ops" where
  "map_mapper = \<lparr>
     map_to = (\<lambda>m page frame flags fa.
       case m page of Some (f, _) \<Rightarrow> Inr (Inl (PageAlreadyMapped f), m, fa)
       | None \<Rightarrow> Inr (Inr (), m(page \<mapsto> (frame, flags)), fa)),
     unmap = (\<lambda>m page. case m page of None \<Rightarrow> Inr (Inl PageNotMapped, m) | Some (f, _) \<Rightarrow> Inr (Inr f, m(page := None))),
     mapped = (\<lambda>m. m),
     free_page = (\<lambda>m page. m page = None)\<rparr>"

lemma map_mapper_docs: "mapper_docs map_mapper"
  by (auto simp: mapper_docs_def map_mapper_def intro: exI [of _ "0::nat"])

definition small_map :: "MemoryRegion list" where
  "small_map =
     [\<lparr>r_start = 0, r_end = 0x1000, r_kind = Bootloader\<rparr>, \<lparr>r_start = 0x100000, r_end = 0x600000, r_kind = Usable\<rparr>]"

lemma small_map_ok: "memory_map_ok small_map"
  by (simp add: small_map_def memory_map_ok_Cons) (simp add: memory_map_ok_def)

definition no_memory :: "(nat \<rightharpoonup> nat \<times> PageTableFlag set) kernel_memory" where
  "no_memory = \<lparr>km_mapper = None, km_frames = None, km_pages = page_allocator_new x86_std\<rparr>"

theorem frame_allocator_exact_witness:
  "\<exists>frames fa. allocate_frames x86_std (frame_allocator_init small_map) 3 =
      Inr (map Some (take 3 frames) @ replicate (3 - length frames) None, fa) \<and> distinct frames \<and>
    0x101000 \<in> set frames"
proof -
  obtain frames fa where f: "allocate_frames x86_std (frame_allocator_init small_map) 3 =
      Inr (map Some (take 3 frames) @ replicate (3 - length frames) None, fa)" "distinct frames"
    "\<forall>a. a \<in> set frames \<longleftrightarrow>
       4096 dvd a \<and> (\<exists>r \<in> set small_map. r_kind r = Usable \<and> r_start r \<le> a \<and> a + 4096 \<le> r_end r)"
    using frame_allocator_exact [OF x86_std_docs small_map_ok, of 3] by auto
  have "0x101000 \<in> set frames" using f(3) by (simp add: small_map_def)
  with f show ?thesis by blast
qed

theorem allocate_from_physical_unreserved_witness:
  "allocate_frame_from_physical x86_std (frame_allocator_init small_map) 0x100123 =
     Inr (Some 0x100000, frame_allocator_init small_map) \<and>
   (\<exists>fa. allocate_frame x86_std (frame_allocator_init small_map) = Inr (Some 0x100000, fa))"
proof -
  have ok: "memory_map_ok (memory_regions (frame_allocator_init small_map))"
    by (simp add: frame_allocator_init_def small_map_ok)
  have "allocate_frame x86_std (frame_allocator_init small_map) =
      Inr (Some 0x100000, \<lparr>memory_regions = small_map, next_frame = 1\<rparr>)"
    using allocate_frame_eq [OF x86_std_docs ok]
    by (simp add: frame_allocator_init_def frame_at_def frame_addresses_def small_map_def step_by_4096_def)
  then show ?thesis
    using allocate_from_physical_unreserved [OF x86_std_docs ok, of "0x100123"]
    by (simp add: frame_allocator_init_def small_map_def)
qed

theorem page_ranges_disjoint_witness:
  "\<exists>as pa. allocate_pages x86_std (page_allocator_new x86_std) [1, 2] = Inr (as, pa) \<and>
     apart (as ! 0) 4096 (as ! 1) 8192"
proof -
  have "0x1000000000 + 4096 * sum_list [1, 2::nat] \<le> HEAP_START" by (simp add: HEAP_START_def)
  then obtain as pa where "allocate_pages x86_std (page_allocator_new x86_std) [1, 2] = Inr (as, pa)"
    "\<And>i j. i < length [1, 2::nat] \<Longrightarrow> j < i \<Longrightarrow> apart (as ! j) (4096 * [1, 2] ! j) (as ! i) (4096 * [1, 2] ! i)"
    using page_ranges_disjoint [OF x86_std_docs, of "[1, 2]"] by auto
  from this(1) this(2) [of 1 0] show ?thesis by auto
qed

theorem translate_addr_page_witness:
  "translate_addr x86_std 0x1000 (\<lambda>table i. Inr 0x7000) (0x2000 + 0x123) 0x5000 = Inr (Some 0x7123)"
  using translate_addr_page [OF x86_std_docs, of "0x2000" "0x123" "0x1000" "\<lambda>table i. Inr 0x7000" "0x5000"]
  by (simp add: translate_addr_def translate_addr_inner_def x86_std_def)

theorem kernel_heap_ready_witness:
  "\<exists>km' m' allocator. kernel_init_heap x86_std map_mapper (\<lambda>table off. Map.empty) ll_init 0x1000 (Some 0)
      small_map no_memory (fsb_new (ll_new Map.empty) Map.empty) = Inr (km', allocator) \<and> km_mapper km' = Some m' \<and>
     inj_on (phys_byte map_mapper m') {HEAP_START..<HEAP_START + HEAP_SIZE} \<and>
     safe_heap (fsb_alloc ll_alloc ll_touch) (fsb_dealloc ll_dealloc ll_touch) (fsb_touch ll_touch)
       ll_request HEAP_START (HEAP_START + HEAP_SIZE) allocator"
proof -
  obtain self where i: "ll_init (ll_new Map.empty) HEAP_START HEAP_SIZE = Inr self"
    by (simp add: ll_init_def add_free_region_def align_up_def usize_defs Let_def HEAP_START_def HEAP_SIZE_def)
  have inv: "ll_inv HEAP_START (HEAP_START + HEAP_SIZE) self {}"
    by (rule ll_init_inv [OF _ _ i]) (simp_all add: HEAP_START_def HEAP_SIZE_def)
  have "1024 \<le> length (frame_addresses small_map)"
    by (simp add: frame_addresses_def small_map_def step_by_4096_def)
  then show ?thesis
    using kernel_heap_ready [where X = x86_std and M = map_mapper and regions = small_map and off = 0
        and level_four = "0x1000" and table = "0x1000" and new_table = "\<lambda>table off. Map.empty" and fb_init = ll_init
        and heap_empty = "ll_new Map.empty" and mem = Map.empty and km = no_memory
        and fb_inv = "ll_inv HEAP_START (HEAP_START + HEAP_SIZE)" and adm = ll_request,
        OF x86_std_docs map_mapper_docs small_map_ok _ _ _ _ ll_heap.global_alloc_axioms class_layout_ll i inv]
    by (auto simp: x86_std_def map_mapper_def)
qed

end
