(* ===== verification/Acpi_Handler.thy ===== *)
theory Acpi_Handler
  imports Paging
begin

text \<open>
  \<^verbatim>\<open>kernel/src/device/acpi/handler.rs\<close>: the handler through which the ACPI crates and the APIC code
  reach physical memory. A region of physical memory is mapped at freshly allocated pages and unmapped
  when the mapping is dropped.
\<close>

section \<open>Operations\<close>

record PhysicalMapping =
  physical_start :: nat
  virtual_start :: nat
  region_length :: nat
  mapped_length :: nat

text \<open>One turn of the loop of \<^verbatim>\<open>do_map_region\<close>: map the page and advance both pointers.\<close>

definition map_region_page ::
  "x86_64 \<Rightarrow> 'm mapper_ops \<Rightarrow> PageTableFlag set \<Rightarrow> nat \<Rightarrow> nat \<Rightarrow> 'm kernel_memory \<Rightarrow>
   (nat \<times> nat \<times> 'm kernel_memory) outcome" where
  "map_region_page X M flags ptr virt km =
     bindR (unwrapR ''unwrap'' (page_from_start X virt)) (\<lambda>page.
     bindR (with_mapper (\<lambda>mapper km.
       bindR (with_frame_allocator (\<lambda>allocator.
         let frame = frame_containing X ptr
         in bindR (map_to M mapper page frame flags allocator) (\<lambda>(r, mapper, allocator).
              case r of
                Inl _ \<Rightarrow> Inl (Unwrap_Failed ''Failed to map'')
              | Inr _ \<Rightarrow> Inr (mapper, allocator))) km) (\<lambda>(mapper, km).
         Inr ((), mapper, km))) km) (\<lambda>(_, km).
     bindR (phys_add X ptr 4096) (\<lambda>ptr.
     bindR (virt_add X virt 4096) (\<lambda>virt.
       Inr (ptr, virt, km)))))"

partial_function (option) do_map_loop ::
  "x86_64 \<Rightarrow> 'm mapper_ops \<Rightarrow> nat \<Rightarrow> PageTableFlag set \<Rightarrow> nat \<Rightarrow> nat \<Rightarrow> 'm kernel_memory \<Rightarrow>
   'm kernel_memory outcome option" where
  "do_map_loop X M e flags ptr virt km =
     (if ptr < e then
        case map_region_page X M flags ptr virt km of
          Inl x \<Rightarrow> Some (Inl x)
        | Inr (ptr, virt, km) \<Rightarrow> do_map_loop X M e flags ptr virt km
      else Some (Inr km))"

definition do_map_region ::
  "x86_64 \<Rightarrow> 'm mapper_ops \<Rightarrow> nat \<Rightarrow> nat \<Rightarrow> nat \<Rightarrow> PageTableFlag set \<Rightarrow> 'm kernel_memory \<Rightarrow>
   'm kernel_memory outcome" where
  "do_map_region X M start e virt_start flags km =
     run_loop (do_map_loop X M e flags start virt_start km)"

definition map_physical_region ::
  "x86_64 \<Rightarrow> 'm mapper_ops \<Rightarrow> 'm kernel_memory \<Rightarrow> nat \<Rightarrow> nat \<Rightarrow>
   (PhysicalMapping \<times> 'm kernel_memory) outcome" where
  "map_physical_region X M km physical_address sz =
     bindR (phys_new X physical_address) (\<lambda>s.
     let start = phys_align_down X s 4096
     in bindR (add_usize physical_address sz) (\<lambda>pe.
     bindR (phys_new X pe) (\<lambda>pe.
     bindR (phys_align_up X pe 4096) (\<lambda>e.
     let flags = {PRESENT, WRITABLE, NO_CACHE}
     in bindR (sub_usize e start) (\<lambda>len.
     let page_count = len div 4096
     in bindR (allocate_n X (km_pages km) page_count) (\<lambda>(virt, pages).
     bindR (do_map_region X M start e virt flags (km\<lparr>km_pages := pages\<rparr>)) (\<lambda>km.
     bindR (sub_usize e start) (\<lambda>mapped_len.
     let virt_offset = physical_address mod 4096
     in bindR (add_usize virt virt_offset) (\<lambda>virt_ptr.
     bindR (unwrapR ''unwrap'' (if virt_ptr = 0 then None else Some virt_ptr)) (\<lambda>vs.
       Inr (\<lparr>physical_start = physical_address, virtual_start = vs, region_length = sz,
             mapped_length = mapped_len\<rparr>, km)))))))))))"

primrec unmap_pages ::
  "x86_64 \<Rightarrow> 'm mapper_ops \<Rightarrow> nat \<Rightarrow> nat \<Rightarrow> 'm kernel_memory \<Rightarrow> 'm kernel_memory outcome" where
  "unmap_pages X M 0 virt km = Inr km"
| "unmap_pages X M (Suc n) virt km =
     (let page = page_containing X virt
      in bindR (with_mapper (\<lambda>mapper km.
           bindR (unmap M mapper page) (\<lambda>(r, mapper).
             case r of
               Inl _ \<Rightarrow> Inl (Unwrap_Failed ''Failed to unmap ACPI'')
             | Inr _ \<Rightarrow> Inr ((), mapper, km))) km) (\<lambda>(_, km).
         bindR (virt_add X virt 4096) (\<lambda>virt. unmap_pages X M n virt km)))"

definition unmap_physical_region ::
  "x86_64 \<Rightarrow> 'm mapper_ops \<Rightarrow> PhysicalMapping \<Rightarrow> 'm kernel_memory \<Rightarrow> 'm kernel_memory outcome" where
  "unmap_physical_region X M region km =
     bindR (virt_new X (virtual_start region)) (\<lambda>virt.
       let count = mapped_length region div 4096
       in unmap_pages X M count virt km)"

section \<open>Ranges of pages\<close>

definition page_range :: "nat \<Rightarrow> nat \<Rightarrow> nat set" where
  "page_range v n = {q. \<exists>i < n. q = v + 4096 * i}"

lemma page_range_0 [simp]: "page_range v 0 = {}"
  by (simp add: page_range_def)

lemma page_range_Suc: "page_range v (Suc n) = insert v (page_range (v + 4096) n)"
proof -
  have "(\<exists>i < Suc n. q = v + 4096 * i) \<longleftrightarrow> q = v \<or> (\<exists>i < n. q = v + 4096 + 4096 * i)" for q
    unfolding Ex_less_Suc2 by (simp add: add.assoc)
  then show ?thesis by (auto simp: page_range_def)
qed

lemma page_range_above: "q \<in> page_range v n \<Longrightarrow> v \<le> q"
  by (auto simp: page_range_def)

lemma page_range_dvd: "q \<in> page_range v n \<Longrightarrow> 4096 dvd v \<Longrightarrow> 4096 dvd q"
  by (auto simp: page_range_def)

text \<open>A mapping changed on a range of pages to consecutive frames from \<open>ptr\<close> on.\<close>

definition map_range ::
  "nat \<Rightarrow> nat \<Rightarrow> nat \<Rightarrow> PageTableFlag set \<Rightarrow> (nat \<rightharpoonup> nat \<times> PageTableFlag set) \<Rightarrow>
   (nat \<rightharpoonup> nat \<times> PageTableFlag set)" where
  "map_range v n ptr flags f = (\<lambda>q. if q \<in> page_range v n then Some (ptr + (q - v), flags) else f q)"

lemma map_range_Suc:
  "map_range v (Suc n) ptr flags f = map_range (v + 4096) n (ptr + 4096) flags (f(v \<mapsto> (ptr, flags)))"
proof
  fix q
  show "map_range v (Suc n) ptr flags f q =
      map_range (v + 4096) n (ptr + 4096) flags (f(v \<mapsto> (ptr, flags))) q"
    using page_range_above [of q "v + 4096" n]
    by (cases "q \<in> page_range (v + 4096) n") (auto simp: map_range_def page_range_Suc)
qed

section \<open>The loops\<close>

lemma map_region_page_ok:
  assumes "x86_docs X" and "mapper_docs M" and "km_mapper km = Some m" and "km_frames km = Some fa"
    and "4096 dvd ptr" and "4096 dvd virt" and "free_page M m virt" and "3 \<le> frames_left fa"
    and "ptr + 4096 < 2 ^ 52" and "virt + 4096 < 2 ^ 47"
  obtains m' k where "k \<le> 3" and "map_region_page X M flags ptr virt km =
      Inr (ptr + 4096, virt + 4096,
        km\<lparr>km_mapper := Some m', km_frames := Some (fa\<lparr>next_frame := next_frame fa + k\<rparr>)\<rparr>)"
    and "mapped M m' = (mapped M m)(virt \<mapsto> (ptr, flags))"
    and "\<And>q. free_page M m' q \<longleftrightarrow> free_page M m q \<and> q \<noteq> virt"
proof -
  obtain m' k where k: "k \<le> 3"
    and mt: "map_to M m virt ptr flags fa = Inr (Inr (), m', fa\<lparr>next_frame := next_frame fa + k\<rparr>)"
    and m': "mapped M m' = (mapped M m)(virt \<mapsto> (ptr, flags))"
      "\<And>q. free_page M m' q \<longleftrightarrow> free_page M m q \<and> q \<noteq> virt"
    by (rule mapper_map_to [OF assms(2,7,6,5,8), of flags]) blast
  have "frame_containing X ptr = ptr" "page_from_start X virt = Some virt"
    using assms(5,6) by (simp_all add: x86_containing [OF assms(1)] x86_from_start [OF assms(1)])
  moreover note x86_phys_add [OF assms(1,9)] x86_virt_add [OF assms(1,10)]
  ultimately have "map_region_page X M flags ptr virt km =
      Inr (ptr + 4096, virt + 4096,
        km\<lparr>km_mapper := Some m', km_frames := Some (fa\<lparr>next_frame := next_frame fa + k\<rparr>)\<rparr>)"
    using mt assms(3,4) by (simp add: map_region_page_def with_mapper_def with_frame_allocator_def)
  with k m' that show thesis by blast
qed

lemma do_map_loop_ok:
  assumes "x86_docs X" and "mapper_docs M" and "km_mapper km = Some m" and "km_frames km = Some fa"
    and "4096 dvd ptr" and "4096 dvd virt" and "ptr + 4096 * n = e" and "e < 2 ^ 52"
    and "virt + 4096 * n < 2 ^ 47" and "\<And>q. q \<in> page_range virt n \<Longrightarrow> free_page M m q"
    and "3 * n \<le> frames_left fa"
  shows "\<exists>m' fa'. do_map_loop X M e flags ptr virt km =
      Some (Inr (km\<lparr>km_mapper := Some m', km_frames := Some fa'\<rparr>)) \<and>
    mapped M m' = map_range virt n ptr flags (mapped M m) \<and>
    (\<forall>q. free_page M m' q \<longleftrightarrow> free_page M m q \<and> q \<notin> page_range virt n) \<and>
    frames_left fa \<le> frames_left fa' + 3 * n"
  using assms(3-)
proof (induction n arbitrary: ptr virt km m fa)
  case 0
  then have "km\<lparr>km_mapper := Some m, km_frames := Some fa\<rparr> = km" by simp
  then show ?case using 0 by (auto simp: do_map_loop.simps map_range_def intro!: exI [of _ m] exI [of _ fa])
next
  case (Suc n)
  have f: "free_page M m virt" "3 \<le> frames_left fa" "ptr + 4096 < 2 ^ 52" "virt + 4096 < 2 ^ 47"
    using Suc.prems(5-) by (simp_all add: page_range_Suc)
  obtain m1 k where k: "k \<le> 3" and st: "map_region_page X M flags ptr virt km =
      Inr (ptr + 4096, virt + 4096,
        km\<lparr>km_mapper := Some m1, km_frames := Some (fa\<lparr>next_frame := next_frame fa + k\<rparr>)\<rparr>)"
    and m1: "mapped M m1 = (mapped M m)(virt \<mapsto> (ptr, flags))"
      "\<And>q. free_page M m1 q \<longleftrightarrow> free_page M m q \<and> q \<noteq> virt"
    by (rule map_region_page_ok [OF assms(1,2) Suc.prems(1-4) f, of flags]) blast
  let ?fa = "fa\<lparr>next_frame := next_frame fa + k\<rparr>"
  let ?km = "km\<lparr>km_mapper := Some m1, km_frames := Some ?fa\<rparr>"
  have free: "free_page M m1 q" if "q \<in> page_range (virt + 4096) n" for q
    using Suc.prems(8) [of q] that page_range_above [OF that] by (auto simp: m1 page_range_Suc)
  have left: "3 * n \<le> frames_left ?fa" using Suc.prems(9) k by (simp add: frames_left_def)
  obtain m' fa' where IH: "do_map_loop X M e flags (ptr + 4096) (virt + 4096) ?km =
      Some (Inr (?km\<lparr>km_mapper := Some m', km_frames := Some fa'\<rparr>))"
    "mapped M m' = map_range (virt + 4096) n (ptr + 4096) flags (mapped M m1)"
    "\<forall>q. free_page M m' q \<longleftrightarrow> free_page M m1 q \<and> q \<notin> page_range (virt + 4096) n"
    "frames_left ?fa \<le> frames_left fa' + 3 * n"
    using Suc.IH [of ?km m1 ?fa "ptr + 4096" "virt + 4096"] Suc.prems(3-7) left free by auto
  have "do_map_loop X M e flags ptr virt km = Some (Inr (km\<lparr>km_mapper := Some m', km_frames := Some fa'\<rparr>))"
    using st IH(1) Suc.prems(5) by (subst do_map_loop.simps) simp
  moreover have "frames_left fa \<le> frames_left ?fa + 3" using k by (simp add: frames_left_def)
  then have "frames_left fa \<le> frames_left fa' + 3 * Suc n" using IH(4) by simp
  ultimately show ?case using IH(2,3) m1
    by (intro exI [of _ m'] exI [of _ fa']) (auto simp: map_range_Suc page_range_Suc)
qed

lemma unmap_pages_ok:
  assumes "x86_docs X" and "mapper_docs M" and "km_mapper km = Some m" and "4096 dvd v" and "d < 4096"
    and "v + d + 4096 * n < 2 ^ 47" and "\<And>q. q \<in> page_range v n \<Longrightarrow> mapped M m q \<noteq> None"
  shows "\<exists>m'. unmap_pages X M n (v + d) km = Inr (km\<lparr>km_mapper := Some m'\<rparr>) \<and>
    mapped M m' = (\<lambda>q. if q \<in> page_range v n then None else mapped M m q) \<and>
    (\<forall>q. free_page M m' q \<longleftrightarrow> free_page M m q \<or> q \<in> page_range v n)"
  using assms(3-)
proof (induction n arbitrary: v km m)
  case 0
  then have "km\<lparr>km_mapper := Some m\<rparr> = km" by simp
  then show ?case by (auto intro!: exI [of _ m])
next
  case (Suc n)
  have pg: "page_containing X (v + d) = v"
    using Suc.prems(2,3) by (auto simp: x86_containing [OF assms(1)] elim!: dvdE)
  obtain f where "mapped M m v = Some f" using Suc.prems(5) [of v] by (auto simp: page_range_Suc)
  then obtain frame fl where mv: "mapped M m v = Some (frame, fl)" by (cases f) auto
  obtain m1 where um: "unmap M m v = Inr (Inr frame, m1)" and m1: "mapped M m1 = (mapped M m)(v := None)"
    "\<And>q. free_page M m1 q \<longleftrightarrow> free_page M m q \<or> q = v"
    by (rule mapper_unmap [OF assms(2) mv]) blast
  let ?km = "km\<lparr>km_mapper := Some m1\<rparr>"
  have ad: "virt_add X (v + d) 4096 = Inr (v + 4096 + d)"
    using x86_virt_add [OF assms(1), of "v + d" 4096] Suc.prems(4) by simp
  have "mapped M m1 q \<noteq> None" if "q \<in> page_range (v + 4096) n" for q
    using Suc.prems(5) [of q] page_range_above [OF that] that by (auto simp: m1 page_range_Suc)
  then obtain m' where IH: "unmap_pages X M n (v + 4096 + d) ?km = Inr (?km\<lparr>km_mapper := Some m'\<rparr>)"
    "mapped M m' = (\<lambda>q. if q \<in> page_range (v + 4096) n then None else mapped M m1 q)"
    "\<forall>q. free_page M m' q \<longleftrightarrow> free_page M m1 q \<or> q \<in> page_range (v + 4096) n"
    using Suc.IH [of ?km m1 "v + 4096"] Suc.prems(2-4) by auto
  have "unmap_pages X M (Suc n) (v + d) km = Inr (km\<lparr>km_mapper := Some m'\<rparr>)"
    using pg um ad IH(1) Suc.prems(1) by (simp add: with_mapper_def)
  then show ?case using IH(2,3) m1 by (intro exI [of _ m']) (auto simp: page_range_Suc)
qed

section \<open>Mapping a region\<close>

text \<open>The number of pages that a region of physical memory touches.\<close>

definition page_span :: "nat \<Rightarrow> nat \<Rightarrow> nat" where
  "page_span pa sz = (aligned_above (pa + sz) 4096 - (pa - pa mod 4096)) div 4096"

text \<open>
  The kernel is ready to map a region: memory is initialised, the next virtual pages are canonical and
  free, the region is not empty and ends below the last physical page, and there are frames for page
  tables.
\<close>

definition region_ready ::
  "'m mapper_ops \<Rightarrow> 'm kernel_memory \<Rightarrow> 'm \<Rightarrow> nat \<Rightarrow> nat \<Rightarrow> bool" where
  "region_ready M km m pa sz \<longleftrightarrow>
     km_mapper km = Some m \<and> 0 < sz \<and> aligned_above (pa + sz) 4096 < 2 ^ 52 \<and>
     (let v = page_addr (km_pages km); n = page_span pa sz
      in 0 < v \<and> 4096 dvd v \<and> v + 4096 * (n + 1) < 2 ^ 47 \<and> (\<forall>i < n. free_page M m (v + 4096 * i)) \<and>
         (\<exists>fa. km_frames km = Some fa \<and> 3 * n \<le> frames_left fa))"

lemma page_span_props:
  assumes "0 < sz"
  shows "0 < page_span pa sz" and "pa - pa mod 4096 + 4096 * page_span pa sz = aligned_above (pa + sz) 4096"
    and "pa mod 4096 + sz \<le> 4096 * page_span pa sz"
proof -
  let ?s = "pa - pa mod 4096" and ?e = "aligned_above (pa + sz) 4096"
  have ee: "4096 dvd ?e" "pa + sz \<le> ?e" using aligned_above_props [of 4096 "pa + sz"] by simp_all
  have ss: "4096 dvd ?s" "?s \<le> pa" by (simp_all add: dvd_minus_mod)
  have d: "4096 dvd ?e - ?s" "?s < ?e" using dvd_diff_nat [OF ee(1) ss(1)] ee(2) ss(2) assms by linarith+
  then have e: "?e - ?s = 4096 * page_span pa sz" by (simp add: page_span_def)
  then show eq: "?s + 4096 * page_span pa sz = ?e" using d by simp
  show "0 < page_span pa sz" using e d by (cases "page_span pa sz") auto
  show "pa mod 4096 + sz \<le> 4096 * page_span pa sz"
    using eq \<open>pa + sz \<le> ?e\<close> mod_less_eq_dividend [of pa 4096] by linarith
qed

lemma map_physical_region_ok:
  assumes X: "x86_docs X" and M: "mapper_docs M" and R: "region_ready M km m pa sz"
  defines "v \<equiv> page_addr (km_pages km)" and "n \<equiv> page_span pa sz"
  shows "\<exists>m' fa'. map_physical_region X M km pa sz =
      Inr (\<lparr>physical_start = pa, virtual_start = v + pa mod 4096, region_length = sz, mapped_length = 4096 * n\<rparr>,
        km\<lparr>km_mapper := Some m', km_frames := Some fa', km_pages := \<lparr>page_addr = v + 4096 * n\<rparr>\<rparr>) \<and>
    mapped M m' = map_range v n (pa - pa mod 4096) {PRESENT, WRITABLE, NO_CACHE} (mapped M m) \<and>
    (\<forall>q. free_page M m' q \<longleftrightarrow> free_page M m q \<and> q \<notin> page_range v n) \<and>
    (\<forall>fa. km_frames km = Some fa \<longrightarrow> frames_left fa \<le> frames_left fa' + 3 * n)"
proof -
  let ?s = "pa - pa mod 4096" and ?e = "aligned_above (pa + sz) 4096" and ?fl = "{PRESENT, WRITABLE, NO_CACHE}"
  obtain fa where r: "km_mapper km = Some m" "0 < sz" "?e < 2 ^ 52" "0 < v" "4096 dvd v"
    "v + 4096 * (n + 1) < 2 ^ 47" "\<And>i. i < n \<Longrightarrow> free_page M m (v + 4096 * i)" "km_frames km = Some fa" "3 * n \<le> frames_left fa"
    using R by (auto simp: region_ready_def Let_def v_def n_def)
  note span = page_span_props [OF r(2), of pa, folded n_def]
  have le: "pa + sz \<le> ?e" using aligned_above_props [of 4096 "pa + sz"] by simp
  let ?km = "km\<lparr>km_pages := \<lparr>page_addr = v + 4096 * n\<rparr>\<rparr>"
  have "\<exists>m' fa'. do_map_loop X M ?e ?fl ?s v ?km = Some (Inr (?km\<lparr>km_mapper := Some m', km_frames := Some fa'\<rparr>)) \<and>
      mapped M m' = map_range v n ?s ?fl (mapped M m) \<and>
      (\<forall>q. free_page M m' q \<longleftrightarrow> free_page M m q \<and> q \<notin> page_range v n) \<and> frames_left fa \<le> frames_left fa' + 3 * n"
    by (rule do_map_loop_ok [OF X M, where n = n and fa = fa])
      (use r span in \<open>auto simp: page_range_def dvd_minus_mod\<close>)
  then obtain m' fa' where lp: "do_map_loop X M ?e ?fl ?s v ?km = Some (Inr (?km\<lparr>km_mapper := Some m', km_frames := Some fa'\<rparr>))"
    "mapped M m' = map_range v n ?s ?fl (mapped M m)"
    "\<forall>q. free_page M m' q \<longleftrightarrow> free_page M m q \<and> q \<notin> page_range v n" "frames_left fa \<le> frames_left fa' + 3 * n" by blast
  have al: "allocate_n X (km_pages km) n = Inr (v, \<lparr>page_addr = v + 4096 * n\<rparr>)"
    using allocate_n_eq [OF X, of n "km_pages km"] span(1) r(6) by (simp add: v_def)
  have ops: "phys_new X pa = Inr pa" "phys_new X (pa + sz) = Inr (pa + sz)" "phys_align_up X (pa + sz) 4096 = Inr ?e"
    using x86_phys_new [OF X] x86_align_up [OF X] r(3) le by simp_all
  have ar: "add_usize pa sz = Inr (pa + sz)" "sub_usize ?e ?s = Inr (4096 * n)"
    "add_usize v (pa mod 4096) = Inr (v + pa mod 4096)"
    using r(3,6) le span(2) mod_less_divisor [of 4096 pa] by (auto simp: usize_defs)
  have "map_physical_region X M km pa sz =
      Inr (\<lparr>physical_start = pa, virtual_start = v + pa mod 4096, region_length = sz, mapped_length = 4096 * n\<rparr>,
        ?km\<lparr>km_mapper := Some m', km_frames := Some fa'\<rparr>)"
    unfolding map_physical_region_def do_map_region_def
    by (simp add: ops ar al lp(1) x86_align_down [OF X] r(4) Let_def)
  with lp(2,3,4) r(8) show ?thesis by (intro exI [of _ m'] exI [of _ fa']) (cases km; simp)
qed

lemma map_range_byte:
  assumes "4096 dvd v" and "mapped M m = map_range v n ptr flags f" and "c < 4096 * n"
  shows "phys_byte M m (v + c) = Some (ptr + c)"
proof -
  obtain w where v: "v = 4096 * w" using assms(1) by (elim dvdE)
  have m: "(v + c) mod 4096 = c mod 4096" by (simp add: v)
  have p: "v + c - c mod 4096 = v + 4096 * (c div 4096)"
    using minus_mod_eq_mult_div [of c 4096] mod_less_eq_dividend [of c 4096] by linarith
  have "c div 4096 < n" using assms(3) by (simp add: less_mult_imp_div_less mult.commute)
  then show ?thesis by (auto simp: phys_byte_def m p assms(2) map_range_def page_range_def)
qed

lemma map_region_translates:
  assumes "x86_docs X" and "mapper_docs M" and "region_ready M km m pa sz"
  shows "\<exists>region km' m'. map_physical_region X M km pa sz = Inr (region, km') \<and> km_mapper km' = Some m' \<and>
    (\<forall>b < sz. phys_byte M m' (virtual_start region + b) = Some (pa + b)) \<and>
    (\<forall>q. mapped M m' q \<noteq> mapped M m q \<longrightarrow>
       page_addr (km_pages km) \<le> q \<and> q < page_addr (km_pages km')) \<and>
    virtual_start region + sz \<le> page_addr (km_pages km')"
proof -
  let ?v = "page_addr (km_pages km)" and ?n = "page_span pa sz" and ?s = "pa - pa mod 4096"
  obtain m' fa' where r: "map_physical_region X M km pa sz =
      Inr (\<lparr>physical_start = pa, virtual_start = ?v + pa mod 4096, region_length = sz, mapped_length = 4096 * ?n\<rparr>,
        km\<lparr>km_mapper := Some m', km_frames := Some fa', km_pages := \<lparr>page_addr = ?v + 4096 * ?n\<rparr>\<rparr>)"
    "mapped M m' = map_range ?v ?n ?s {PRESENT, WRITABLE, NO_CACHE} (mapped M m)"
    using map_physical_region_ok [OF assms] by blast
  have v: "4096 dvd ?v" "0 < sz" using assms(3) by (auto simp: region_ready_def Let_def)
  note span = page_span_props(3) [OF v(2), of pa]
  have "phys_byte M m' (?v + pa mod 4096 + b) = Some (pa + b)" if "b < sz" for b
    using map_range_byte [OF v(1) r(2), of "pa mod 4096 + b"] span that
      mod_less_eq_dividend [of pa 4096] by (simp add: add.assoc)
  moreover have "?v \<le> q \<and> q < ?v + 4096 * ?n" if "mapped M m' q \<noteq> mapped M m q" for q
    using that by (auto simp: r(2) map_range_def page_range_def split: if_splits)
  ultimately show ?thesis using r(1) span by auto
qed


lemma map_unmap_restores:
  assumes "x86_docs X" and "mapper_docs M" and "region_ready M km m pa sz"
  shows "\<exists>region km1 m2 fa'. map_physical_region X M km pa sz = Inr (region, km1) \<and>
    unmap_physical_region X M region km1 = Inr (km\<lparr>km_mapper := Some m2, km_frames := Some fa',
      km_pages := \<lparr>page_addr = page_addr (km_pages km) + 4096 * page_span pa sz\<rparr>\<rparr>) \<and>
    mapped M m2 = mapped M m \<and> (\<forall>q. free_page M m2 q \<longleftrightarrow> free_page M m q) \<and>
    (\<forall>fa. km_frames km = Some fa \<longrightarrow> frames_left fa \<le> frames_left fa' + 3 * page_span pa sz)"
proof -
  let ?v = "page_addr (km_pages km)" and ?n = "page_span pa sz" and ?s = "pa - pa mod 4096"
    and ?fl = "{PRESENT, WRITABLE, NO_CACHE}"
  obtain m' fa' where r: "map_physical_region X M km pa sz =
      Inr (\<lparr>physical_start = pa, virtual_start = ?v + pa mod 4096, region_length = sz, mapped_length = 4096 * ?n\<rparr>,
        km\<lparr>km_mapper := Some m', km_frames := Some fa', km_pages := \<lparr>page_addr = ?v + 4096 * ?n\<rparr>\<rparr>)"
    "mapped M m' = map_range ?v ?n ?s ?fl (mapped M m)"
    "\<forall>q. free_page M m' q \<longleftrightarrow> free_page M m q \<and> q \<notin> page_range ?v ?n"
    "\<forall>fa. km_frames km = Some fa \<longrightarrow> frames_left fa \<le> frames_left fa' + 3 * ?n"
    using map_physical_region_ok [OF assms] by blast
  have v: "4096 dvd ?v" "?v + 4096 * (?n + 1) < 2 ^ 47" "\<And>q. q \<in> page_range ?v ?n \<Longrightarrow> free_page M m q"
    using assms(3) by (auto simp: region_ready_def Let_def page_range_def)
  let ?km = "km\<lparr>km_mapper := Some m', km_frames := Some fa', km_pages := \<lparr>page_addr = ?v + 4096 * ?n\<rparr>\<rparr>"
  have d: "pa mod 4096 < 4096" "?v + pa mod 4096 + 4096 * ?n < 2 ^ 47" using v(2) by auto
  have "\<exists>m2. unmap_pages X M ?n (?v + pa mod 4096) ?km = Inr (?km\<lparr>km_mapper := Some m2\<rparr>) \<and>
      mapped M m2 = (\<lambda>q. if q \<in> page_range ?v ?n then None else mapped M m' q) \<and>
      (\<forall>q. free_page M m2 q \<longleftrightarrow> free_page M m' q \<or> q \<in> page_range ?v ?n)"
    by (rule unmap_pages_ok [OF assms(1,2) _ v(1) d]) (auto simp: r(2) map_range_def)
  then obtain m2 where u: "unmap_pages X M ?n (?v + pa mod 4096) ?km = Inr (?km\<lparr>km_mapper := Some m2\<rparr>)"
    "mapped M m2 = (\<lambda>q. if q \<in> page_range ?v ?n then None else mapped M m' q)"
    "\<forall>q. free_page M m2 q \<longleftrightarrow> free_page M m' q \<or> q \<in> page_range ?v ?n" by blast
  have "mapped M m q = None" if "q \<in> page_range ?v ?n" for q
    using v(3) [OF that] assms(2) unfolding mapper_docs_def by blast
  then have "mapped M m2 = mapped M m" by (auto simp: u(2) r(2) map_range_def)
  moreover have "\<forall>q. free_page M m2 q \<longleftrightarrow> free_page M m q" using u(3) r(3) v(3) by blast
  moreover have "virt_new X (?v + pa mod 4096) = Inr (?v + pa mod 4096)"
    by (rule x86_virt_new [OF assms(1)]) (use d in simp)
  ultimately show ?thesis using r(1,4) u(1)
    by (intro exI [of _ m2] exI conjI) (assumption | cases km; simp add: unmap_physical_region_def Let_def)+
qed

text \<open>
  C12: Dropping a mapping undoes it: unmapping the region that \<^verbatim>\<open>map_physical_region\<close> returned, which may
  start in the middle of a page, succeeds and restores the mapping of every page.
\<close>

theorem map_unmap_roundtrip:
  assumes "x86_docs X" and "mapper_docs M" and "region_ready M km m pa sz"
  shows "\<exists>region km1 km2 m2. map_physical_region X M km pa sz = Inr (region, km1) \<and>
    unmap_physical_region X M region km1 = Inr km2 \<and> km_mapper km2 = Some m2 \<and>
    mapped M m2 = mapped M m \<and> (\<forall>q. free_page M m2 q \<longleftrightarrow> free_page M m q)"
  using map_unmap_restores [OF assms] by fastforce

section \<open>An instance\<close>

definition mapped_memory :: "(nat \<rightharpoonup> nat \<times> PageTableFlag set) kernel_memory" where
  "mapped_memory = no_memory\<lparr>km_mapper := Some Map.empty, km_frames := Some (frame_allocator_init small_map)\<rparr>"

lemma mapped_memory_ready: "region_ready map_mapper mapped_memory Map.empty 0xFEE00FF8 16"
  by (simp add: region_ready_def mapped_memory_def no_memory_def map_mapper_def page_allocator_new_def
      x86_std_def page_span_def aligned_above_def frames_left_def frame_addresses_def small_map_def
      step_by_4096_def frame_allocator_init_def Let_def)


theorem map_unmap_roundtrip_witness:
  "\<exists>region km1 km2 m2. map_physical_region x86_std map_mapper mapped_memory 0xFEE00FF8 16 = Inr (region, km1) \<and>
    unmap_physical_region x86_std map_mapper region km1 = Inr km2 \<and> km_mapper km2 = Some m2 \<and>
    mapped map_mapper m2 = Map.empty"
  using map_unmap_roundtrip [OF x86_std_docs map_mapper_docs mapped_memory_ready]
  by (auto simp: map_mapper_def)

end
