(* ===== verification/Bit_Fields.thy ===== *)
theory Bit_Fields
  imports Prelude
begin

unbundle bit_operations_syntax

text \<open>
  Registers that are packed from bit fields. A field of \<open>n\<close> bits at position \<open>k\<close> of a word is read by
  \<open>field k n\<close>; a value that fits into \<open>n\<close> bits and is shifted by \<open>k\<close> is found there again as long as
  the other values that are combined with it fit into their own fields.
\<close>

definition fits :: "nat \<Rightarrow> 'a::len word \<Rightarrow> bool" where
  "fits n w \<longleftrightarrow> take_bit n w = w"

definition field :: "nat \<Rightarrow> nat \<Rightarrow> 'a::len word \<Rightarrow> 'a word" where
  "field k n w = take_bit n (drop_bit k w)"

lemma fits_bit: "fits n w \<Longrightarrow> bit w i \<Longrightarrow> i < n"
  unfolding fits_def by (metis bit_take_bit_iff)

lemma fits_and_mask [simp]: "fits n (w AND mask n)"
  by (simp add: fits_def take_bit_eq_mask flip: and.assoc)

lemma fits_of_bool [simp]: "0 < n \<Longrightarrow> fits n (of_bool b)"
  by (cases b) (simp_all add: fits_def)

lemma fits_mono: "fits m w \<Longrightarrow> m \<le> n \<Longrightarrow> fits n w"
  unfolding fits_def by (metis min.absorb2 take_bit_take_bit)

lemma fits_ucast [simp]: "LENGTH('a) \<le> n \<Longrightarrow> fits n (ucast (w :: 'a::len word) :: 'b::len word)"
  unfolding fits_def by (rule bit_word_eqI) (auto simp: bit_simps dest: bit_imp_le_length)

lemma fits_field [simp]: "fits n (field k n w)"
  by (simp add: fits_def field_def)

lemma bit_field_iff [bit_simps]: "bit (field k n w) i \<longleftrightarrow> i < n \<and> bit w (k + i)"
  by (simp add: field_def bit_simps)

lemma field_or: "field k n (v OR w) = field k n v OR field k n w"
  by (simp add: field_def take_bit_or drop_bit_or)

text \<open>A field above or below the bits of a shifted value does not see it.\<close>

lemma field_above:
  assumes "fits m w" and "s + m \<le> k"
  shows "field k n (push_bit s w) = 0"
  by (rule bit_word_eqI) (use assms in \<open>auto simp: bit_simps dest!: fits_bit\<close>)

lemma field_below: "k + n \<le> s \<Longrightarrow> field k n (push_bit s w) = 0"
  by (rule bit_word_eqI) (auto simp: bit_simps)

lemma field_same:
  assumes "fits n (w :: 'a::len word)" and "k + n \<le> LENGTH('a)"
  shows "field k n (push_bit k w) = w"
  by (rule bit_word_eqI) (use assms in \<open>auto simp: bit_simps dest: fits_bit\<close>)

lemma field_self: "fits n w \<Longrightarrow> field 0 n w = w"
  by (simp add: field_def fits_def)

lemma field_self_above: "fits m w \<Longrightarrow> m \<le> k \<Longrightarrow> field k n w = 0"
  using field_above [of m w 0 k n] by simp

lemma fits_unat: "unat w < 2 ^ n \<Longrightarrow> fits n w"
  by (simp add: fits_def word_unat_eq_iff unsigned_take_bit_eq take_bit_nat_eq_self)

lemma fits_ucast_same: "fits n w \<Longrightarrow> fits n (ucast (w :: 'a::len word) :: 'b::len word)"
  unfolding fits_def [of n "ucast w"] by (rule bit_word_eqI) (auto simp: bit_simps dest: fits_bit)

text \<open>Reading a field of a register assembled from shifted parts of one, two, three or eight bits.\<close>

lemmas read_field = field_or field_same field_self field_below field_self_above [where m = 8]
  field_above [where m = "Suc 0"] field_above [where m = 2] field_above [where m = 3] field_above [where m = 8]

lemma ucast_up_inj:
  assumes "LENGTH('a) \<le> LENGTH('b)"
  shows "(ucast (v :: 'a::len word) :: 'b::len word) = ucast w \<longleftrightarrow> v = w"
proof
  assume eq: "(ucast v :: 'b word) = ucast w"
  show "v = w"
  proof (rule bit_word_eqI)
    fix n assume "n < LENGTH('a)"
    then show "bit v n \<longleftrightarrow> bit w n" using arg_cong [OF eq, of "\<lambda>x. bit x n"] assms by (simp add: bit_simps)
  qed
qed simp

lemma unat_field_less: "unat (field k n (w :: 'a::len word)) < 2 ^ n"
proof -
  have "unat (field k n w) = take_bit n (unat (drop_bit k w))" by (simp add: field_def unsigned_take_bit_eq)
  also have "\<dots> < 2 ^ n" by simp
  finally show ?thesis .
qed

end
