(* ===== verification/Hardware.thy ===== *)
theory Hardware
  imports Prelude
begin

text \<open>
  What the kernel can do to the machine: volatile accesses to memory-mapped registers, port I/O and
  model-specific registers. The devices behind these are not part of the program. A state of all of
  them has the type \<open>'d\<close>, and the instructions are the fields of a record of functions on it; a read
  may change the state, as it does for many device registers. A property that depends on a device
  states what it needs of that device as a hypothesis on these functions.
\<close>

record 'd machine =
  mmio_read :: "'d \<Rightarrow> nat \<Rightarrow> u32 \<times> 'd"
  mmio_write :: "'d \<Rightarrow> nat \<Rightarrow> u32 \<Rightarrow> 'd"
  in8 :: "'d \<Rightarrow> u16 \<Rightarrow> u8 \<times> 'd"
  in16 :: "'d \<Rightarrow> u16 \<Rightarrow> u16 \<times> 'd"
  in32 :: "'d \<Rightarrow> u16 \<Rightarrow> u32 \<times> 'd"
  out8 :: "'d \<Rightarrow> u16 \<Rightarrow> u8 \<Rightarrow> 'd"
  out16 :: "'d \<Rightarrow> u16 \<Rightarrow> u16 \<Rightarrow> 'd"
  out32 :: "'d \<Rightarrow> u16 \<Rightarrow> u32 \<Rightarrow> 'd"
  rdmsr :: "'d \<Rightarrow> u32 \<Rightarrow> u64"
  wrmsr :: "'d \<Rightarrow> u32 \<Rightarrow> u64 \<Rightarrow> 'd"

section \<open>A recording machine\<close>

text \<open>
  A machine that remembers what was written to it, in order, and answers reads of memory-mapped
  registers with the value written last. It serves as an instance of the hypotheses on devices.
\<close>

datatype hw_write = Mmio nat u32 | Port8 u16 u8 | Port16 u16 u16 | Port32 u16 u32 | Wrmsr u32 u64

record recorder =
  rec_writes :: "hw_write list"
  rec_regs :: "nat \<Rightarrow> u32"

definition recording :: "recorder machine" where
  "recording = \<lparr>
     mmio_read = (\<lambda>d a. (rec_regs d a, d)),
     mmio_write = (\<lambda>d a v. d\<lparr>rec_writes := rec_writes d @ [Mmio a v], rec_regs := (rec_regs d)(a := v)\<rparr>),
     in8 = (\<lambda>d p. (0, d)), in16 = (\<lambda>d p. (0, d)), in32 = (\<lambda>d p. (0, d)),
     out8 = (\<lambda>d p v. d\<lparr>rec_writes := rec_writes d @ [Port8 p v]\<rparr>),
     out16 = (\<lambda>d p v. d\<lparr>rec_writes := rec_writes d @ [Port16 p v]\<rparr>),
     out32 = (\<lambda>d p v. d\<lparr>rec_writes := rec_writes d @ [Port32 p v]\<rparr>),
     rdmsr = (\<lambda>d r. 0xFEE00900),
     wrmsr = (\<lambda>d r v. d\<lparr>rec_writes := rec_writes d @ [Wrmsr r v]\<rparr>)\<rparr>"

definition idle_recorder :: recorder where
  "idle_recorder = \<lparr>rec_writes = [], rec_regs = (\<lambda>_. 0)\<rparr>"

end
