(* ===== verification/Local_Apic.thy ===== *)
theory Local_Apic
  imports Acpi_Handler Bit_Fields Hardware
begin

text \<open>
  \<^verbatim>\<open>kernel/src/interrupts/apic/local.rs\<close>: the local interrupt controller of the processor. Its registers
  are reached through a mapping of its physical base address, which the kernel takes from the
  ACPI tables (the crate \<^verbatim>\<open>acpi\<close>, a list of entries here) or from a model-specific register.
\<close>

section \<open>Registers\<close>

datatype LocalApicRegister = Lapic_Id | Lapic_Version | TaskPriority | ArbitrationPriority
  | ProcessorPriority | EndOfInterrupt | RemoteRead | LogicalDestination | DestinationFormat
  | SpuriousInterruptVector | ErrorStatus | LvtCorrectedMachineCheckInterrupt | InterruptCommand1
  | InterruptCommand2 | LvtTimer | LvtLint0 | LvtLint1 | LvtError | InitialCount | CurrentCount
  | DivideConfiguration

fun register_offset :: "LocalApicRegister \<Rightarrow> nat" where
  "register_offset Lapic_Id = 0x020"
| "register_offset Lapic_Version = 0x030"
| "register_offset TaskPriority = 0x080"
| "register_offset ArbitrationPriority = 0x090"
| "register_offset ProcessorPriority = 0x0A0"
| "register_offset EndOfInterrupt = 0x0B0"
| "register_offset RemoteRead = 0x0C0"
| "register_offset LogicalDestination = 0x0D0"
| "register_offset DestinationFormat = 0x0E0"
| "register_offset SpuriousInterruptVector = 0x0F0"
| "register_offset ErrorStatus = 0x280"
| "register_offset LvtCorrectedMachineCheckInterrupt = 0x2F0"
| "register_offset InterruptCommand1 = 0x300"
| "register_offset InterruptCommand2 = 0x310"
| "register_offset LvtTimer = 0x320"
| "register_offset LvtLint0 = 0x350"
| "register_offset LvtLint1 = 0x360"
| "register_offset LvtError = 0x370"
| "register_offset InitialCount = 0x380"
| "register_offset CurrentCount = 0x390"
| "register_offset DivideConfiguration = 0x3E0"

datatype ApicRegisterPermissions = Perm_None | ReadWrite | ReadOnly | WriteOnly

fun permissions :: "LocalApicRegister \<Rightarrow> ApicRegisterPermissions" where
  "permissions Lapic_Id = ReadOnly"
| "permissions Lapic_Version = ReadOnly"
| "permissions TaskPriority = ReadWrite"
| "permissions ArbitrationPriority = ReadOnly"
| "permissions ProcessorPriority = ReadOnly"
| "permissions EndOfInterrupt = WriteOnly"
| "permissions RemoteRead = ReadOnly"
| "permissions LogicalDestination = ReadWrite"
| "permissions DestinationFormat = ReadWrite"
| "permissions SpuriousInterruptVector = ReadWrite"
| "permissions ErrorStatus = ReadOnly"
| "permissions LvtCorrectedMachineCheckInterrupt = ReadWrite"
| "permissions InterruptCommand1 = ReadWrite"
| "permissions InterruptCommand2 = ReadWrite"
| "permissions LvtTimer = ReadWrite"
| "permissions LvtLint0 = ReadWrite"
| "permissions LvtLint1 = ReadWrite"
| "permissions LvtError = ReadWrite"
| "permissions InitialCount = ReadWrite"
| "permissions CurrentCount = ReadOnly"
| "permissions DivideConfiguration = ReadWrite"

definition is_readable :: "LocalApicRegister \<Rightarrow> bool" where
  "is_readable r = (case permissions r of
     ReadOnly \<Rightarrow> True | ReadWrite \<Rightarrow> True | Perm_None \<Rightarrow> False | WriteOnly \<Rightarrow> False)"

definition is_writable :: "LocalApicRegister \<Rightarrow> bool" where
  "is_writable r = (case permissions r of
     WriteOnly \<Rightarrow> True | ReadWrite \<Rightarrow> True | Perm_None \<Rightarrow> False | ReadOnly \<Rightarrow> False)"

section \<open>The local vector table\<close>

datatype VectorDeliveryMode = VDM_Fixed | VDM_SMI | VDM_NMI | VDM_ExtInt
datatype VectorDeliverStatus = VDS_Idle | VDS_SendPending
datatype VectorTriggerMode = VTM_Edge | VTM_Level
datatype VectorTimerMode = OneShot | Periodic | TscDeadline

fun vdm_value :: "VectorDeliveryMode \<Rightarrow> u32" where
  "vdm_value VDM_Fixed = 0" | "vdm_value VDM_SMI = 2" | "vdm_value VDM_NMI = 4" | "vdm_value VDM_ExtInt = 3"

fun vds_value :: "VectorDeliverStatus \<Rightarrow> u32" where
  "vds_value VDS_Idle = 0" | "vds_value VDS_SendPending = 1"

fun vtm_value :: "VectorTriggerMode \<Rightarrow> u32" where
  "vtm_value VTM_Edge = 0" | "vtm_value VTM_Level = 1"

fun timer_mode_value :: "VectorTimerMode \<Rightarrow> u32" where
  "timer_mode_value OneShot = 0" | "timer_mode_value Periodic = 1" | "timer_mode_value TscDeadline = 2"

record LocalVectorTableRegister =
  lvt_vector :: u8
  lvt_delivery_mode :: VectorDeliveryMode
  lvt_delivery_status :: VectorDeliverStatus
  is_low_triggered :: bool
  is_remote_irr :: bool
  lvt_trigger_mode :: VectorTriggerMode
  is_masked :: bool
  timer_mode :: VectorTimerMode

definition new_timer :: "u8 \<Rightarrow> VectorDeliverStatus \<Rightarrow> bool \<Rightarrow> VectorTimerMode \<Rightarrow> LocalVectorTableRegister" where
  "new_timer vector status masked mode =
     \<lparr>lvt_vector = vector, lvt_delivery_mode = VDM_NMI, lvt_delivery_status = status,
      is_low_triggered = False, is_remote_irr = False, lvt_trigger_mode = VTM_Edge,
      is_masked = masked, timer_mode = mode\<rparr>"

definition new_masked_timer :: LocalVectorTableRegister where
  "new_masked_timer = new_timer 0 VDS_Idle True Periodic"

definition lvt_as_u32 :: "LocalVectorTableRegister \<Rightarrow> u32" where
  "lvt_as_u32 self =
     (let reserved = (0 :: u32)
      in (ucast (lvt_vector self) AND 0xFF)
       OR push_bit 8 (vdm_value (lvt_delivery_mode self) AND 7)
       OR push_bit 11 (reserved AND 1)
       OR push_bit 12 (vds_value (lvt_delivery_status self) AND 1)
       OR push_bit 13 (of_bool (is_low_triggered self) AND 1)
       OR push_bit 14 (of_bool (is_remote_irr self) AND 1)
       OR push_bit 15 (vtm_value (lvt_trigger_mode self) AND 1)
       OR push_bit 16 (of_bool (is_masked self) AND 1)
       OR push_bit 17 (timer_mode_value (timer_mode self) AND 3))"

section \<open>Finding and mapping the controller\<close>

datatype MadtEntry = LocalApicAddressOverride u64 | IoApicEntry u32 | OtherEntry

definition IA32_APIC_BASE_MSR :: u32 where "IA32_APIC_BASE_MSR = 0x1B"

definition PIC_1_OFFSET :: u8 where "PIC_1_OFFSET = 32"

fun madt_override :: "MadtEntry list \<Rightarrow> u64 option" where
  "madt_override [] = None"
| "madt_override (LocalApicAddressOverride a # es) = Some a"
| "madt_override (e # es) = madt_override es"

definition find_local_apic_base :: "x86_64 \<Rightarrow> 'd machine \<Rightarrow> MadtEntry list option \<Rightarrow> 'd \<Rightarrow> nat outcome" where
  "find_local_apic_base X D madt d =
     (case (case madt of None \<Rightarrow> None | Some es \<Rightarrow> madt_override es) of
        Some addr \<Rightarrow> phys_new X (unat addr)
      | None \<Rightarrow> phys_new X (unat (rdmsr D d IA32_APIC_BASE_MSR)))"

definition set_local_apic_base :: "'d machine \<Rightarrow> nat \<Rightarrow> 'd \<Rightarrow> 'd" where
  "set_local_apic_base D addr d = wrmsr D d IA32_APIC_BASE_MSR (word_of_nat addr)"

record LocalApic =
  la_mapping :: PhysicalMapping

definition offset_to_addr :: "LocalApic \<Rightarrow> nat \<Rightarrow> nat outcome" where
  "offset_to_addr self offset =
     (if offset < 0x800 then
        bindR (add_usize (virtual_start (la_mapping self)) offset) (\<lambda>a. sub_usize a 0x900)
      else Inl Index_Out_Of_Bounds)"

definition get_mapped_end :: "LocalApic \<Rightarrow> nat outcome" where
  "get_mapped_end self =
     bindR (offset_to_addr self 0) (\<lambda>addr. add_usize addr (mapped_length (la_mapping self)))"

definition ensure_safe_addr :: "LocalApic \<Rightarrow> nat \<Rightarrow> unit outcome" where
  "ensure_safe_addr self addr = bindR (get_mapped_end self) (\<lambda>e. assertR (addr < e))"

definition register_to_addr :: "LocalApic \<Rightarrow> LocalApicRegister \<Rightarrow> nat outcome" where
  "register_to_addr self register =
     bindR (offset_to_addr self (register_offset register)) (\<lambda>addr.
     bindR (ensure_safe_addr self addr) (\<lambda>_. Inr addr))"

text \<open>\<^verbatim>\<open>verify_in_correct_region\<close> only logs what it finds.\<close>

fun verify_in_correct_region :: "nat \<Rightarrow> MemoryRegion list \<Rightarrow> MemoryRegion option" where
  "verify_in_correct_region addr [] = None"
| "verify_in_correct_region addr (region # regions) =
     (if addr \<ge> r_start region \<and> addr \<le> r_end region then Some region
      else verify_in_correct_region addr regions)"

definition local_apic_from_addr ::
  "x86_64 \<Rightarrow> 'm mapper_ops \<Rightarrow> 'd machine \<Rightarrow> nat \<Rightarrow> 'd \<Rightarrow> 'm kernel_memory \<Rightarrow>
   (LocalApic \<times> 'd \<times> 'm kernel_memory) outcome" where
  "local_apic_from_addr X M D addr d km =
     (let d = set_local_apic_base D addr d
      in bindR (map_physical_region X M km addr 0x800) (\<lambda>(mapping, km).
         let this = \<lparr>la_mapping = mapping\<rparr>
         in bindR (offset_to_addr this 0) (\<lambda>_.
            bindR (get_mapped_end this) (\<lambda>_. Inr (this, d, km)))))"

definition local_apic_new ::
  "x86_64 \<Rightarrow> 'm mapper_ops \<Rightarrow> 'd machine \<Rightarrow> MadtEntry list option \<Rightarrow> MemoryRegion list \<Rightarrow> 'd \<Rightarrow>
   'm kernel_memory \<Rightarrow> (LocalApic \<times> 'd \<times> 'm kernel_memory) outcome" where
  "local_apic_new X M D madt regions d km =
     bindR (find_local_apic_base X D madt d) (\<lambda>addr.
       let region = verify_in_correct_region addr regions
       in local_apic_from_addr X M D addr d km)"

section \<open>Operations\<close>

definition lapic_read :: "'d machine \<Rightarrow> LocalApic \<Rightarrow> LocalApicRegister \<Rightarrow> 'd \<Rightarrow> (u32 \<times> 'd) outcome" where
  "lapic_read D self register d =
     bindR (assertR (is_readable register)) (\<lambda>_.
     bindR (register_to_addr self register) (\<lambda>addr. Inr (mmio_read D d addr)))"

definition lapic_write :: "'d machine \<Rightarrow> LocalApic \<Rightarrow> LocalApicRegister \<Rightarrow> u32 \<Rightarrow> 'd \<Rightarrow> 'd outcome" where
  "lapic_write D self register value d =
     bindR (assertR (is_writable register)) (\<lambda>_.
     bindR (register_to_addr self register) (\<lambda>addr. Inr (mmio_write D d addr value)))"

definition lapic_enable :: "'d machine \<Rightarrow> LocalApic \<Rightarrow> 'd \<Rightarrow> 'd outcome" where
  "lapic_enable D self d = (let vector = 0xFF in lapic_write D self SpuriousInterruptVector vector d)"

definition set_timer_divide :: "'d machine \<Rightarrow> LocalApic \<Rightarrow> u32 \<Rightarrow> 'd \<Rightarrow> 'd outcome" where
  "set_timer_divide D self dv d = lapic_write D self DivideConfiguration dv d"

definition set_timer_initial_counter :: "'d machine \<Rightarrow> LocalApic \<Rightarrow> u32 \<Rightarrow> 'd \<Rightarrow> 'd outcome" where
  "set_timer_initial_counter D self counter d = lapic_write D self InitialCount counter d"

definition stop_timer :: "'d machine \<Rightarrow> LocalApic \<Rightarrow> 'd \<Rightarrow> 'd outcome" where
  "stop_timer D self d = lapic_write D self LvtTimer (lvt_as_u32 new_masked_timer) d"

definition current_count :: "'d machine \<Rightarrow> LocalApic \<Rightarrow> 'd \<Rightarrow> (u32 \<times> 'd) outcome" where
  "current_count D self d = lapic_read D self CurrentCount d"

definition lapic_id :: "'d machine \<Rightarrow> LocalApic \<Rightarrow> 'd \<Rightarrow> (u32 \<times> 'd) outcome" where
  "lapic_id D self d = lapic_read D self Lapic_Id d"

definition lapic_version :: "'d machine \<Rightarrow> LocalApic \<Rightarrow> 'd \<Rightarrow> (u32 \<times> 'd) outcome" where
  "lapic_version D self d = lapic_read D self Lapic_Version d"

definition lapic_initialize :: "'d machine \<Rightarrow> LocalApic \<Rightarrow> 'd \<Rightarrow> 'd outcome" where
  "lapic_initialize D self d =
     bindR (lapic_enable D self d) (\<lambda>d.
     bindR (lapic_write D self LvtTimer (ucast PIC_1_OFFSET) d) (\<lambda>d.
     bindR (set_timer_initial_counter D self 0 d) (\<lambda>d.
     bindR (current_count D self d) (\<lambda>(count, d). Inr d))))"

definition do_test_stuff :: "'d machine \<Rightarrow> LocalApic \<Rightarrow> 'd \<Rightarrow> 'd outcome" where
  "do_test_stuff D self d =
     bindR (lapic_read D self LvtTimer d) (\<lambda>(_, d).
     bindR (lapic_read D self LvtLint0 d) (\<lambda>(_, d).
     bindR (lapic_read D self LvtLint1 d) (\<lambda>(_, d). Inr d)))"

section \<open>The encoding of the local vector table\<close>

lemma value_fits [simp]:
  "fits 3 (vdm_value m)" "fits (Suc 0) (vds_value s)" "fits (Suc 0) (vtm_value t)" "fits 2 (timer_mode_value u)"
proof -
  show "fits 3 (vdm_value m)" by (cases m) (simp_all add: fits_def)
  show "fits (Suc 0) (vds_value s)" by (cases s) (simp_all add: fits_def)
  show "fits (Suc 0) (vtm_value t)" by (cases t) (simp_all add: fits_def)
  show "fits 2 (timer_mode_value u)" by (cases u) (simp_all add: fits_def)
qed

lemma value_inj:
  "vdm_value m = vdm_value m' \<longleftrightarrow> m = m'" "vds_value s = vds_value s' \<longleftrightarrow> s = s'"
  "vtm_value t = vtm_value t' \<longleftrightarrow> t = t'" "timer_mode_value u = timer_mode_value u' \<longleftrightarrow> u = u'"
proof -
  show "vdm_value m = vdm_value m' \<longleftrightarrow> m = m'" by (cases m; cases m') simp_all
  show "vds_value s = vds_value s' \<longleftrightarrow> s = s'" by (cases s; cases s') simp_all
  show "vtm_value t = vtm_value t' \<longleftrightarrow> t = t'" by (cases t; cases t') simp_all
  show "timer_mode_value u = timer_mode_value u' \<longleftrightarrow> u = u'" by (cases u; cases u') simp_all
qed

lemma and_mask_fits: "fits n w \<Longrightarrow> w AND mask n = w"
  by (simp add: fits_def take_bit_eq_mask)

text \<open>The masks of \<^verbatim>\<open>as_u32\<close> remove nothing.\<close>

lemma lvt_as_u32_eq:
  "lvt_as_u32 r = ucast (lvt_vector r) OR push_bit 8 (vdm_value (lvt_delivery_mode r))
     OR push_bit 12 (vds_value (lvt_delivery_status r)) OR push_bit 13 (of_bool (is_low_triggered r))
     OR push_bit 14 (of_bool (is_remote_irr r)) OR push_bit 15 (vtm_value (lvt_trigger_mode r))
     OR push_bit 16 (of_bool (is_masked r)) OR push_bit 17 (timer_mode_value (timer_mode r))"
proof -
  have m: "(0xFF :: u32) = mask 8" "(7 :: u32) = mask 3" "(3 :: u32) = mask 2"
    by (simp_all add: mask_eq_exp_minus_1)
  have "ucast (lvt_vector r) AND (0xFF :: u32) = ucast (lvt_vector r)"
    unfolding m(1) by (rule and_mask_fits) simp
  moreover have "vdm_value (lvt_delivery_mode r) AND 7 = vdm_value (lvt_delivery_mode r)"
    unfolding m(2) by (rule and_mask_fits) simp
  moreover have "vds_value (lvt_delivery_status r) AND 1 = vds_value (lvt_delivery_status r)"
    by (cases "lvt_delivery_status r") simp_all
  moreover have "vtm_value (lvt_trigger_mode r) AND 1 = vtm_value (lvt_trigger_mode r)"
    by (cases "lvt_trigger_mode r") simp_all
  moreover have "timer_mode_value (timer_mode r) AND 3 = timer_mode_value (timer_mode r)"
    unfolding m(3) by (rule and_mask_fits) simp
  ultimately show ?thesis by (simp add: lvt_as_u32_def or.assoc)
qed

text \<open>
  C39: The local vector table encoding is faithful: each part of the entry is in its own field of the
  register, the reserved bits are zero, and two entries with the same register value are equal.
\<close>

theorem lvt_as_u32_layout:
  "field 0 8 (lvt_as_u32 r) = ucast (lvt_vector r) \<and>
   field 8 3 (lvt_as_u32 r) = vdm_value (lvt_delivery_mode r) \<and>
   field 11 1 (lvt_as_u32 r) = 0 \<and>
   field 12 1 (lvt_as_u32 r) = vds_value (lvt_delivery_status r) \<and>
   field 13 1 (lvt_as_u32 r) = of_bool (is_low_triggered r) \<and>
   field 14 1 (lvt_as_u32 r) = of_bool (is_remote_irr r) \<and>
   field 15 1 (lvt_as_u32 r) = vtm_value (lvt_trigger_mode r) \<and>
   field 16 1 (lvt_as_u32 r) = of_bool (is_masked r) \<and>
   field 17 2 (lvt_as_u32 r) = timer_mode_value (timer_mode r) \<and>
   field 19 13 (lvt_as_u32 r) = 0 \<and>
   (lvt_as_u32 r = lvt_as_u32 (s :: LocalVectorTableRegister) \<longleftrightarrow> r = s)"
proof -
  have 1: "field 0 8 (lvt_as_u32 r) = ucast (lvt_vector r)"
    "field 8 3 (lvt_as_u32 r) = vdm_value (lvt_delivery_mode r)"
    "field 11 1 (lvt_as_u32 r) = 0"
    "field 12 1 (lvt_as_u32 r) = vds_value (lvt_delivery_status r)"
    "field 13 1 (lvt_as_u32 r) = of_bool (is_low_triggered r)"
    "field 14 1 (lvt_as_u32 r) = of_bool (is_remote_irr r)"
    "field 15 1 (lvt_as_u32 r) = vtm_value (lvt_trigger_mode r)"
    "field 16 1 (lvt_as_u32 r) = of_bool (is_masked r)"
    "field 17 2 (lvt_as_u32 r) = timer_mode_value (timer_mode r)"
    "field 19 13 (lvt_as_u32 r) = 0" for r :: LocalVectorTableRegister
    by (simp_all add: lvt_as_u32_eq read_field)
  have "r = s" if "lvt_as_u32 r = lvt_as_u32 s"
  proof (rule LocalVectorTableRegister.equality)
    have "(ucast (lvt_vector r) :: u32) = ucast (lvt_vector s)" using 1(1) [of r] 1(1) [of s] that by simp
    then show "lvt_vector r = lvt_vector s" by (simp add: ucast_up_inj)
    show "lvt_delivery_mode r = lvt_delivery_mode s" using 1(2) [of r] 1(2) [of s] that by (simp add: value_inj)
    show "lvt_delivery_status r = lvt_delivery_status s" using 1(4) [of r] 1(4) [of s] that by (simp add: value_inj)
    show "is_low_triggered r = is_low_triggered s" using 1(5) [of r] 1(5) [of s] that by (simp only: of_bool_eq_iff)
    show "is_remote_irr r = is_remote_irr s" using 1(6) [of r] 1(6) [of s] that by (simp only: of_bool_eq_iff)
    show "lvt_trigger_mode r = lvt_trigger_mode s" using 1(7) [of r] 1(7) [of s] that by (simp add: value_inj)
    show "is_masked r = is_masked s" using 1(8) [of r] 1(8) [of s] that by (simp only: of_bool_eq_iff)
    show "timer_mode r = timer_mode s" using 1(9) [of r] 1(9) [of s] that by (simp add: value_inj)
  qed simp
  with 1 show ?thesis by blast
qed

section \<open>Where the registers are\<close>

lemma register_offset_less: "register_offset r < 0x400"
  by (cases r) simp_all

lemma register_to_addr_eq:
  assumes "0x900 \<le> virtual_start (la_mapping apic)"
    and "virtual_start (la_mapping apic) + mapped_length (la_mapping apic) + 0x400 < 2 ^ 64"
    and "0x400 \<le> mapped_length (la_mapping apic)"
  shows "register_to_addr apic r = Inr (virtual_start (la_mapping apic) + register_offset r - 0x900)"
proof -
  obtain w where w: "virtual_start (la_mapping apic) = 0x900 + w" using le_Suc_ex [OF assms(1)] by blast
  show ?thesis
    using assms(2,3) register_offset_less [of r]
    by (simp add: w register_to_addr_def ensure_safe_addr_def get_mapped_end_def offset_to_addr_def usize_defs)
qed

lemma from_addr_ok:
  assumes "x86_docs X" and "mapper_docs M" and "region_ready M km m pa 0x800"
    and v_def: "v = page_addr (km_pages km)" and n_def: "n = page_span pa 0x800"
  obtains apic m' fa' where "local_apic_from_addr X M D pa d km = Inr (apic, set_local_apic_base D pa d,
      km\<lparr>km_mapper := Some m', km_frames := Some fa', km_pages := \<lparr>page_addr = v + 4096 * n\<rparr>\<rparr>)"
    and "virtual_start (la_mapping apic) = v + pa mod 4096" and "mapped_length (la_mapping apic) = 4096 * n"
    and "mapped M m' = map_range v n (pa - pa mod 4096) {PRESENT, WRITABLE, NO_CACHE} (mapped M m)"
    and "4096 \<le> v" and "4096 dvd v" and "0 < n" and "v + 4096 * (n + 1) < 2 ^ 47"
    and "\<forall>q. free_page M m' q \<longleftrightarrow> free_page M m q \<and> q \<notin> page_range v n"
    and "\<forall>fa. km_frames km = Some fa \<longrightarrow> frames_left fa \<le> frames_left fa' + 3 * n"
proof -
  let ?reg = "\<lparr>physical_start = pa, virtual_start = v + pa mod 4096, region_length = 0x800, mapped_length = 4096 * n\<rparr>"
  obtain m' fa' where r: "map_physical_region X M km pa 0x800 = Inr (?reg,
        km\<lparr>km_mapper := Some m', km_frames := Some fa', km_pages := \<lparr>page_addr = v + 4096 * n\<rparr>\<rparr>)"
    "mapped M m' = map_range v n (pa - pa mod 4096) {PRESENT, WRITABLE, NO_CACHE} (mapped M m)"
    "\<forall>q. free_page M m' q \<longleftrightarrow> free_page M m q \<and> q \<notin> page_range v n"
    "\<forall>fa. km_frames km = Some fa \<longrightarrow> frames_left fa \<le> frames_left fa' + 3 * n"
    using map_physical_region_ok [OF assms(1-3)] unfolding v_def n_def by blast
  have v: "0 < v" "4096 dvd v" "v + 4096 * (n + 1) < 2 ^ 47" "0 < n"
    using assms(3) page_span_props(1) [of "0x800" pa] by (simp_all add: region_ready_def v_def n_def Let_def)
  then have v': "4096 \<le> v" by (simp add: dvd_imp_le)
  define q where "q = pa mod 4096"
  have q: "q < 4096" by (simp add: q_def)
  obtain w where w: "v = 4096 + w" using le_Suc_ex [OF v'] by blast
  have "local_apic_from_addr X M D pa d km = Inr (\<lparr>la_mapping = ?reg\<rparr>, set_local_apic_base D pa d,
      km\<lparr>km_mapper := Some m', km_frames := Some fa', km_pages := \<lparr>page_addr = v + 4096 * n\<rparr>\<rparr>)"
    using v(3) q unfolding local_apic_from_addr_def r(1) q_def [symmetric] w
    by (simp add: offset_to_addr_def get_mapped_end_def usize_defs)
  from this _ _ r(2) v' v(2,4,3) r(3,4) show thesis by (rule that) simp_all
qed

text \<open>A mapping at a base with the low bits that \<^verbatim>\<open>offset_to_addr\<close> subtracts: every register access succeeds, below the end of the mapping.\<close>

lemma lapic_access_ok:
  assumes "virtual_start (la_mapping apic) = v + 0x900" and "mapped_length (la_mapping apic) = 4096 * n"
    and "0 < n" and "v + 4096 * (n + 1) < 2 ^ 47"
  shows "is_readable r \<Longrightarrow> lapic_read D apic r d = Inr (mmio_read D d (v + register_offset r))"
    and "is_writable r \<Longrightarrow> lapic_write D apic r x d = Inr (mmio_write D d (v + register_offset r) x)"
  using register_to_addr_eq [of apic r] assms by (simp_all add: lapic_read_def lapic_write_def)

text \<open>The accesses of the start-up code to the local APIC keep whatever accesses to its pages keep.\<close>

lemma lapic_setup_keeps:
  assumes apic: "virtual_start (la_mapping apic) = v + 0x900" "mapped_length (la_mapping apic) = 4096 * n"
      "0 < n" "v + 4096 * (n + 1) < 2 ^ 47"
    and keep: "\<And>d a x. a < v + 4096 \<Longrightarrow> f (mmio_write D d a x) = f d \<and> f (snd (mmio_read D d a)) = f d"
  shows "\<exists>d'. lapic_initialize D apic d = Inr d' \<and> f d' = f d"
    and "\<exists>d'. do_test_stuff D apic d = Inr d' \<and> f d' = f d"
    and "\<exists>x d'. lapic_id D apic d = Inr (x, d') \<and> f d' = f d"
    and "\<exists>x d'. lapic_version D apic d = Inr (x, d') \<and> f d' = f d"
proof -
  note acc = lapic_access_ok [OF apic]
  have k: "f (mmio_write D d (v + register_offset r) x) = f d" "f (snd (mmio_read D d (v + register_offset r))) = f d" for d r x
    using keep [of "v + register_offset r"] register_offset_less [of r] by simp_all
  note k' = k [of _ LvtTimer, simplified] k [of _ LvtLint0, simplified] k [of _ LvtLint1, simplified] k [of _ InitialCount, simplified]
    k [of _ CurrentCount, simplified] k [of _ SpuriousInterruptVector, simplified] k [of _ Lapic_Id, simplified] k [of _ Lapic_Version, simplified]
  show "\<exists>d'. lapic_initialize D apic d = Inr d' \<and> f d' = f d"
    by (simp add: lapic_initialize_def lapic_enable_def set_timer_initial_counter_def current_count_def acc
        is_writable_def is_readable_def case_prod_beta k')
  show "\<exists>d'. do_test_stuff D apic d = Inr d' \<and> f d' = f d"
    by (simp add: do_test_stuff_def acc is_readable_def case_prod_beta k')
  show "\<exists>x d'. lapic_id D apic d = Inr (x, d') \<and> f d' = f d" "\<exists>x d'. lapic_version D apic d = Inr (x, d') \<and> f d' = f d"
    using k'(14,16) by (auto simp: lapic_id_def lapic_version_def acc is_readable_def) (metis prod.collapse)+
qed

text \<open>
  C35: The register addresses of the local APIC are right only for a base with the value of the
  model-specific register on the boot processor, whose low bits are the flags \<open>0x900\<close>: the constant that
  \<^verbatim>\<open>offset_to_addr\<close> subtracts. For such a base each register access reaches the register's own physical
  address. For a page-aligned base, which an address override in the ACPI tables gives, every
  register address lies below the pages that were mapped.
\<close>

theorem lapic_register_address:
  assumes "x86_docs X" and "mapper_docs M" and "region_ready M km m pa 0x800"
  shows "\<exists>apic d' km' m'. local_apic_from_addr X M D pa d km = Inr (apic, d', km') \<and> km_mapper km' = Some m' \<and>
    (\<forall>r. \<exists>a. register_to_addr apic r = Inr a \<and>
      (pa mod 4096 = 0x900 \<longrightarrow> phys_byte M m' a = Some (pa - 0x900 + register_offset r)) \<and>
      (pa mod 4096 = 0 \<longrightarrow> a < page_addr (km_pages km)))"
proof -
  let ?v = "page_addr (km_pages km)" and ?n = "page_span pa 0x800"
  obtain apic m' fa' where r: "local_apic_from_addr X M D pa d km = Inr (apic, set_local_apic_base D pa d,
      km\<lparr>km_mapper := Some m', km_frames := Some fa', km_pages := \<lparr>page_addr = ?v + 4096 * ?n\<rparr>\<rparr>)"
    "virtual_start (la_mapping apic) = ?v + pa mod 4096" "mapped_length (la_mapping apic) = 4096 * ?n"
    "mapped M m' = map_range ?v ?n (pa - pa mod 4096) {PRESENT, WRITABLE, NO_CACHE} (mapped M m)"
    "4096 \<le> ?v" "4096 dvd ?v" "0 < ?n" "?v + 4096 * (?n + 1) < 2 ^ 47"
    by (rule from_addr_ok [OF assms refl refl]) (rule that)
  have a: "register_to_addr apic q = Inr (?v + pa mod 4096 + register_offset q - 0x900)" for q
  proof -
    define p where "p = pa mod 4096"
    have "p < 4096" by (simp add: p_def)
    then show ?thesis
      using register_to_addr_eq [of apic q] r(5,7,8) unfolding r(2,3) p_def [symmetric] by simp
  qed
  have b: "phys_byte M m' (?v + register_offset q) = Some (pa - pa mod 4096 + register_offset q)" for q
    by (rule map_range_byte [OF r(6,4)]) (use register_offset_less [of q] r(7) in auto)
  have ex: "\<exists>a. register_to_addr apic q = Inr a \<and>
      (pa mod 4096 = 0x900 \<longrightarrow> phys_byte M m' a = Some (pa - 0x900 + register_offset q)) \<and>
      (pa mod 4096 = 0 \<longrightarrow> a < ?v)" for q
  proof (intro exI conjI impI, rule a)
    show "phys_byte M m' (?v + pa mod 4096 + register_offset q - 0x900) = Some (pa - 0x900 + register_offset q)"
      if "pa mod 4096 = 0x900" using b [of q] that by simp
    show "?v + pa mod 4096 + register_offset q - 0x900 < ?v" if "pa mod 4096 = 0"
      using register_offset_less [of q] r(5) that by simp
  qed
  show ?thesis
    by (rule exI, rule exI, rule exI, rule exI [of _ m'], rule conjI, rule r(1)) (simp only: ex simp_thms, simp)
qed

text \<open>
  Initialising the local APIC does not enable it. For a controller whose spurious-vector register
  holds what was last written to it, the register has bit 8, the software enable flag, clear after
  \<^verbatim>\<open>initialize\<close>, and its vector is 255, not the one the kernel installs a handler for.
\<close>

theorem lapic_initialize_leaves_disabled:
  assumes "0x900 \<le> virtual_start (la_mapping apic)"
    and "virtual_start (la_mapping apic) + mapped_length (la_mapping apic) + 0x400 < 2 ^ 64"
    and "0x400 \<le> mapped_length (la_mapping apic)"
    and svr: "\<And>d a v. svr (mmio_write D d a v) =
      (if register_to_addr apic SpuriousInterruptVector = Inr a then v else svr d)"
    and "\<And>d a. svr (snd (mmio_read D d a)) = svr d"
  shows "\<exists>d'. lapic_initialize D apic d = Inr d' \<and> \<not> bit (svr d') 8 \<and> field 0 8 (svr d') = 0xFF"
proof -
  note addr = register_to_addr_eq [OF assms(1-3)]
  let ?a = "\<lambda>r. virtual_start (la_mapping apic) + register_offset r - 0x900"
  have w: "lapic_write D apic r v d = Inr (mmio_write D d (?a r) v)" if "is_writable r" for r v d
    using that by (simp add: lapic_write_def addr)
  let ?d = "mmio_write D (mmio_write D (mmio_write D d (?a SpuriousInterruptVector) 0xFF)
      (?a LvtTimer) (ucast PIC_1_OFFSET)) (?a InitialCount) 0"
  have "lapic_initialize D apic d = Inr (snd (mmio_read D ?d (?a CurrentCount)))"
    by (simp add: lapic_initialize_def lapic_enable_def set_timer_initial_counter_def current_count_def
        lapic_read_def addr w is_writable_def is_readable_def split: prod.split)
  moreover have "svr (snd (mmio_read D ?d (?a CurrentCount))) = 0xFF"
    using le_Suc_ex [OF assms(1)] by (auto simp: assms(5) svr addr)
  moreover have "\<not> bit (0xFF :: u32) 8" "field 0 8 (0xFF :: u32) = 0xFF"
    by (simp_all add: field_def)
  ultimately show ?thesis by simp
qed

section \<open>Instances\<close>

definition sample_apic :: LocalApic where
  "sample_apic = \<lparr>la_mapping = \<lparr>physical_start = 0xFEE00900, virtual_start = 0x1000000900,
     region_length = 0x800, mapped_length = 0x2000\<rparr>\<rparr>"

lemma lapic_ready: "region_ready map_mapper mapped_memory Map.empty 0xFEE00900 0x800"
  by (simp add: region_ready_def mapped_memory_def no_memory_def map_mapper_def page_allocator_new_def
      x86_std_def page_span_def aligned_above_def frames_left_def frame_addresses_def small_map_def
      step_by_4096_def frame_allocator_init_def Let_def)

theorem lapic_register_address_witness:
  "\<exists>apic d' km' m' a. local_apic_from_addr x86_std map_mapper recording 0xFEE00900 idle_recorder mapped_memory =
      Inr (apic, d', km') \<and> km_mapper km' = Some m' \<and> register_to_addr apic LvtTimer = Inr a \<and>
    phys_byte map_mapper m' a = Some 0xFEE00320"
proof -
  obtain apic d' km' m' where r: "local_apic_from_addr x86_std map_mapper recording 0xFEE00900 idle_recorder mapped_memory =
      Inr (apic, d', km')" "km_mapper km' = Some m'"
    "\<And>r. \<exists>a. register_to_addr apic r = Inr a \<and>
      (0xFEE00900 mod 4096 = (0x900 :: nat) \<longrightarrow> phys_byte map_mapper m' a = Some (0xFEE00900 - 0x900 + register_offset r))"
    using lapic_register_address [OF x86_std_docs map_mapper_docs lapic_ready, of recording idle_recorder] by blast
  from r(3) [of LvtTimer] r(1,2) show ?thesis by auto
qed

theorem lapic_initialize_leaves_disabled_witness:
  "\<exists>d'. lapic_initialize recording sample_apic idle_recorder = Inr d' \<and> \<not> bit (rec_regs d' 0x10000000F0) 8"
proof -
  have "register_to_addr sample_apic SpuriousInterruptVector = Inr a \<longleftrightarrow> a = 0x10000000F0" for a
    by (auto simp: register_to_addr_def ensure_safe_addr_def get_mapped_end_def offset_to_addr_def usize_defs sample_apic_def)
  then show ?thesis
    using lapic_initialize_leaves_disabled [where apic = sample_apic and svr = "\<lambda>d. rec_regs d 0x10000000F0"
        and D = recording and d = idle_recorder]
    by (auto simp: recording_def sample_apic_def)
qed

end
