(* ===== verification/Io_Apic.thy ===== *)
theory Io_Apic
  imports Local_Apic
begin

text \<open>
  \<^verbatim>\<open>kernel/src/interrupts/apic/io.rs\<close> and \<^verbatim>\<open>apic/mod.rs\<close>: the interrupt controller that routes device
  interrupts to processors. Its registers are behind a pair of memory-mapped words, one that selects
  a register and one that accesses it; what such a device does is stated in \<open>ioapic_docs\<close>.
\<close>

section \<open>Redirection entries\<close>

datatype InterruptIndex = Idx_Timer | Idx_Keyboard | SpuriousIoApic | SpuriousLocalApic

fun index_as_u8 :: "InterruptIndex \<Rightarrow> u8" where
  "index_as_u8 Idx_Timer = PIC_1_OFFSET"
| "index_as_u8 Idx_Keyboard = PIC_1_OFFSET + 1"
| "index_as_u8 SpuriousIoApic = 39"
| "index_as_u8 SpuriousLocalApic = 40"

datatype DeliveryMode = DM_Fixed | LowestPriority | SystemManaged | DM_NMI | DM_INIT | DM_External
datatype DeliveryStatus = DS_Idle | SentPending
datatype DestinationMode = Physical | Logical
datatype InterruptPolarity = HighActive | LowActive
datatype TriggerMode = EdgeSensitive | LevelSensitive
datatype InterruptMask = Unmasked | Masked
datatype DestinationField = PhysicalApicId u8 | LogicalSetOfProcessors u8

fun dm_value :: "DeliveryMode \<Rightarrow> u32" where
  "dm_value DM_Fixed = 0" | "dm_value LowestPriority = 1" | "dm_value SystemManaged = 2"
| "dm_value DM_NMI = 4" | "dm_value DM_INIT = 5" | "dm_value DM_External = 7"

definition ds_value :: "DeliveryStatus \<Rightarrow> u32" where "ds_value s = of_bool (s = SentPending)"
definition dest_value :: "DestinationMode \<Rightarrow> u32" where "dest_value m = of_bool (m = Logical)"
definition pol_value :: "InterruptPolarity \<Rightarrow> u32" where "pol_value p = of_bool (p = LowActive)"
definition trig_value :: "TriggerMode \<Rightarrow> u32" where "trig_value t = of_bool (t = LevelSensitive)"
definition mask_value :: "InterruptMask \<Rightarrow> u32" where "mask_value m = of_bool (m = Masked)"

text \<open>
  \<^verbatim>\<open>mem::transmute\<close> of a number to an enumeration: a number that is no discriminant is undefined
  behaviour. The one-bit enumerations have both discriminants.
\<close>

definition transmute_dm :: "u64 \<Rightarrow> DeliveryMode outcome" where
  "transmute_dm v =
     (if v = 0 then Inr DM_Fixed else if v = 1 then Inr LowestPriority else if v = 2 then Inr SystemManaged
      else if v = 4 then Inr DM_NMI else if v = 5 then Inr DM_INIT else if v = 7 then Inr DM_External
      else Inl Undefined_Behaviour)"

definition destination_new :: "DestinationMode \<Rightarrow> u8 \<Rightarrow> DestinationField" where
  "destination_new mode value = (case mode of
     Physical \<Rightarrow> PhysicalApicId (value AND 0xF)
   | Logical \<Rightarrow> LogicalSetOfProcessors value)"

fun destination_as_u8 :: "DestinationField \<Rightarrow> u8" where
  "destination_as_u8 (PhysicalApicId val) = val"
| "destination_as_u8 (LogicalSetOfProcessors val) = val"

record IOApicRedirectionEntry =
  ent_vector :: u8
  ent_delivery_mode :: DeliveryMode
  ent_destination_mode :: DestinationMode
  ent_delivery_status :: DeliveryStatus
  ent_polarity :: InterruptPolarity
  ent_remote_irr :: bool
  ent_trigger_mode :: TriggerMode
  ent_mask :: InterruptMask
  ent_destination :: DestinationField

text \<open>The decoding in \<^verbatim>\<open>read_entry\<close> and the two words that \<^verbatim>\<open>write_entry\<close> writes.\<close>

definition decode_entry :: "u64 \<Rightarrow> IOApicRedirectionEntry outcome" where
  "decode_entry value =
     (let destination_mode = (if drop_bit 11 value AND 1 = 0 then Physical else Logical);
          destination = destination_new destination_mode (ucast (drop_bit 56 value AND 0xFF))
      in bindR (transmute_dm (drop_bit 8 value AND 7)) (\<lambda>dm.
         Inr \<lparr>ent_vector = ucast (value AND 0xFF),
              ent_delivery_mode = dm,
              ent_destination_mode = destination_mode,
              ent_delivery_status = (if drop_bit 12 value AND 1 = 0 then DS_Idle else SentPending),
              ent_polarity = (if drop_bit 13 value AND 1 = 0 then HighActive else LowActive),
              ent_remote_irr = (drop_bit 14 value AND 1 \<noteq> 0),
              ent_trigger_mode = (if drop_bit 15 value AND 1 = 0 then EdgeSensitive else LevelSensitive),
              ent_mask = (if drop_bit 16 value AND 1 = 0 then Unmasked else Masked),
              ent_destination = destination\<rparr>))"

definition encode_lo :: "IOApicRedirectionEntry \<Rightarrow> u32" where
  "encode_lo entry =
     ucast (ent_vector entry)
     OR push_bit 8 (dm_value (ent_delivery_mode entry))
     OR push_bit 11 (dest_value (ent_destination_mode entry))
     OR push_bit 12 (ds_value (ent_delivery_status entry))
     OR push_bit 13 (pol_value (ent_polarity entry))
     OR push_bit 14 (of_bool (ent_remote_irr entry))
     OR push_bit 15 (trig_value (ent_trigger_mode entry))
     OR push_bit 16 (mask_value (ent_mask entry))"

definition encode_hi :: "IOApicRedirectionEntry \<Rightarrow> u32" where
  "encode_hi entry = push_bit 24 (ucast (destination_as_u8 (ent_destination entry)))"

section \<open>Registers\<close>

datatype IOApicRegister = Io_Id | Io_Version | ArbitrationId | RedirectionEntry u8 | ManuallySpecified u8

fun reg_as_u8 :: "IOApicRegister \<Rightarrow> u8 outcome" where
  "reg_as_u8 Io_Id = Inr 0"
| "reg_as_u8 Io_Version = Inr 1"
| "reg_as_u8 ArbitrationId = Inr 2"
| "reg_as_u8 (RedirectionEntry ent) = bindR (mul_u8 ent 2) (\<lambda>x. add_u8 0x10 x)"
| "reg_as_u8 (ManuallySpecified ent) = Inr ent"

definition second_part_redir :: "IOApicRegister \<Rightarrow> IOApicRegister outcome" where
  "second_part_redir self =
     bindR (reg_as_u8 self) (\<lambda>r. bindR (add_u8 r 1) (\<lambda>s. Inr (ManuallySpecified s)))"

record IOApic =
  io_mapping :: PhysicalMapping
  redirection_entry_count :: u8
  end_of_interrupt_addr :: nat

text \<open>The mapping is an array of 256 words of four bytes.\<close>

definition io_offset_to_addr :: "IOApic \<Rightarrow> nat \<Rightarrow> nat outcome" where
  "io_offset_to_addr self offset =
     (if offset < 256 then Inr (virtual_start (io_mapping self) + 4 * offset) else Inl Index_Out_Of_Bounds)"

definition select_register :: "'d machine \<Rightarrow> IOApic \<Rightarrow> IOApicRegister \<Rightarrow> 'd \<Rightarrow> 'd outcome" where
  "select_register D self reg d =
     bindR (io_offset_to_addr self 0) (\<lambda>addr.
     bindR (reg_as_u8 reg) (\<lambda>r. Inr (mmio_write D d addr (ucast r))))"

definition io_read_u32 :: "'d machine \<Rightarrow> IOApic \<Rightarrow> IOApicRegister \<Rightarrow> 'd \<Rightarrow> (u32 \<times> 'd) outcome" where
  "io_read_u32 D self reg d =
     bindR (select_register D self reg d) (\<lambda>d.
     bindR (io_offset_to_addr self 4) (\<lambda>addr. Inr (mmio_read D d addr)))"

definition io_write_u32 :: "'d machine \<Rightarrow> IOApic \<Rightarrow> IOApicRegister \<Rightarrow> u32 \<Rightarrow> 'd \<Rightarrow> 'd outcome" where
  "io_write_u32 D self reg value d =
     bindR (select_register D self reg d) (\<lambda>d.
     bindR (io_offset_to_addr self 4) (\<lambda>addr. Inr (mmio_write D d addr value)))"

definition is_redirection :: "IOApicRegister \<Rightarrow> bool" where
  "is_redirection reg = (case reg of RedirectionEntry _ \<Rightarrow> True | _ \<Rightarrow> False)"

definition io_read_u64 :: "'d machine \<Rightarrow> IOApic \<Rightarrow> IOApicRegister \<Rightarrow> 'd \<Rightarrow> (u64 \<times> 'd) outcome" where
  "io_read_u64 D self reg d =
     bindR (assertR (is_redirection reg)) (\<lambda>_.
     bindR (io_read_u32 D self reg d) (\<lambda>(lo, d).
     bindR (second_part_redir reg) (\<lambda>reg2.
     bindR (io_read_u32 D self reg2 d) (\<lambda>(hi, d).
       Inr (ucast lo OR push_bit 32 (ucast hi), d)))))"

definition io_write_u64 :: "'d machine \<Rightarrow> IOApic \<Rightarrow> IOApicRegister \<Rightarrow> u64 \<Rightarrow> 'd \<Rightarrow> 'd outcome" where
  "io_write_u64 D self reg value d =
     bindR (assertR (is_redirection reg)) (\<lambda>_.
     let lo = ucast (value AND 0xFFFFFFFF); hi = ucast (drop_bit 32 value AND 0xFFFFFFFF)
     in bindR (io_write_u32 D self reg lo d) (\<lambda>d.
        bindR (second_part_redir reg) (\<lambda>reg2. io_write_u32 D self reg2 hi d)))"

definition read_entry :: "'d machine \<Rightarrow> IOApic \<Rightarrow> u8 \<Rightarrow> 'd \<Rightarrow> (IOApicRedirectionEntry \<times> 'd) outcome" where
  "read_entry D self index d =
     bindR (assertR (index < redirection_entry_count self)) (\<lambda>_.
     bindR (io_read_u64 D self (RedirectionEntry index) d) (\<lambda>(value, d).
     bindR (decode_entry value) (\<lambda>e. Inr (e, d))))"

definition write_entry :: "'d machine \<Rightarrow> IOApic \<Rightarrow> u8 \<Rightarrow> IOApicRedirectionEntry \<Rightarrow> 'd \<Rightarrow> 'd outcome" where
  "write_entry D self index entry d =
     bindR (assertR (index < redirection_entry_count self)) (\<lambda>_.
     bindR (io_write_u32 D self (RedirectionEntry index) (encode_lo entry) d) (\<lambda>d.
     bindR (second_part_redir (RedirectionEntry index)) (\<lambda>reg2.
       io_write_u32 D self reg2 (encode_hi entry) d)))"

definition read_version :: "'d machine \<Rightarrow> IOApic \<Rightarrow> 'd \<Rightarrow> (u8 \<times> 'd) outcome" where
  "read_version D self d = bindR (io_read_u32 D self Io_Version d) (\<lambda>(v, d). Inr (ucast (v AND 0xFF), d))"

definition read_redirection_entry_count :: "'d machine \<Rightarrow> IOApic \<Rightarrow> 'd \<Rightarrow> (u8 \<times> 'd) outcome" where
  "read_redirection_entry_count D self d =
     bindR (io_read_u32 D self Io_Version d) (\<lambda>(v, d). Inr (ucast (drop_bit 16 v AND 0xFF), d))"

section \<open>Initialisation\<close>

definition ioapic_map :: "'d machine \<Rightarrow> IOApic \<Rightarrow> u8 \<Rightarrow> InterruptIndex \<Rightarrow> 'd \<Rightarrow> 'd outcome" where
  "ioapic_map D self index vector d =
     bindR (read_entry D self index d) (\<lambda>(entry, d).
       write_entry D self index (entry\<lparr>ent_mask := Unmasked, ent_vector := index_as_u8 vector\<rparr>) d)"

definition map_to_spurious_vector :: "'d machine \<Rightarrow> IOApic \<Rightarrow> u8 \<Rightarrow> 'd \<Rightarrow> 'd outcome" where
  "map_to_spurious_vector D self index d =
     bindR (read_entry D self index d) (\<lambda>(entry, d).
       write_entry D self index
         (entry\<lparr>ent_vector := index_as_u8 SpuriousIoApic, ent_mask := Unmasked\<rparr>) d)"

definition map_all_to_spurious_vectors :: "'d machine \<Rightarrow> IOApic \<Rightarrow> 'd \<Rightarrow> 'd outcome" where
  "map_all_to_spurious_vectors D self d =
     forR (\<lambda>index. map_to_spurious_vector D self (word_of_nat index))
       [0..<unat (redirection_entry_count self)] d"

definition ioapic_initialize :: "'d machine \<Rightarrow> IOApic \<Rightarrow> 'd \<Rightarrow> 'd outcome" where
  "ioapic_initialize D self d =
     bindR (read_version D self d) (\<lambda>(_, d).
     bindR (ioapic_map D self 2 SpuriousIoApic d) (\<lambda>d.
     bindR (map_all_to_spurious_vectors D self d) (\<lambda>d.
       forR (\<lambda>entry d. bindR (read_entry D self (word_of_nat entry) d) (\<lambda>(_, d). Inr d))
         [0..<unat (redirection_entry_count self)] d)))"

fun find_io_apic :: "MadtEntry list \<Rightarrow> u32 option" where
  "find_io_apic [] = None"
| "find_io_apic (IoApicEntry a # es) = Some a"
| "find_io_apic (e # es) = find_io_apic es"

definition find_io_apic_base :: "x86_64 \<Rightarrow> MadtEntry list option \<Rightarrow> nat option outcome" where
  "find_io_apic_base X madt =
     (case (case madt of None \<Rightarrow> None | Some es \<Rightarrow> find_io_apic es) of
        Some a \<Rightarrow> bindR (phys_new X (unat a)) (\<lambda>p. Inr (Some p))
      | None \<Rightarrow> Inr None)"

definition io_apic_from_addr ::
  "x86_64 \<Rightarrow> 'm mapper_ops \<Rightarrow> 'd machine \<Rightarrow> nat \<Rightarrow> nat \<Rightarrow> 'd \<Rightarrow> 'm kernel_memory \<Rightarrow>
   (IOApic \<times> 'd \<times> 'm kernel_memory) outcome" where
  "io_apic_from_addr X M D addr eoi_addr d km =
     bindR (map_physical_region X M km addr 0x400) (\<lambda>(mapping, km).
     bindR (assertR (addr mod 4096 = 0)) (\<lambda>_.
     let this = \<lparr>io_mapping = mapping, redirection_entry_count = 0, end_of_interrupt_addr = eoi_addr\<rparr>
     in bindR (read_redirection_entry_count D this d) (\<lambda>(n, d).
        bindR (add_u8 n 1) (\<lambda>count.
        bindR (assertR (count \<noteq> 0)) (\<lambda>_.
          Inr (this\<lparr>redirection_entry_count := count\<rparr>, d, km))))))"

definition io_apic_new ::
  "x86_64 \<Rightarrow> 'm mapper_ops \<Rightarrow> 'd machine \<Rightarrow> MadtEntry list option \<Rightarrow> LocalApic \<Rightarrow> 'd \<Rightarrow> 'm kernel_memory \<Rightarrow>
   (IOApic \<times> 'd \<times> 'm kernel_memory) outcome" where
  "io_apic_new X M D madt local d km =
     bindR (offset_to_addr local 0xB0) (\<lambda>eoi_addr.
     bindR (find_io_apic_base X madt) (\<lambda>a.
     bindR (unwrapR ''NO IOAPIC FOUND :('' a) (\<lambda>addr. io_apic_from_addr X M D addr eoi_addr d km)))"

section \<open>The published instance\<close>

record apic_state =
  io_instance :: "IOApic option"
  local_instance :: "LocalApic option"

definition io_publish :: "IOApic \<Rightarrow> apic_state \<Rightarrow> apic_state" where
  "io_publish self s = s\<lparr>io_instance := Some self\<rparr>"

definition local_publish :: "LocalApic \<Rightarrow> apic_state \<Rightarrow> apic_state" where
  "local_publish self s = s\<lparr>local_instance := Some self\<rparr>"

definition ioapic_with :: "(IOApic \<Rightarrow> 'd \<Rightarrow> 'd outcome) \<Rightarrow> apic_state \<Rightarrow> 'd \<Rightarrow> 'd outcome" where
  "ioapic_with f s d = (case io_instance s of None \<Rightarrow> Inr d | Some self \<Rightarrow> f self d)"

definition dump_debug_info :: "'d machine \<Rightarrow> apic_state \<Rightarrow> 'd \<Rightarrow> 'd outcome" where
  "dump_debug_info D s d =
     ioapic_with (\<lambda>this d. bindR (read_entry D this 2 d) (\<lambda>(entry, d). Inr d)) s d"

definition end_of_interrupt :: "'d machine \<Rightarrow> apic_state \<Rightarrow> 'd \<Rightarrow> 'd outcome" where
  "end_of_interrupt D s d =
     bindR (dump_debug_info D s d) (\<lambda>d.
     bindR (ioapic_with (\<lambda>this d. Inr (mmio_write D d (end_of_interrupt_addr this) 0)) s d) (\<lambda>d.
       dump_debug_info D s d))"

text \<open>
  \<^verbatim>\<open>apic::init\<close>. Its error type has no values, so its \<^verbatim>\<open>Result\<close> is always \<^verbatim>\<open>Ok\<close>; every failure is a
  panic.
\<close>

definition apic_init ::
  "x86_64 \<Rightarrow> 'm mapper_ops \<Rightarrow> 'd machine \<Rightarrow> MadtEntry list option \<Rightarrow> MemoryRegion list \<Rightarrow> 'd \<Rightarrow>
   'm kernel_memory \<Rightarrow> apic_state \<Rightarrow> ('d \<times> 'm kernel_memory \<times> apic_state) outcome" where
  "apic_init X M D madt regions d km s =
     bindR (local_apic_new X M D madt regions d km) (\<lambda>(local, d, km).
     bindR (lapic_initialize D local d) (\<lambda>d.
     bindR (do_test_stuff D local d) (\<lambda>d.
     bindR (lapic_id D local d) (\<lambda>(_, d).
     bindR (lapic_version D local d) (\<lambda>(_, d).
     bindR (io_apic_new X M D madt local d km) (\<lambda>(io, d, km).
     bindR (ioapic_initialize D io d) (\<lambda>d.
       Inr (d, km, local_publish local (io_publish io s)))))))))"

section \<open>Lemmas: encoding\<close>

lemma dm_value_fits [simp]: "fits 3 (dm_value m)"
  by (cases m) (simp_all add: fits_def)

lemma bit_value_fits [simp]:
  "fits (Suc 0) (ds_value s)" "fits (Suc 0) (dest_value m)" "fits (Suc 0) (pol_value p)"
  "fits (Suc 0) (trig_value t)" "fits (Suc 0) (mask_value k)"
  by (simp_all add: ds_value_def dest_value_def pol_value_def trig_value_def mask_value_def)

lemma transmute_dm_value: "transmute_dm (ucast (dm_value m)) = Inr m"
  by (cases m) (simp_all add: transmute_dm_def)

lemma encode_lo_fields:
  "field 0 8 (encode_lo e) = ucast (ent_vector e)"
  "field 8 3 (encode_lo e) = dm_value (ent_delivery_mode e)"
  "field 11 1 (encode_lo e) = dest_value (ent_destination_mode e)"
  "field 12 1 (encode_lo e) = ds_value (ent_delivery_status e)"
  "field 13 1 (encode_lo e) = pol_value (ent_polarity e)"
  "field 14 1 (encode_lo e) = of_bool (ent_remote_irr e)"
  "field 15 1 (encode_lo e) = trig_value (ent_trigger_mode e)"
  "field 16 1 (encode_lo e) = mask_value (ent_mask e)"
  by (simp_all add: encode_lo_def read_field)

lemma encode_hi_field: "field 24 8 (encode_hi e) = ucast (destination_as_u8 (ent_destination e))"
  by (simp add: encode_hi_def field_same)

text \<open>The fields of the 64-bit value that \<^verbatim>\<open>read_entry\<close> decodes are those of its two halves.\<close>

lemma entry_value_fields:
  fixes lo hi :: u32
  defines "v \<equiv> ucast lo OR push_bit 32 (ucast hi) :: u64"
  shows "k + n \<le> 32 \<Longrightarrow> drop_bit k v AND mask n = ucast (field k n lo)"
    and "k + n \<le> 32 \<Longrightarrow> drop_bit (32 + k) v AND mask n = ucast (field k n hi)"
  unfolding v_def by (rule bit_word_eqI; auto simp: bit_simps dest: bit_imp_le_length)+

lemma decode_entry_eq:
  fixes lo hi :: u32
  shows "decode_entry (ucast lo OR push_bit 32 (ucast hi)) =
     bindR (transmute_dm (ucast (field 8 3 lo))) (\<lambda>dm.
       Inr \<lparr>ent_vector = ucast (field 0 8 lo),
            ent_delivery_mode = dm,
            ent_destination_mode = (if bit lo 11 then Logical else Physical),
            ent_delivery_status = (if bit lo 12 then SentPending else DS_Idle),
            ent_polarity = (if bit lo 13 then LowActive else HighActive),
            ent_remote_irr = bit lo 14,
            ent_trigger_mode = (if bit lo 15 then LevelSensitive else EdgeSensitive),
            ent_mask = (if bit lo 16 then Masked else Unmasked),
            ent_destination = destination_new (if bit lo 11 then Logical else Physical)
              (ucast (field 24 8 hi))\<rparr>)"
proof -
  define v :: u64 where "v = ucast lo OR push_bit 32 (ucast hi)"
  have "drop_bit k v AND 1 = of_bool (bit lo k)" if "k < 32" for k
    unfolding v_def using that by (intro bit_word_eqI) (auto simp: bit_simps)
  then have one: "drop_bit k v AND 1 = 0 \<longleftrightarrow> \<not> bit lo k" if "k < 32" for k
    using that by (simp del: bit_and_iff)
  have fields: "drop_bit 8 v AND 7 = ucast (field 8 3 lo)" "v AND 0xFF = ucast (field 0 8 lo)"
    "drop_bit 56 v AND 0xFF = ucast (field 24 8 hi)"
    using entry_value_fields(1) [of 8 3 lo hi] entry_value_fields(1) [of 0 8 lo hi]
      entry_value_fields(2) [of 24 8 lo hi]
    by (simp_all add: v_def [symmetric] mask_eq_exp_minus_1 del: drop_bit_or)
  have cast: "ucast (ucast (w :: u32) :: u64) = (ucast w :: u8)" for w
    by (rule bit_word_eqI) (auto simp: bit_simps)
  show ?thesis
    unfolding v_def [symmetric] decode_entry_def fields cast by (simp add: one if_not_P Let_def cong: if_cong)
qed

lemma field_one: "field k 1 w = of_bool (bit w k)"
  by (rule bit_word_eqI) (auto simp: bit_simps)

lemma bit_iff_field: "bit w k \<longleftrightarrow> field k 1 w \<noteq> 0"
  by (simp add: field_one del: One_nat_def)

text \<open>An entry that the program builds: its destination is what \<^verbatim>\<open>DestinationField::new\<close> makes for its mode.\<close>

definition entry_ok :: "IOApicRedirectionEntry \<Rightarrow> bool" where
  "entry_ok e \<longleftrightarrow>
     destination_new (ent_destination_mode e) (destination_as_u8 (ent_destination e)) = ent_destination e"

lemma encode_lo_bits:
  "bit (encode_lo e) 11 \<longleftrightarrow> ent_destination_mode e = Logical"
  "bit (encode_lo e) 12 \<longleftrightarrow> ent_delivery_status e = SentPending"
  "bit (encode_lo e) 13 \<longleftrightarrow> ent_polarity e = LowActive"
  "bit (encode_lo e) 14 \<longleftrightarrow> ent_remote_irr e"
  "bit (encode_lo e) 15 \<longleftrightarrow> ent_trigger_mode e = LevelSensitive"
  "bit (encode_lo e) 16 \<longleftrightarrow> ent_mask e = Masked"
  unfolding bit_iff_field encode_lo_fields
  by (simp_all add: dest_value_def ds_value_def pol_value_def trig_value_def mask_value_def)

lemma two_valued:
  "(if m = Logical then Logical else Physical) = m"
  "(if s = SentPending then SentPending else DS_Idle) = s"
  "(if p = LowActive then LowActive else HighActive) = p"
  "(if t = LevelSensitive then LevelSensitive else EdgeSensitive) = t"
  "(if k = Masked then Masked else Unmasked) = k"
  subgoal by (cases m) simp_all
  subgoal by (cases s) simp_all
  subgoal by (cases p) simp_all
  subgoal by (cases t) simp_all
  subgoal by (cases k) simp_all
  done

text \<open>
  A redirection entry survives the two register words: reading back what \<^verbatim>\<open>write_entry\<close> writes
  gives the entry.
\<close>

theorem redirection_entry_roundtrip:
  assumes "entry_ok e"
  shows "decode_entry (ucast (encode_lo e) OR push_bit 32 (ucast (encode_hi e))) = Inr e"
proof -
  have cast: "ucast (ucast (v :: u8) :: u32) = v" for v by (rule bit_word_eqI) (simp add: bit_simps)
  show ?thesis
    unfolding decode_entry_eq encode_lo_fields encode_lo_bits encode_hi_field transmute_dm_value cast
    using assms by (simp add: entry_ok_def two_valued)
qed

section \<open>Lemmas: register accesses\<close>

text \<open>The register numbers of the two halves of entry \<open>i\<close>.\<close>

definition redir_lo :: "nat \<Rightarrow> u8" where "redir_lo i = word_of_nat (16 + 2 * i)"
definition redir_hi :: "nat \<Rightarrow> u8" where "redir_hi i = word_of_nat (17 + 2 * i)"

lemma unat_redir: "i < 120 \<Longrightarrow> unat (redir_lo i) = 16 + 2 * i" "i < 120 \<Longrightarrow> unat (redir_hi i) = 17 + 2 * i"
  by (simp_all add: redir_lo_def redir_hi_def unat_of_nat del: of_nat_add of_nat_mult)

lemma redir_neq [simp]:
  assumes "i < 120" and "j < 120"
  shows "redir_lo i = redir_lo j \<longleftrightarrow> i = j" and "redir_hi i = redir_hi j \<longleftrightarrow> i = j"
    and "redir_lo i \<noteq> redir_hi j" and "redir_hi i \<noteq> redir_lo j"
  unfolding word_unat_eq_iff unat_redir [OF assms(1)] unat_redir [OF assms(2)] by presburger+

lemma redir_range [simp]:
  assumes "i < 120"
  shows "16 \<le> redir_lo i" and "16 \<le> redir_hi i" and "even (redir_lo i)" and "odd (redir_hi i)"
proof -
  show "16 \<le> redir_lo i" "16 \<le> redir_hi i"
    unfolding word_le_nat_alt unat_redir [OF assms] by simp_all
  show "even (redir_lo i)" "odd (redir_hi i)"
    using unat_redir [OF assms] by (simp_all add: redir_lo_def redir_hi_def)
qed

lemma reg_as_u8_entry:
  "i < 120 \<Longrightarrow> reg_as_u8 (RedirectionEntry (word_of_nat i)) = Inr (redir_lo i)"
  "i < 120 \<Longrightarrow> second_part_redir (RedirectionEntry (word_of_nat i)) = Inr (ManuallySpecified (redir_hi i))"
  by (simp_all add: second_part_redir_def redir_lo_def redir_hi_def mul_u8_def add_u8_def word_unat_eq_iff
    unat_of_nat unat_word_ariths)

section \<open>The device\<close>

text \<open>
  What the data sheet of the I/O APIC says of the two words at \<open>b\<close> and \<open>b + 16\<close>. \<open>sel\<close> is the
  register that is selected and \<open>ent\<close> the part of the redirection registers that only software
  changes: in the low half of an entry everything up to the mask bit except the read-only delivery
  status and remote IRR bits, in the high half the destination. Bits outside are whatever the device
  says.
\<close>

definition kept :: "u8 \<Rightarrow> u32" where
  "kept r = (if even r then mask 12 OR push_bit 13 1 OR push_bit 15 (mask 2) else push_bit 24 (mask 8))"

definition ioapic_docs :: "'d machine \<Rightarrow> nat \<Rightarrow> ('d \<Rightarrow> u8) \<Rightarrow> ('d \<Rightarrow> u8 \<Rightarrow> u32) \<Rightarrow> bool" where
  "ioapic_docs D b sel ent \<longleftrightarrow>
     (\<forall>d v. sel (mmio_write D d b v) = ucast v \<and> ent (mmio_write D d b v) = ent d) \<and>
     (\<forall>d v. 16 \<le> sel d \<longrightarrow> sel (mmio_write D d (b + 16) v) = sel d \<and>
        ent (mmio_write D d (b + 16) v) = (ent d)(sel d := v AND kept (sel d))) \<and>
     (\<forall>d. sel (snd (mmio_read D d (b + 16))) = sel d \<and> ent (snd (mmio_read D d (b + 16))) = ent d) \<and>
     (\<forall>d. 16 \<le> sel d \<longrightarrow> fst (mmio_read D d (b + 16)) AND kept (sel d) = ent d (sel d))"

lemma ucast_u8_u32: "ucast (ucast (v :: u8) :: u32) = v"
  by (rule bit_word_eqI) (simp add: bit_simps)

lemma io_read_u32_ok:
  assumes "ioapic_docs D (virtual_start (io_mapping self)) sel ent" and "reg_as_u8 reg = Inr r"
  obtains v d' where "io_read_u32 D self reg d = Inr (v, d')" and "ent d' = ent d"
    and "16 \<le> r \<Longrightarrow> v AND kept r = ent d r"
proof -
  let ?d = "mmio_write D d (virtual_start (io_mapping self)) (ucast r)"
  let ?r = "mmio_read D ?d (virtual_start (io_mapping self) + 16)"
  have "io_read_u32 D self reg d = Inr (fst ?r, snd ?r)"
    using assms(2) by (simp add: io_read_u32_def select_register_def io_offset_to_addr_def)
  moreover have "sel ?d = r" "ent ?d = ent d" using assms(1) by (simp_all add: ioapic_docs_def ucast_u8_u32)
  moreover have "ent (snd ?r) = ent ?d" "16 \<le> sel ?d \<longrightarrow> fst ?r AND kept (sel ?d) = ent ?d (sel ?d)"
    using assms(1) unfolding ioapic_docs_def by blast+
  ultimately show ?thesis using that [of "fst ?r" "snd ?r"] by simp
qed

lemma io_write_u32_ok:
  assumes "ioapic_docs D (virtual_start (io_mapping self)) sel ent" and "reg_as_u8 reg = Inr r" and "16 \<le> r"
  obtains d' where "io_write_u32 D self reg v d = Inr d'" and "ent d' = (ent d)(r := v AND kept r)"
proof -
  let ?d = "mmio_write D d (virtual_start (io_mapping self)) (ucast r)"
  have "io_write_u32 D self reg v d = Inr (mmio_write D ?d (virtual_start (io_mapping self) + 16) v)"
    using assms(2) by (simp add: io_write_u32_def select_register_def io_offset_to_addr_def)
  then show ?thesis
    by (rule that) (use assms(1,3) in \<open>simp add: ioapic_docs_def ucast_u8_u32\<close>)
qed

text \<open>A low half whose delivery mode is one of the six that exist.\<close>

definition legal_mode :: "u32 \<Rightarrow> bool" where
  "legal_mode lo \<longleftrightarrow> field 8 3 lo \<noteq> 3 \<and> field 8 3 lo \<noteq> 6"

text \<open>The entry \<open>e\<close> is what the software-controlled bits \<open>lo\<close> and \<open>hi\<close> say.\<close>

definition entry_of :: "u32 \<Rightarrow> u32 \<Rightarrow> IOApicRedirectionEntry \<Rightarrow> bool" where
  "entry_of lo hi e \<longleftrightarrow>
     dm_value (ent_delivery_mode e) = field 8 3 lo \<and>
     ent_destination_mode e = (if bit lo 11 then Logical else Physical) \<and>
     (ent_polarity e = LowActive \<longleftrightarrow> bit lo 13) \<and>
     (ent_trigger_mode e = LevelSensitive \<longleftrightarrow> bit lo 15) \<and>
     ent_destination e = destination_new (ent_destination_mode e) (ucast (field 24 8 hi))"

lemma small_u32:
  fixes w :: u32
  shows "unat w < 8 \<Longrightarrow> w = 0 \<or> w = 1 \<or> w = 2 \<or> w = 3 \<or> w = 4 \<or> w = 5 \<or> w = 6 \<or> w = 7"
  by unat_arith

lemma transmute_dm_ok:
  assumes "legal_mode lo"
  obtains m where "transmute_dm (ucast (field 8 3 lo)) = Inr m" and "dm_value m = field 8 3 lo"
proof -
  define w where "w = field 8 3 lo"
  have "unat w < 8" using unat_field_less [of 8 3 lo] by (simp add: w_def)
  from small_u32 [OF this] have "\<exists>m. w = dm_value m"
  proof (elim disjE)
    assume "w = 0" then show ?thesis by (intro exI [of _ DM_Fixed]) simp
  next
    assume "w = 1" then show ?thesis by (intro exI [of _ LowestPriority]) simp
  next
    assume "w = 2" then show ?thesis by (intro exI [of _ SystemManaged]) simp
  next
    assume "w = 4" then show ?thesis by (intro exI [of _ DM_NMI]) simp
  next
    assume "w = 5" then show ?thesis by (intro exI [of _ DM_INIT]) simp
  next
    assume "w = 7" then show ?thesis by (intro exI [of _ DM_External]) simp
  qed (use assms in \<open>simp_all add: legal_mode_def w_def\<close>)
  then obtain m where m: "field 8 3 lo = dm_value m" unfolding w_def ..
  show ?thesis by (rule that [of m]) (simp_all only: m transmute_dm_value)
qed

lemma bit_kept:
  "even r \<Longrightarrow> bit (kept r) i \<longleftrightarrow> i \<le> 16 \<and> i \<noteq> 12 \<and> i \<noteq> 14"
  "odd r \<Longrightarrow> bit (kept r) i \<longleftrightarrow> 24 \<le> i \<and> i < 32"
  by (auto simp only: kept_def if_True if_False bit_or_iff bit_push_bit_iff bit_1_iff bit_mask_iff) auto

lemma kept_fields:
  assumes "v AND kept r = w" and "even r"
  shows "field 8 3 v = field 8 3 w" and "bit v 11 = bit w 11" and "bit v 13 = bit w 13" and "bit v 15 = bit w 15"
proof -
  have w: "bit w i \<longleftrightarrow> bit v i" if "i \<le> 16" "i \<noteq> 12" "i \<noteq> 14" for i
    using assms that by (auto simp: bit_kept bit_simps)
  show "field 8 3 v = field 8 3 w" by (rule bit_word_eqI) (auto simp: bit_simps w)
qed (use assms in \<open>auto simp: bit_kept bit_simps\<close>)

lemma kept_hi_field: "v AND kept r = w \<Longrightarrow> odd r \<Longrightarrow> field 24 8 v = field 24 8 w"
  by (rule bit_word_eqI) (auto simp: bit_simps bit_kept)

lemma read_entry_ok:
  assumes "ioapic_docs D (virtual_start (io_mapping self)) sel ent"
    and "i < unat (redirection_entry_count self)" and "i < 120" and "legal_mode (ent d (redir_lo i))"
  obtains e d' where "read_entry D self (word_of_nat i) d = Inr (e, d')" and "ent d' = ent d"
    and "entry_of (ent d (redir_lo i)) (ent d (redir_hi i)) e"
proof -
  note reg = reg_as_u8_entry [OF assms(3)]
  obtain lo d1 where lo: "io_read_u32 D self (RedirectionEntry (word_of_nat i)) d = Inr (lo, d1)"
    "ent d1 = ent d" "lo AND kept (redir_lo i) = ent d (redir_lo i)"
    using io_read_u32_ok [OF assms(1) reg(1), of d] assms(3) by (metis redir_range(1))
  obtain hi d2 where hi: "io_read_u32 D self (ManuallySpecified (redir_hi i)) d1 = Inr (hi, d2)"
    "ent d2 = ent d1" "hi AND kept (redir_hi i) = ent d1 (redir_hi i)"
    using io_read_u32_ok [OF assms(1), of "ManuallySpecified (redir_hi i)" "redir_hi i" d1] assms(3)
    by (metis redir_range(2) reg_as_u8.simps(5))
  note f = kept_fields [OF lo(3) redir_range(3) [OF assms(3)]]
  obtain m where m: "transmute_dm (ucast (field 8 3 lo)) = Inr m" "dm_value m = field 8 3 lo"
    using transmute_dm_ok [of lo] assms(4) f(1) by (auto simp: legal_mode_def)
  have "word_of_nat i < redirection_entry_count self"
    using assms(2,3) by (simp add: word_less_nat_alt unat_of_nat)
  then have "read_entry D self (word_of_nat i) d =
      bindR (decode_entry (ucast lo OR push_bit 32 (ucast hi))) (\<lambda>e. Inr (e, d2))"
    by (simp add: read_entry_def io_read_u64_def is_redirection_def lo(1) hi(1) reg)
  then show ?thesis
    unfolding decode_entry_eq m(1) bindR_simps
    by (rule that) (use f m(2) hi(2) lo(2) kept_hi_field [OF hi(3)] assms(3) in \<open>simp_all add: entry_of_def\<close>)
qed

lemma write_entry_ok:
  assumes "ioapic_docs D (virtual_start (io_mapping self)) sel ent"
    and "i < unat (redirection_entry_count self)" and "i < 120"
  obtains d' where "write_entry D self (word_of_nat i) e d = Inr d'"
    and "ent d' = (ent d)(redir_lo i := encode_lo e AND kept (redir_lo i),
                          redir_hi i := encode_hi e AND kept (redir_hi i))"
proof -
  note reg = reg_as_u8_entry [OF assms(3)]
  obtain d1 where d1: "io_write_u32 D self (RedirectionEntry (word_of_nat i)) (encode_lo e) d = Inr d1"
    "ent d1 = (ent d)(redir_lo i := encode_lo e AND kept (redir_lo i))"
    using io_write_u32_ok [OF assms(1) reg(1) redir_range(1) [OF assms(3)]] .
  obtain d2 where d2: "io_write_u32 D self (ManuallySpecified (redir_hi i)) (encode_hi e) d1 = Inr d2"
    "ent d2 = (ent d1)(redir_hi i := encode_hi e AND kept (redir_hi i))"
    using io_write_u32_ok [OF assms(1) reg_as_u8.simps(5) redir_range(2) [OF assms(3)]] .
  have "word_of_nat i < redirection_entry_count self"
    using assms(2,3) by (simp add: word_less_nat_alt unat_of_nat)
  with that show ?thesis by (simp add: write_entry_def d1(1) d2 reg d1(2))
qed

text \<open>
  What \<^verbatim>\<open>map_all_to_spurious_vectors\<close> makes of the software-controlled bits of an entry: vector 39, not
  masked, delivery mode, destination mode, polarity and trigger mode as they were, and of a physical
  destination the low four bits.
\<close>

definition spurious_lo :: "u32 \<Rightarrow> u32" where
  "spurious_lo lo = push_bit 8 (field 8 4 lo) OR push_bit 13 (field 13 1 lo) OR push_bit 15 (field 15 1 lo) OR 39"

definition spurious_hi :: "u32 \<Rightarrow> u32 \<Rightarrow> u32" where
  "spurious_hi lo hi = push_bit 24 (field 24 (if bit lo 11 then 8 else 4) hi)"

lemma encode_spurious:
  assumes "entry_of lo hi e" and "ent_vector e = 39" and "ent_mask e = Unmasked" and "i < 120"
  shows "encode_lo e AND kept (redir_lo i) = spurious_lo lo"
    and "encode_hi e AND kept (redir_hi i) = spurious_hi lo hi"
proof -
  define c :: u32 where "c = 39"
  have "fits 6 c" by (simp add: c_def fits_def)
  then have c: "bit c n \<Longrightarrow> n < 6" for n by (rule fits_bit)
  have enc: "encode_lo e = c OR push_bit 8 (field 8 3 lo) OR push_bit 11 (of_bool (bit lo 11))
      OR push_bit 12 (of_bool (ent_delivery_status e = SentPending)) OR push_bit 13 (field 13 1 lo)
      OR push_bit 14 (of_bool (ent_remote_irr e)) OR push_bit 15 (field 15 1 lo)"
    using assms(1-3)
    by (simp add: encode_lo_def entry_of_def ds_value_def dest_value_def pol_value_def trig_value_def
        mask_value_def field_one c_def del: One_nat_def)
  show "encode_lo e AND kept (redir_lo i) = spurious_lo lo"
  proof (rule bit_word_eqI)
    fix n :: nat
    consider "n < 8" | "n \<in> {8, 9, 10, 11, 12, 13, 14, 15, 16}" | "16 < n" by fastforce
    then show "bit (encode_lo e AND kept (redir_lo i)) n \<longleftrightarrow> bit (spurious_lo lo) n"
    proof cases
      case 2
      then show ?thesis
        unfolding enc spurious_lo_def c_def [symmetric] using assms(4) c [of n]
        by (elim insertE emptyE; auto simp: bit_simps bit_kept)
    qed (use assms(4) c [of n] in
        \<open>auto simp: enc spurious_lo_def c_def [symmetric] bit_simps bit_kept del: One_nat_def\<close>)
  qed
  have "(0xF :: int) = mask 4" by (simp add: mask_eq_exp_minus_1)
  then have m: "bit (0xF :: int) k \<longleftrightarrow> k < 4" for k by (simp only: bit_mask_iff) auto
  have "ent_destination e = destination_new (if bit lo 11 then Logical else Physical) (ucast (field 24 8 hi))"
    using assms(1) by (simp add: entry_of_def)
  then have "encode_hi e = push_bit 24 (field 24 (if bit lo 11 then 8 else 4) hi)"
    by (intro bit_word_eqI) (auto simp: encode_hi_def destination_new_def bit_simps m)
  then show "encode_hi e AND kept (redir_hi i) = spurious_hi lo hi"
    unfolding spurious_hi_def
    by (intro bit_word_eqI) (use assms(4) in \<open>auto simp: bit_simps bit_kept\<close>)
qed

lemma bit_spurious_lo:
  assumes "n \<in> {8, 9, 10, 11, 13, 15}"
  shows "bit (spurious_lo lo) n \<longleftrightarrow> bit lo n"
proof -
  have "fits 6 (39 :: u32)" by (simp add: fits_def)
  then have "bit (39 :: u32) n \<Longrightarrow> n < 6" by (rule fits_bit)
  then show ?thesis using assms unfolding spurious_lo_def by (elim insertE emptyE; auto simp: bit_simps)
qed

lemma spurious_again:
  "spurious_lo (spurious_lo lo) = spurious_lo lo"
  "spurious_hi (spurious_lo lo) (spurious_hi lo hi) = spurious_hi lo hi"
  "legal_mode (spurious_lo lo) = legal_mode lo"
proof -
  have f: "field 8 4 (spurious_lo lo) = field 8 4 lo" "field 8 3 (spurious_lo lo) = field 8 3 lo"
    "field 13 1 (spurious_lo lo) = field 13 1 lo" "field 15 1 (spurious_lo lo) = field 15 1 lo"
    by (rule bit_word_eqI; auto simp: bit_simps bit_spurious_lo numeral_eq_Suc less_Suc_eq)+
  show "spurious_lo (spurious_lo lo) = spurious_lo lo"
    unfolding spurious_lo_def [of "spurious_lo lo"] f by (simp only: spurious_lo_def)
  show "legal_mode (spurious_lo lo) = legal_mode lo" by (simp only: legal_mode_def f)
  show "spurious_hi (spurious_lo lo) (spurious_hi lo hi) = spurious_hi lo hi"
    unfolding spurious_hi_def by (rule bit_word_eqI) (auto simp: bit_simps bit_spurious_lo)
qed

section \<open>What initialisation does\<close>

definition reroute :: "nat \<Rightarrow> (u8 \<Rightarrow> u32) \<Rightarrow> u8 \<Rightarrow> u32" where
  "reroute i f = f(redir_lo i := spurious_lo (f (redir_lo i)),
                   redir_hi i := spurious_hi (f (redir_lo i)) (f (redir_hi i)))"

lemma reroute_entry_ok:
  assumes "ioapic_docs D (virtual_start (io_mapping self)) sel ent"
    and "i < unat (redirection_entry_count self)" and "i < 120" and "legal_mode (ent d (redir_lo i))"
  obtains d' where "map_to_spurious_vector D self (word_of_nat i) d = Inr d'" and "ent d' = reroute i (ent d)"
proof -
  obtain e d1 where e: "read_entry D self (word_of_nat i) d = Inr (e, d1)" "ent d1 = ent d"
    "entry_of (ent d (redir_lo i)) (ent d (redir_hi i)) e"
    using read_entry_ok [of D self sel ent i d] assms by metis
  define e' where "e' = e\<lparr>ent_vector := index_as_u8 SpuriousIoApic, ent_mask := Unmasked\<rparr>"
  have "entry_of (ent d (redir_lo i)) (ent d (redir_hi i)) e'" "ent_vector e' = 39" "ent_mask e' = Unmasked"
    using e(3) by (simp_all add: entry_of_def e'_def)
  note enc = encode_spurious [OF this assms(3)]
  obtain d2 where d2: "write_entry D self (word_of_nat i) e' d1 = Inr d2"
    "ent d2 = (ent d1)(redir_lo i := encode_lo e' AND kept (redir_lo i),
                       redir_hi i := encode_hi e' AND kept (redir_hi i))"
    using write_entry_ok [OF assms(1-3)] .
  show ?thesis
    by (rule that [of d2])
      (simp_all only: map_to_spurious_vector_def e(1,2) bindR_simps split e'_def [symmetric] d2 enc reroute_def)
qed

lemma ioapic_map_eq: "ioapic_map D self i SpuriousIoApic d = map_to_spurious_vector D self i d"
proof -
  have "e\<lparr>ent_mask := Unmasked, ent_vector := v\<rparr> = e\<lparr>ent_vector := v, ent_mask := Unmasked\<rparr>"
    for e :: IOApicRedirectionEntry and v by simp
  then show ?thesis by (simp only: ioapic_map_def map_to_spurious_vector_def)
qed

lemma map_all_ok:
  assumes "ioapic_docs D (virtual_start (io_mapping self)) sel ent"
    and "n \<le> unat (redirection_entry_count self)" and "n \<le> 120"
    and "\<forall>i<n. legal_mode (ent d (redir_lo i))"
  shows "\<exists>d'. forR (\<lambda>index. map_to_spurious_vector D self (word_of_nat index)) [0..<n] d = Inr d' \<and>
     (\<forall>i<120. ent d' (redir_lo i) = (if i < n then spurious_lo (ent d (redir_lo i)) else ent d (redir_lo i)) \<and>
       ent d' (redir_hi i) = (if i < n then spurious_hi (ent d (redir_lo i)) (ent d (redir_hi i)) else ent d (redir_hi i)))"
  using assms(2-4)
proof (induction n)
  case (Suc n)
  then obtain d1 where d1: "forR (\<lambda>index. map_to_spurious_vector D self (word_of_nat index)) [0..<n] d = Inr d1"
    "\<forall>i<120. ent d1 (redir_lo i) = (if i < n then spurious_lo (ent d (redir_lo i)) else ent d (redir_lo i)) \<and>
       ent d1 (redir_hi i) = (if i < n then spurious_hi (ent d (redir_lo i)) (ent d (redir_hi i)) else ent d (redir_hi i))"
    by auto
  have n: "n < unat (redirection_entry_count self)" "n < 120" "legal_mode (ent d1 (redir_lo n))"
    using Suc.prems d1(2) by auto
  obtain d2 where d2: "map_to_spurious_vector D self (word_of_nat n) d1 = Inr d2" "ent d2 = reroute n (ent d1)"
    using reroute_entry_ok [OF assms(1) n] .
  show ?case
  proof (intro exI [of _ d2] conjI)
    show "\<forall>i<120. ent d2 (redir_lo i) = (if i < Suc n then spurious_lo (ent d (redir_lo i)) else ent d (redir_lo i)) \<and>
       ent d2 (redir_hi i) = (if i < Suc n then spurious_hi (ent d (redir_lo i)) (ent d (redir_hi i)) else ent d (redir_hi i))"
      using d1(2) n(2) by (auto simp: d2(2) reroute_def less_Suc_eq)
  qed (simp add: forR_append d1(1) d2(1))
qed simp

lemma ioapic_initialize_ok:
  assumes docs: "ioapic_docs D (virtual_start (io_mapping self)) sel ent"
    and n: "2 < unat (redirection_entry_count self)" "unat (redirection_entry_count self) \<le> 120"
    and legal: "\<forall>i < unat (redirection_entry_count self). legal_mode (ent d (redir_lo i))"
  shows "\<exists>d'. ioapic_initialize D self d = Inr d' \<and>
    (\<forall>i < unat (redirection_entry_count self).
       ent d' (redir_lo i) = spurious_lo (ent d (redir_lo i)) \<and>
       ent d' (redir_hi i) = spurious_hi (ent d (redir_lo i)) (ent d (redir_hi i)))"
proof -
  let ?n = "unat (redirection_entry_count self)"
  obtain v d0 where d0: "io_read_u32 D self Io_Version d = Inr (v, d0)" "ent d0 = ent d"
    using io_read_u32_ok [OF docs reg_as_u8.simps(2)] .
  obtain d1 where d1: "map_to_spurious_vector D self 2 d0 = Inr d1" "ent d1 = reroute 2 (ent d)"
    using reroute_entry_ok [OF docs n(1), of d0] legal n d0(2) by auto
  have legal1: "\<forall>i<?n. legal_mode (ent d1 (redir_lo i))"
    using legal n by (auto simp: d1(2) reroute_def spurious_again)
  obtain d2 where d2: "map_all_to_spurious_vectors D self d1 = Inr d2"
    "\<forall>i<?n. ent d2 (redir_lo i) = spurious_lo (ent d1 (redir_lo i)) \<and>
       ent d2 (redir_hi i) = spurious_hi (ent d1 (redir_lo i)) (ent d1 (redir_hi i))"
    using map_all_ok [OF docs order_refl n(2) legal1] n(2) unfolding map_all_to_spurious_vectors_def by fastforce
  obtain d3 where d3: "forR (\<lambda>entry d. bindR (read_entry D self (word_of_nat entry) d) (\<lambda>(_, d). Inr d))
      [0..<?n] d2 = Inr d3" "ent d3 = ent d2"
  proof -
    have "\<exists>s'. bindR (read_entry D self (word_of_nat i) s) (\<lambda>(_, d). Inr d) = Inr s' \<and> ent s' = ent d2"
      if i: "i \<in> set [0..<?n]" and s: "ent s = ent d2" for i s
    proof -
      have "legal_mode (ent s (redir_lo i))" "i < 120" using i s n(2) legal1 d2(2) by (auto simp: spurious_again)
      then obtain e s' where "read_entry D self (word_of_nat i) s = Inr (e, s')" "ent s' = ent s"
        using read_entry_ok [OF docs, of i s] i by (metis atLeastLessThan_iff set_upt)
      with s show ?thesis by simp
    qed
    then have "\<exists>s'. forR (\<lambda>entry d. bindR (read_entry D self (word_of_nat entry) d) (\<lambda>(_, d). Inr d)) [0..<?n] d2 =
        Inr s' \<and> ent s' = ent d2"
      by (intro forR_inv [where I = "\<lambda>d. ent d = ent d2"]) simp_all
    with that show ?thesis by blast
  qed
  have "ioapic_initialize D self d = Inr d3"
    by (simp add: ioapic_initialize_def read_version_def d0(1) ioapic_map_eq d1(1) d2(1) d3(1))
  moreover have "ent d3 (redir_lo i) = spurious_lo (ent d (redir_lo i)) \<and>
      ent d3 (redir_hi i) = spurious_hi (ent d (redir_lo i)) (ent d (redir_hi i))" if "i < ?n" for i
    using that d2(2) n(2) by (auto simp: d3(2) d1(2) reroute_def spurious_again)
  ultimately show ?thesis by blast
qed


section \<open>Both controllers\<close>

text \<open>
  An I/O APIC at a virtual address: besides \<open>ioapic_docs\<close>, its version register holds the number of its last
  entry, and accesses to lower addresses and to model-specific registers do not concern it.
\<close>

definition ioapic_at :: "'d machine \<Rightarrow> nat \<Rightarrow> u8 \<Rightarrow> ('d \<Rightarrow> u8) \<Rightarrow> ('d \<Rightarrow> u8 \<Rightarrow> u32) \<Rightarrow> bool" where
  "ioapic_at D b n sel ent \<longleftrightarrow> ioapic_docs D b sel ent \<and>
     (\<forall>d. sel d = 1 \<longrightarrow> ucast (drop_bit 16 (fst (mmio_read D d (b + 16))) AND 0xFF) = n) \<and>
     (\<forall>d a x. a < b \<longrightarrow> ent (mmio_write D d a x) = ent d \<and> ent (snd (mmio_read D d a)) = ent d) \<and>
     (\<forall>d r x. ent (wrmsr D d r x) = ent d)"

lemma io_apic_from_addr_ok:
  assumes "x86_docs X" and "mapper_docs M" and "region_ready M km m pa 0x400" and "4096 dvd pa"
    and at: "ioapic_at D (page_addr (km_pages km)) n sel ent" and "unat n < 255"
  obtains io d' km' where "io_apic_from_addr X M D pa eoi d km = Inr (io, d', km')"
    and "virtual_start (io_mapping io) = page_addr (km_pages km)"
    and "unat (redirection_entry_count io) = unat n + 1" and "ent d' = ent d"
proof -
  let ?v = "page_addr (km_pages km)"
  let ?reg = "\<lparr>physical_start = pa, virtual_start = ?v, region_length = 0x400, mapped_length = 4096 * page_span pa 0x400\<rparr>"
  let ?io = "\<lparr>io_mapping = ?reg, redirection_entry_count = 0, end_of_interrupt_addr = eoi\<rparr>"
  let ?d = "mmio_write D d ?v 1"
  have pa: "pa mod 4096 = 0" using assms(4) by presburger
  obtain km' where m: "map_physical_region X M km pa 0x400 = Inr (?reg, km')"
    using map_physical_region_ok [OF assms(1-3)] pa by auto
  have sel: "sel ?d = 1" "ent ?d = ent d" "ent (snd (mmio_read D ?d (?v + 16))) = ent ?d"
    using at by (simp_all add: ioapic_at_def ioapic_docs_def)
  then have "(ucast (drop_bit 16 (fst (mmio_read D ?d (?v + 16))) AND 0xFF) :: u8) = n"
    using at by (simp add: ioapic_at_def)
  then have r: "read_redirection_entry_count D ?io d = Inr (n, snd (mmio_read D ?d (?v + 16)))"
    by (simp add: read_redirection_entry_count_def io_read_u32_def select_register_def io_offset_to_addr_def case_prod_beta)
  have n: "unat (n + 1) = unat n + 1" using assms(6) by (simp add: unat_word_ariths)
  then have "n + 1 \<noteq> 0" by (metis add_is_0 one_neq_zero unat_0)
  moreover have "add_u8 n 1 = Inr (n + 1)" using assms(6) by (simp add: add_u8_def)
  ultimately have "io_apic_from_addr X M D pa eoi d km =
      Inr (?io\<lparr>redirection_entry_count := n + 1\<rparr>, snd (mmio_read D ?d (?v + 16)), km')"
    by (simp add: io_apic_from_addr_def m pa r)
  then show thesis by (rule that) (use sel n in simp_all)
qed

text \<open>Room for the two mappings: three pages, of which the local APIC takes two because of its offset in the first.\<close>

definition apic_ready :: "'m mapper_ops \<Rightarrow> nat \<Rightarrow> 'm kernel_memory \<Rightarrow> bool" where
  "apic_ready M pa km \<longleftrightarrow> pa mod 4096 = 0x900 \<and> pa + 0x2000 < 2 ^ 52 \<and>
     (\<exists>m fa. km_mapper km = Some m \<and> km_frames km = Some fa \<and> 9 \<le> frames_left fa \<and>
       (\<forall>i < 3. free_page M m (page_addr (km_pages km) + 4096 * i))) \<and>
     (let v = page_addr (km_pages km) in 0 < v \<and> 4096 dvd v \<and> v + 4096 * 4 < 2 ^ 47)"

lemma local_span: "pa mod 4096 = 0x900 \<Longrightarrow> page_span pa 0x800 = 2 \<and> aligned_above (pa + 0x800) 4096 \<le> pa + 0x2000"
proof -
  assume "pa mod 4096 = 0x900"
  then obtain q where "pa = 4096 * q + 0x900" by (metis mult_div_mod_eq)
  then show ?thesis by (simp add: page_span_def aligned_above_def)
qed

lemma io_span: "4096 dvd pa \<Longrightarrow> page_span pa 0x400 = 1 \<and> aligned_above (pa + 0x400) 4096 = pa + 4096"
  by (auto simp: page_span_def aligned_above_def elim!: dvdE)

lemma apic_init_ok:
  fixes s :: apic_state
  assumes X: "x86_docs X" and M: "mapper_docs M"
    and la: "find_local_apic_base X D (Some es) d = Inr pa" and ready: "apic_ready M pa km"
    and io: "find_io_apic es = Some a" "4096 dvd unat a"
    and at: "ioapic_at D (page_addr (km_pages km) + 8192) n sel ent" and n: "2 \<le> unat n" "unat n < 120"
    and legal: "\<forall>i \<le> unat n. legal_mode (ent d (redir_lo i))"
  shows "\<exists>d' km' s' io. apic_init X M D (Some es) regions d km s = Inr (d', km', s') \<and> io_instance s' = Some io \<and>
    unat (redirection_entry_count io) = unat n + 1 \<and> local_instance s' \<noteq> None \<and>
    (\<forall>i \<le> unat n. ent d' (redir_lo i) = spurious_lo (ent d (redir_lo i)))"
proof -
  let ?v = "page_addr (km_pages km)"
  obtain m fa where m: "km_mapper km = Some m" "km_frames km = Some fa" "9 \<le> frames_left fa"
    "\<And>i. i < 3 \<Longrightarrow> free_page M m (?v + 4096 * i)"
    and v: "0 < ?v" "4096 dvd ?v" "?v + 4096 * 4 < 2 ^ 47" and pa: "pa mod 4096 = 0x900" "pa + 0x2000 < 2 ^ 52"
    using ready by (auto simp: apic_ready_def Let_def)
  have ua: "unat a < 2 ^ 32" using unsigned_less [of a] by simp
  note span = local_span [OF pa(1)]
  have rdy: "region_ready M km m pa 0x800"
    using m v pa span by (simp add: region_ready_def)
  obtain apic m1 fa1 where 1: "local_apic_from_addr X M D pa d km = Inr (apic, set_local_apic_base D pa d,
      km\<lparr>km_mapper := Some m1, km_frames := Some fa1, km_pages := \<lparr>page_addr = ?v + 4096 * 2\<rparr>\<rparr>)"
    "virtual_start (la_mapping apic) = ?v + 0x900" "mapped_length (la_mapping apic) = 4096 * 2"
    "\<forall>q. free_page M m1 q \<longleftrightarrow> free_page M m q \<and> q \<notin> page_range ?v 2" "9 \<le> frames_left fa1 + 6"
  proof (rule from_addr_ok [OF X M rdy refl refl, of D d], goal_cases)
    case (1 apic m1 fa1)
    from 1(11) m(2,3) span have "9 \<le> frames_left fa1 + 6" by fastforce
    with 1(2-4,10) span pa(1) show ?case by (intro 1(1)) simp_all
  qed
  let ?d = "set_local_apic_base D pa d" and ?km = "km\<lparr>km_mapper := Some m1, km_frames := Some fa1, km_pages := \<lparr>page_addr = ?v + 4096 * 2\<rparr>\<rparr>"
  have keep: "a < ?v + 4096 \<Longrightarrow> ent (mmio_write D d a x) = ent d \<and> ent (snd (mmio_read D d a)) = ent d" for d a x
    using at by (simp add: ioapic_at_def)
  have v47: "?v + 4096 * (2 + 1) < 2 ^ 47" using v(3) by simp
  note keeps = lapic_setup_keeps [where f = ent and D = D, OF 1(2,3) _ v47 keep, simplified]
  obtain d1 where d1: "lapic_initialize D apic ?d = Inr d1" "ent d1 = ent ?d" using keeps(1) by blast
  obtain d2 where d2: "do_test_stuff D apic d1 = Inr d2" "ent d2 = ent d1" using keeps(2) by blast
  obtain x3 d3 where d3: "lapic_id D apic d2 = Inr (x3, d3)" "ent d3 = ent d2" using keeps(3) by blast
  obtain x4 d4 where d4: "lapic_version D apic d3 = Inr (x4, d4)" "ent d4 = ent d3" using keeps(4) by blast
  have e4: "ent d4 = ent d" using d1(2) d2(2) d3(2) d4(2) at by (simp add: ioapic_at_def set_local_apic_base_def)
  have "region_ready M ?km m1 (unat a) 0x400"
  proof -
    have "free_page M m1 (?v + 8192)" using 1(4) m(4) [of 2] by (auto simp: page_range_def)
    moreover have "unat a + 4096 < 2 ^ 52" using ua by simp
    ultimately show ?thesis using io_span [OF io(2)] v 1(5) by (simp add: region_ready_def)
  qed
  then obtain io d5 km5 where 5: "io_apic_from_addr X M D (unat a) (?v + 0xB0) d4 ?km = Inr (io, d5, km5)"
    "virtual_start (io_mapping io) = ?v + 8192" "unat (redirection_entry_count io) = unat n + 1" "ent d5 = ent d4"
    using io_apic_from_addr_ok [OF X M _ io(2), of ?km m1 D n sel ent "?v + 0xB0" d4] at n(2) by auto
  have new: "io_apic_new X M D (Some es) apic d4 ?km = Inr (io, d5, km5)"
    using 1(2) v(1,3) io(1) 5(1) x86_phys_new [OF X, of "unat a"] ua
    by (simp add: io_apic_new_def offset_to_addr_def usize_defs find_io_apic_base_def add.commute)
  obtain d6 where d6: "ioapic_initialize D io d5 = Inr d6"
    "\<forall>i < unat (redirection_entry_count io). ent d6 (redir_lo i) = spurious_lo (ent d5 (redir_lo i))"
    using ioapic_initialize_ok [of D io sel ent d5] at 5(2,3,4) e4 n legal by (auto simp: ioapic_at_def less_Suc_eq_le)
  have "apic_init X M D (Some es) regions d km s = Inr (d6, km5, local_publish apic (io_publish io s))"
    by (simp add: apic_init_def local_apic_new_def la 1(1) d1(1) d2(1) d3(1) d4(1) new [simplified] d6(1))
  with d6(2) 5(3,4) e4 show ?thesis by (auto simp: io_publish_def local_publish_def)
qed

section \<open>An I/O APIC\<close>

text \<open>A device as the data sheet describes it, at address 0, that starts with every entry masked.\<close>

definition sim_ioapic :: "(u8 \<times> (u8 \<Rightarrow> u32)) machine" where
  "sim_ioapic = \<lparr>
     mmio_read = (\<lambda>d a. (snd d (fst d), d)),
     mmio_write = (\<lambda>d a v. if a = 0 then (ucast v, snd d) else (fst d, (snd d)(fst d := v))),
     in8 = (\<lambda>d p. (0, d)), in16 = (\<lambda>d p. (0, d)), in32 = (\<lambda>d p. (0, d)),
     out8 = (\<lambda>d p v. d), out16 = (\<lambda>d p v. d), out32 = (\<lambda>d p v. d),
     rdmsr = (\<lambda>d r. 0), wrmsr = (\<lambda>d r v. d)\<rparr>"

definition sim_entries :: "u8 \<times> (u8 \<Rightarrow> u32) \<Rightarrow> u8 \<Rightarrow> u32" where
  "sim_entries d r = snd d r AND kept r"

definition sim_instance :: IOApic where
  "sim_instance = \<lparr>
     io_mapping = \<lparr>physical_start = 0, virtual_start = 0, region_length = 0x400, mapped_length = 0x1000\<rparr>,
     redirection_entry_count = 24, end_of_interrupt_addr = 0\<rparr>"

lemma sim_ioapic_docs: "ioapic_docs sim_ioapic (virtual_start (io_mapping sim_instance)) fst sim_entries"
  by (auto simp: ioapic_docs_def sim_ioapic_def sim_instance_def sim_entries_def fun_eq_iff)

theorem redirection_entry_roundtrip_witness:
  "decode_entry (ucast (encode_lo \<lparr>ent_vector = 39, ent_delivery_mode = LowestPriority,
       ent_destination_mode = Logical, ent_delivery_status = DS_Idle, ent_polarity = LowActive,
       ent_remote_irr = False, ent_trigger_mode = LevelSensitive, ent_mask = Unmasked,
       ent_destination = LogicalSetOfProcessors 0xA5\<rparr>)
     OR push_bit 32 (ucast (encode_hi \<lparr>ent_vector = 39, ent_delivery_mode = LowestPriority,
       ent_destination_mode = Logical, ent_delivery_status = DS_Idle, ent_polarity = LowActive,
       ent_remote_irr = False, ent_trigger_mode = LevelSensitive, ent_mask = Unmasked,
       ent_destination = LogicalSetOfProcessors 0xA5\<rparr>)))
   = Inr \<lparr>ent_vector = 39, ent_delivery_mode = LowestPriority,
       ent_destination_mode = Logical, ent_delivery_status = DS_Idle, ent_polarity = LowActive,
       ent_remote_irr = False, ent_trigger_mode = LevelSensitive, ent_mask = Unmasked,
       ent_destination = LogicalSetOfProcessors 0xA5\<rparr>"
  by (rule redirection_entry_roundtrip) (simp add: entry_ok_def destination_new_def)


end
