(* ===== verification/Tasks.thy ===== *)
theory Tasks
  imports Prelude
begin

text \<open>
  \<^verbatim>\<open>kernel/src/task/mod.rs\<close>, \<^verbatim>\<open>task/executor.rs\<close> and \<^verbatim>\<open>task/simple_executor.rs\<close>: cooperative tasks and the
  two executors. The queue of ready tasks is an \<^verbatim>\<open>ArrayQueue\<close> of the crate \<^verbatim>\<open>crossbeam_queue\<close> and is
  a parameter, as are the futures: polling one gives its result and its next state, the wakers it
  called, and what it did to the rest of the system, unless it panics.
\<close>

section \<open>Bounded queues\<close>

record ('t, 'q) array_queue =
  aq_new :: "nat \<Rightarrow> 'q"
  aq_push :: "'q \<Rightarrow> 't \<Rightarrow> 'q option"
  aq_pop :: "'q \<Rightarrow> ('t \<times> 'q) option"
  aq_is_empty :: "'q \<Rightarrow> bool"

text \<open>
  The documented behaviour, over the list of items in the queue and its capacity: first in, first
  out; \<^verbatim>\<open>push\<close> fails exactly on a full queue.
\<close>

definition aq_docs :: "('t, 'q) array_queue \<Rightarrow> ('q \<Rightarrow> 't list) \<Rightarrow> ('q \<Rightarrow> nat) \<Rightarrow> bool" where
  "aq_docs A items cap \<longleftrightarrow>
     (\<forall>n>0. items (aq_new A n) = [] \<and> cap (aq_new A n) = n) \<and>
     (\<forall>q x. if length (items q) < cap q
        then \<exists>q'. aq_push A q x = Some q' \<and> items q' = items q @ [x] \<and> cap q' = cap q
        else aq_push A q x = None) \<and>
     (\<forall>q. case items q of
        [] \<Rightarrow> aq_pop A q = None
      | x # xs \<Rightarrow> \<exists>q'. aq_pop A q = Some (x, q') \<and> items q' = xs \<and> cap q' = cap q) \<and>
     (\<forall>q. aq_is_empty A q \<longleftrightarrow> items q = [])"

text \<open>An instance: a list with its capacity.\<close>

definition list_queue :: "('t, nat \<times> 't list) array_queue" where
  "list_queue = \<lparr>
     aq_new = (\<lambda>n. (n, [])),
     aq_push = (\<lambda>(n, xs) x. if length xs < n then Some (n, xs @ [x]) else None),
     aq_pop = (\<lambda>(n, xs). case xs of [] \<Rightarrow> None | x # ys \<Rightarrow> Some (x, (n, ys))),
     aq_is_empty = (\<lambda>(n, xs). xs = [])\<rparr>"

lemma list_queue_docs: "aq_docs list_queue snd fst"
  by (auto simp: aq_docs_def list_queue_def split: list.split)

lemma aq_newD: "aq_docs A items cap \<Longrightarrow> 0 < n \<Longrightarrow> items (aq_new A n) = [] \<and> cap (aq_new A n) = n"
  by (simp add: aq_docs_def)

lemma aq_push_full: "aq_docs A items cap \<Longrightarrow> cap q \<le> length (items q) \<Longrightarrow> aq_push A q x = None"
  unfolding aq_docs_def by (metis linorder_not_le)

lemma aq_pushE:
  assumes "aq_docs A items cap" and "length (items q) < cap q"
  obtains q' where "aq_push A q x = Some q'" and "items q' = items q @ [x]" and "cap q' = cap q"
  using assms unfolding aq_docs_def by metis

lemma aq_push_SomeD:
  assumes "aq_docs A items cap" and "aq_push A q x = Some q'"
  shows "items q' = items q @ [x]" and "cap q' = cap q" and "length (items q) < cap q"
proof -
  show room: "length (items q) < cap q"
  proof (rule ccontr)
    assume "\<not> length (items q) < cap q"
    then have "aq_push A q x = None" by (intro aq_push_full [OF assms(1)]) simp
    with assms(2) show False by simp
  qed
  obtain p where "aq_push A q x = Some p" "items p = items q @ [x]" "cap p = cap q"
    using aq_pushE [OF assms(1) room] .
  with assms(2) show "items q' = items q @ [x]" "cap q' = cap q" by simp_all
qed

lemma aq_docs_pop:
  "aq_docs A items cap \<Longrightarrow> case items q of
     [] \<Rightarrow> aq_pop A q = None
   | x # xs \<Rightarrow> \<exists>q'. aq_pop A q = Some (x, q') \<and> items q' = xs \<and> cap q' = cap q"
  unfolding aq_docs_def by blast

lemma aq_pop_empty: "aq_docs A items cap \<Longrightarrow> items q = [] \<Longrightarrow> aq_pop A q = None"
  by (drule aq_docs_pop [of A items cap q]) simp

lemma aq_popE:
  assumes "aq_docs A items cap" and "items q = x # xs"
  obtains q' where "aq_pop A q = Some (x, q')" and "items q' = xs" and "cap q' = cap q"
  using aq_docs_pop [OF assms(1), of q] assms(2) that by auto

lemma aq_is_empty_iff: "aq_docs A items cap \<Longrightarrow> aq_is_empty A q \<longleftrightarrow> items q = []"
  by (simp add: aq_docs_def)

section \<open>Tasks\<close>

datatype TaskId = TaskId (task_number: u64)

instantiation TaskId :: linorder
begin

definition less_eq_TaskId :: "TaskId \<Rightarrow> TaskId \<Rightarrow> bool" where
  "a \<le> b \<longleftrightarrow> task_number a \<le> task_number b"

definition less_TaskId :: "TaskId \<Rightarrow> TaskId \<Rightarrow> bool" where
  "a < b \<longleftrightarrow> task_number a < task_number b"

instance
  by standard (auto simp: less_eq_TaskId_def less_TaskId_def intro: TaskId.expand)

end

text \<open>\<^verbatim>\<open>fetch_add\<close> on the global counter returns its old value and wraps around.\<close>

definition task_id_new :: "u64 \<Rightarrow> TaskId \<times> u64" where
  "task_id_new next_id = (TaskId next_id, next_id + 1)"

record 'f Task =
  task_id :: TaskId
  future :: 'f

definition task_new :: "'f \<Rightarrow> u64 \<Rightarrow> 'f Task \<times> u64" where
  "task_new f next_id = (let (i, next_id) = task_id_new next_id in (\<lparr>task_id = i, future = f\<rparr>, next_id))"

datatype Poll = Ready | Pending

type_synonym ('f, 'k, 'w) poll_fn = "'f \<Rightarrow> 'k \<Rightarrow> 'w \<Rightarrow> (Poll \<times> 'f \<times> 'k list \<times> 'w) outcome"

definition task_poll :: "('f, 'k, 'w) poll_fn \<Rightarrow> 'f Task \<Rightarrow> 'k \<Rightarrow> 'w \<Rightarrow> (Poll \<times> 'f Task \<times> 'k list \<times> 'w) outcome" where
  "task_poll poll task context w =
     bindR (poll (future task) context w) (\<lambda>(r, f, woken, w). Inr (r, task\<lparr>future := f\<rparr>, woken, w))"

section \<open>The executor\<close>

text \<open>
  The queue is shared by the executor and all its wakers, so a waker is its task's number and calling it
  works on the executor's queue.
\<close>

record TaskWaker =
  tw_task_id :: TaskId

record ('f, 'q) Executor =
  tasks :: "TaskId \<rightharpoonup> 'f Task"
  task_queue :: 'q
  waker_cache :: "TaskId \<rightharpoonup> TaskWaker"

definition task_waker_new :: "TaskId \<Rightarrow> TaskWaker" where
  "task_waker_new i = \<lparr>tw_task_id = i\<rparr>"

definition wake_task :: "(TaskId, 'q) array_queue \<Rightarrow> TaskWaker \<Rightarrow> 'q \<Rightarrow> 'q outcome" where
  "wake_task A self queue = unwrapR ''task_queue full'' (aq_push A queue (tw_task_id self))"

text \<open>The trait \<^verbatim>\<open>Wake\<close>, through which a waker is called.\<close>

definition task_wake :: "(TaskId, 'q) array_queue \<Rightarrow> TaskWaker \<Rightarrow> 'q \<Rightarrow> 'q outcome" where
  "task_wake A self queue = wake_task A self queue"

definition task_wake_by_ref :: "(TaskId, 'q) array_queue \<Rightarrow> TaskWaker \<Rightarrow> 'q \<Rightarrow> 'q outcome" where
  "task_wake_by_ref A self queue = wake_task A self queue"

lemmas waker_defs = task_waker_new_def task_wake_def task_wake_by_ref_def wake_task_def

definition executor_new :: "(TaskId, 'q) array_queue \<Rightarrow> ('f, 'q) Executor" where
  "executor_new A = \<lparr>tasks = Map.empty, task_queue = aq_new A 100, waker_cache = Map.empty\<rparr>"

definition spawn :: "(TaskId, 'q) array_queue \<Rightarrow> 'f Task \<Rightarrow> ('f, 'q) Executor \<Rightarrow> ('f, 'q) Executor outcome" where
  "spawn A task self =
     (if tasks self (task_id task) \<noteq> None then Inl (Panicked ''task with same ID already in tasks'')
      else bindR (unwrapR ''queue full'' (aq_push A (task_queue self) (task_id task))) (\<lambda>q.
        Inr (self\<lparr>tasks := (tasks self)(task_id task \<mapsto> task), task_queue := q\<rparr>)))"

text \<open>One turn of the loop of \<^verbatim>\<open>run_ready_tasks\<close>, after a task number was taken from the queue.\<close>

definition run_task ::
  "(TaskId, 'q) array_queue \<Rightarrow> ('f, TaskWaker, 'w) poll_fn \<Rightarrow> TaskId \<Rightarrow> ('f, 'q) Executor \<Rightarrow> 'w \<Rightarrow>
   (('f, 'q) Executor \<times> 'w) outcome" where
  "run_task A poll i self w =
     (case tasks self i of
        None \<Rightarrow> Inr (self, w)
      | Some task \<Rightarrow>
          let waker = (case waker_cache self i of None \<Rightarrow> task_waker_new i | Some waker \<Rightarrow> waker);
              self = self\<lparr>waker_cache := (waker_cache self)(i \<mapsto> waker)\<rparr>
          in bindR (task_poll poll task waker w) (\<lambda>(r, task, woken, w).
             bindR (forR (task_wake_by_ref A) woken (task_queue self)) (\<lambda>q.
             let self = self\<lparr>task_queue := q\<rparr>
             in Inr (case r of
                  Ready \<Rightarrow> self\<lparr>tasks := (tasks self)(i := None), waker_cache := (waker_cache self)(i := None)\<rparr>
                | Pending \<Rightarrow> self\<lparr>tasks := (tasks self)(i \<mapsto> task)\<rparr>, w))))"

partial_function (option) run_ready_loop ::
  "(TaskId, 'q) array_queue \<Rightarrow> ('f, TaskWaker, 'w) poll_fn \<Rightarrow> ('f, 'q) Executor \<Rightarrow> 'w \<Rightarrow>
   (('f, 'q) Executor \<times> 'w) outcome option" where
  "run_ready_loop A poll self w =
     (case aq_pop A (task_queue self) of
        None \<Rightarrow> Some (Inr (self, w))
      | Some (i, q) \<Rightarrow>
          (case run_task A poll i (self\<lparr>task_queue := q\<rparr>) w of
             Inl e \<Rightarrow> Some (Inl e)
           | Inr (self, w) \<Rightarrow> run_ready_loop A poll self w))"

definition run_ready_tasks ::
  "(TaskId, 'q) array_queue \<Rightarrow> ('f, TaskWaker, 'w) poll_fn \<Rightarrow> ('f, 'q) Executor \<Rightarrow> 'w \<Rightarrow>
   (('f, 'q) Executor \<times> 'w) outcome" where
  "run_ready_tasks A poll self w = run_loop (run_ready_loop A poll self w)"

text \<open>
  \<^verbatim>\<open>sleep_if_idle\<close> checks the queue with interrupts off and either halts, with interrupts back on, until
  the next interrupt, or continues.
\<close>

datatype idle = Enable_And_Hlt | Enable

definition sleep_if_idle :: "(TaskId, 'q) array_queue \<Rightarrow> ('f, 'q) Executor \<Rightarrow> idle" where
  "sleep_if_idle A self = (if aq_is_empty A (task_queue self) then Enable_And_Hlt else Enable)"

section \<open>The simple executor\<close>

text \<open>Its waker does nothing, and a task that is not done goes to the back of the queue.\<close>

record 'f SimpleExecutor =
  simple_queue :: "'f Task list"

definition simple_new :: "'f SimpleExecutor" where
  "simple_new = \<lparr>simple_queue = []\<rparr>"

definition simple_spawn :: "'f Task \<Rightarrow> 'f SimpleExecutor \<Rightarrow> 'f SimpleExecutor" where
  "simple_spawn task self = self\<lparr>simple_queue := simple_queue self @ [task]\<rparr>"

datatype dummy_waker = Dummy_Waker

partial_function (option) simple_run ::
  "('f, dummy_waker, 'w) poll_fn \<Rightarrow> 'f SimpleExecutor \<Rightarrow> 'w \<Rightarrow> ('f SimpleExecutor \<times> 'w) outcome option" where
  "simple_run poll self w =
     (case simple_queue self of
        [] \<Rightarrow> Some (Inr (self, w))
      | task # queue \<Rightarrow>
          let self = self\<lparr>simple_queue := queue\<rparr>
          in case task_poll poll task Dummy_Waker w of
               Inl e \<Rightarrow> Some (Inl e)
             | Inr (Ready, task, woken, w) \<Rightarrow> simple_run poll self w
             | Inr (Pending, task, woken, w) \<Rightarrow> simple_run poll (self\<lparr>simple_queue := simple_queue self @ [task]\<rparr>) w)"

section \<open>Invariant of the executor\<close>

definition executor_inv :: "('q \<Rightarrow> TaskId list) \<Rightarrow> ('q \<Rightarrow> nat) \<Rightarrow> ('f, 'q) Executor \<Rightarrow> bool" where
  "executor_inv items cap ex \<longleftrightarrow>
     finite (dom (tasks ex)) \<and> dom (waker_cache ex) \<subseteq> dom (tasks ex) \<and>
     (\<forall>i t. tasks ex i = Some t \<longrightarrow> task_id t = i) \<and>
     (\<forall>i k. waker_cache ex i = Some k \<longrightarrow> k = \<lparr>tw_task_id = i\<rparr>) \<and>
     length (items (task_queue ex)) \<le> cap (task_queue ex) \<and> 0 < cap (task_queue ex)"

lemma executor_inv_new: "aq_docs A items cap \<Longrightarrow> executor_inv items cap (executor_new A)"
  using aq_newD [of A items cap 100] by (simp add: executor_inv_def executor_new_def)

lemma executor_inv_spawn:
  assumes "aq_docs A items cap" and "executor_inv items cap ex" and "spawn A t ex = Inr ex'"
  shows "executor_inv items cap ex'"
proof -
  obtain q where q: "aq_push A (task_queue ex) (task_id t) = Some q"
    "ex' = ex\<lparr>tasks := (tasks ex)(task_id t \<mapsto> t), task_queue := q\<rparr>"
    using assms(3) by (auto simp: spawn_def bindR_Inr_iff split: if_splits)
  note push = aq_push_SomeD [OF assms(1) q(1)]
  show ?thesis using assms(2) push unfolding q(2) by (auto simp: executor_inv_def)
qed

text \<open>
  A cooperative future: when polled it does not panic and either calls no waker, or calls its own waker once and has come
  closer to being done. This is what a future does that yields or that waits for an event.
\<close>

definition cooperative :: "('f, TaskWaker, 'w) poll_fn \<Rightarrow> ('f \<Rightarrow> nat) \<Rightarrow> bool" where
  "cooperative poll rank \<longleftrightarrow>
     (\<forall>f k w. \<exists>r f' woken w'. poll f k w = Inr (r, f', woken, w') \<and>
        (woken = [] \<and> rank f' \<le> rank f \<or> woken = [k] \<and> rank f' < rank f))"

text \<open>The same futures with a record of which tasks are polled.\<close>

definition logged :: "('f, TaskWaker, 'w) poll_fn \<Rightarrow> ('f, TaskWaker, 'w \<times> TaskId list) poll_fn" where
  "logged poll f k wl = bindR (poll f k (fst wl)) (\<lambda>(r, f', woken, w').
     Inr (r, f', woken, w', snd wl @ [tw_task_id k]))"

definition pending_work :: "('f \<Rightarrow> nat) \<Rightarrow> ('q \<Rightarrow> TaskId list) \<Rightarrow> ('f, 'q) Executor \<Rightarrow> nat" where
  "pending_work rank items ex =
     length (items (task_queue ex)) + (\<Sum>i\<in>dom (tasks ex). rank (future (the (tasks ex i))))"

lemma sum_update_le:
  fixes g :: "'a \<Rightarrow> nat"
  assumes "finite S" and "i \<in> S" and "\<And>j. j \<in> S \<Longrightarrow> j \<noteq> i \<Longrightarrow> h j = g j"
  shows "sum h S + g i = sum g S + h i"
proof -
  have "sum h S = h i + sum h (S - {i})" "sum g S = g i + sum g (S - {i})"
    using assms(1,2) by (simp_all add: sum.remove)
  moreover have "sum h (S - {i}) = sum g (S - {i})" using assms(3) by (intro sum.cong) auto
  ultimately show ?thesis by simp
qed

lemma pending_work_poll:
  assumes inv: "executor_inv items cap ex" and t: "tasks ex i = Some t"
    and len: "length (items q) + rank f \<le> length (items (task_queue ex)) + rank (future t)"
  shows "pending_work rank items (ex\<lparr>waker_cache := c, task_queue := q, tasks := (tasks ex)(i := None)\<rparr>) \<le> pending_work rank items ex"
    and "pending_work rank items (ex\<lparr>waker_cache := c, task_queue := q, tasks := (tasks ex)(i \<mapsto> t\<lparr>future := f\<rparr>)\<rparr>) \<le> pending_work rank items ex"
proof -
  define S where "S = dom (tasks ex)"
  define g where "g j = rank (future (the (tasks ex j)))" for j
  have fin: "finite S" "i \<in> S" using inv t by (auto simp: executor_inv_def S_def)
  have "(\<Sum>j\<in>S - {i}. rank (future (the (((tasks ex)(i := None)) j)))) = sum g (S - {i})"
    by (intro sum.cong) (auto simp: g_def)
  moreover have "sum g S = g i + sum g (S - {i})" using fin by (simp add: sum.remove)
  ultimately show "pending_work rank items (ex\<lparr>waker_cache := c, task_queue := q, tasks := (tasks ex)(i := None)\<rparr>) \<le> pending_work rank items ex"
    using len t by (simp add: pending_work_def S_def [symmetric] g_def [symmetric]) (simp add: g_def)
  have "(\<Sum>j\<in>S. rank (future (the (((tasks ex)(i \<mapsto> t\<lparr>future := f\<rparr>)) j)))) + g i = sum g S + rank f"
    using sum_update_le [OF fin, of "\<lambda>j. rank (future (the (((tasks ex)(i \<mapsto> t\<lparr>future := f\<rparr>)) j)))" g]
    by (simp add: g_def)
  moreover have "insert i S = S" using fin(2) by auto
  ultimately show "pending_work rank items (ex\<lparr>waker_cache := c, task_queue := q, tasks := (tasks ex)(i \<mapsto> t\<lparr>future := f\<rparr>)\<rparr>) \<le> pending_work rank items ex"
    using len t by (simp add: pending_work_def S_def [symmetric] g_def)
qed

lemma run_task_step:
  assumes "aq_docs A items cap" and inv: "executor_inv items cap ex" and coop: "cooperative poll rank"
    and room: "length (items (task_queue ex)) < cap (task_queue ex)" and t: "tasks ex i = Some t"
  obtains ex' w' where "run_task A (logged poll) i ex (w, l) = Inr (ex', w', l @ [i])"
    and "executor_inv items cap ex'" and "pending_work rank items ex' \<le> pending_work rank items ex"
    and "dom (tasks ex) - {i} \<subseteq> dom (tasks ex')" and "dom (tasks ex') \<subseteq> dom (tasks ex)"
    and "set (items (task_queue ex)) \<subseteq> set (items (task_queue ex'))"
proof -
  define k where "k = \<lparr>tw_task_id = i\<rparr>"
  have k: "(case waker_cache ex i of None \<Rightarrow> task_waker_new i | Some waker \<Rightarrow> waker) = k"
    using inv by (auto simp: executor_inv_def k_def task_waker_new_def split: option.split)
  have tk: "tw_task_id k = i" by (simp add: k_def)
  obtain r f woken w' where p: "poll (future t) k w = Inr (r, f, woken, w')"
    and c: "woken = [] \<and> rank f \<le> rank (future t) \<or> woken = [k] \<and> rank f < rank (future t)"
    using coop unfolding cooperative_def by blast
  obtain q where q: "forR (task_wake_by_ref A) woken (task_queue ex) = Inr q" "cap q = cap (task_queue ex)"
    "items q = items (task_queue ex) @ map tw_task_id woken"
  proof (cases "woken = []")
    case False
    with c have wk: "woken = [k]" by simp
    obtain q where "aq_push A (task_queue ex) i = Some q" "items q = items (task_queue ex) @ [i]"
      "cap q = cap (task_queue ex)"
      using aq_pushE [OF assms(1) room, of i] .
    then show ?thesis by (intro that [of q]) (simp_all add: wk waker_defs k_def)
  qed (use that in simp)
  have len: "length (items q) + rank f \<le> length (items (task_queue ex)) + rank (future t)"
    using c q(3) by auto
  define ex' where "ex' = (case r of
      Ready \<Rightarrow> ex\<lparr>waker_cache := (waker_cache ex)(i := None), task_queue := q, tasks := (tasks ex)(i := None)\<rparr>
    | Pending \<Rightarrow> ex\<lparr>waker_cache := (waker_cache ex)(i \<mapsto> k), task_queue := q,
        tasks := (tasks ex)(i \<mapsto> t\<lparr>future := f\<rparr>)\<rparr>)"
  have run: "run_task A (logged poll) i ex (w, l) = Inr (ex', w', l @ [i])"
    unfolding run_task_def by (simp add: t k task_poll_def logged_def p q(1) ex'_def tk Let_def split: Poll.split)
  have "length woken \<le> 1" using c by auto
  then have len': "length (items q) \<le> cap q" using room by (simp add: q(2,3))
  have doms: "dom (tasks ex) - {i} \<subseteq> dom (tasks ex')" "dom (tasks ex') \<subseteq> dom (tasks ex)"
    "set (items (task_queue ex)) \<subseteq> set (items (task_queue ex'))"
    using t by (cases r; auto simp: ex'_def q(3))+
  have inv': "executor_inv items cap ex'"
    using inv t len' room q(2) by (cases r; auto simp: ex'_def executor_inv_def k_def)
  have "pending_work rank items ex' \<le> pending_work rank items ex"
    using pending_work_poll [OF inv t len] by (cases r) (simp_all add: ex'_def)
  with that [OF run inv'] doms show ?thesis by blast
qed

text \<open>One turn of the loop takes a task from the queue and polls it, unless it no longer exists.\<close>

lemma run_ready_turn:
  assumes docs: "aq_docs A items cap" and coop: "cooperative poll rank" and inv: "executor_inv items cap ex"
    and js: "items (task_queue ex) = i # js"
  obtains ex' w' l' where "run_ready_loop A (logged poll) ex (w, l) = run_ready_loop A (logged poll) ex' (w', l')"
    and "executor_inv items cap ex'" and "pending_work rank items ex' < pending_work rank items ex"
    and "dom (tasks ex') \<subseteq> dom (tasks ex)"
    and "set l \<union> (set (i # js) \<inter> dom (tasks ex)) \<subseteq> set l' \<union> (set (items (task_queue ex')) \<inter> dom (tasks ex'))"
proof -
  obtain q where q: "aq_pop A (task_queue ex) = Some (i, q)" "items q = js" "cap q = cap (task_queue ex)"
    using aq_popE [OF docs js] .
  define ex1 where "ex1 = ex\<lparr>task_queue := q\<rparr>"
  have inv1: "executor_inv items cap ex1" and room: "length (items (task_queue ex1)) < cap (task_queue ex1)"
    using inv js q by (simp_all add: ex1_def executor_inv_def)
  have work: "pending_work rank items ex1 < pending_work rank items ex"
    using js q by (simp add: ex1_def pending_work_def)
  have same: "dom (tasks ex1) = dom (tasks ex)" "items (task_queue ex1) = js" by (simp_all add: ex1_def q(2))
  have loop: "run_ready_loop A (logged poll) ex (w, l) =
      (case run_task A (logged poll) i ex1 (w, l) of Inl e \<Rightarrow> Some (Inl e)
       | Inr (ex, w) \<Rightarrow> run_ready_loop A (logged poll) ex w)"
    by (subst run_ready_loop.simps) (simp add: q(1) ex1_def)
  show thesis
  proof (cases "tasks ex i")
    case None
    then have "run_task A (logged poll) i ex1 (w, l) = Inr (ex1, w, l)" by (simp add: run_task_def ex1_def)
    with None same show ?thesis by (intro that [of ex1 w l] inv1 work) (auto simp: loop)
  next
    case (Some t)
    then have "tasks ex1 i = Some t" by (simp add: ex1_def)
    from run_task_step [OF docs inv1 coop room this, of w l] obtain ex2 w2 where s:
      "run_task A (logged poll) i ex1 (w, l) = Inr (ex2, w2, l @ [i])" "executor_inv items cap ex2"
      "pending_work rank items ex2 \<le> pending_work rank items ex1"
      "dom (tasks ex1) - {i} \<subseteq> dom (tasks ex2)" "dom (tasks ex2) \<subseteq> dom (tasks ex1)"
      "set (items (task_queue ex1)) \<subseteq> set (items (task_queue ex2))" .
    have "set l \<union> (set (i # js) \<inter> dom (tasks ex)) \<subseteq> set (l @ [i]) \<union> (set (items (task_queue ex2)) \<inter> dom (tasks ex2))"
      using s(4,6) unfolding same by auto
    with s same show ?thesis using work by (intro that [of ex2 w2 "l @ [i]"]) (simp_all add: loop)
  qed
qed

lemma run_ready_loop_ok:
  assumes docs: "aq_docs A items cap" and coop: "cooperative poll rank" and "executor_inv items cap ex"
  shows "\<exists>ex' w' l'. run_ready_loop A (logged poll) ex (w, l) = Some (Inr (ex', w', l')) \<and>
    executor_inv items cap ex' \<and> items (task_queue ex') = [] \<and> dom (tasks ex') \<subseteq> dom (tasks ex) \<and>
    set l \<union> (set (items (task_queue ex)) \<inter> dom (tasks ex)) \<subseteq> set l'"
  using assms(3)
proof (induction "pending_work rank items ex" arbitrary: ex w l rule: less_induct)
  case less
  show ?case
  proof (cases "items (task_queue ex)")
    case Nil
    then show ?thesis
      using less.prems by (subst run_ready_loop.simps) (simp add: aq_pop_empty [OF docs])
  next
    case (Cons i js)
    obtain ex1 w1 l1 where turn: "run_ready_loop A (logged poll) ex (w, l) = run_ready_loop A (logged poll) ex1 (w1, l1)"
      "executor_inv items cap ex1" "pending_work rank items ex1 < pending_work rank items ex" "dom (tasks ex1) \<subseteq> dom (tasks ex)"
      "set l \<union> (set (i # js) \<inter> dom (tasks ex)) \<subseteq> set l1 \<union> (set (items (task_queue ex1)) \<inter> dom (tasks ex1))"
      using run_ready_turn [OF docs coop less.prems Cons, of w l] .
    obtain ex2 w2 l2 where rest: "run_ready_loop A (logged poll) ex1 (w1, l1) = Some (Inr (ex2, w2, l2))" "executor_inv items cap ex2"
      "items (task_queue ex2) = []" "dom (tasks ex2) \<subseteq> dom (tasks ex1)"
      "set l1 \<union> (set (items (task_queue ex1)) \<inter> dom (tasks ex1)) \<subseteq> set l2"
      using less.hyps [OF turn(3,2), of w1 l1] by blast
    show ?thesis unfolding turn(1) Cons
      using rest(1-3) subset_trans [OF rest(4) turn(4)] subset_trans [OF turn(5) rest(5)] by blast
  qed
qed

section \<open>Properties of the executors\<close>

text \<open>Spawning one task for each future.\<close>

fun spawn_all :: "(TaskId, 'q) array_queue \<Rightarrow> 'f list \<Rightarrow> u64 \<Rightarrow> ('f, 'q) Executor \<Rightarrow> (u64 \<times> ('f, 'q) Executor) outcome" where
  "spawn_all A [] n ex = Inr (n, ex)"
| "spawn_all A (f # fs) n ex = (let (t, n) = task_new f n in bindR (spawn A t ex) (spawn_all A fs n))"

text \<open>The executor holds exactly the \<open>k\<close> tasks numbered from \<open>n\<close>, all of them ready.\<close>

definition spawned :: "('q \<Rightarrow> TaskId list) \<Rightarrow> u64 \<Rightarrow> nat \<Rightarrow> ('f, 'q) Executor \<Rightarrow> bool" where
  "spawned items n k ex \<longleftrightarrow>
     items (task_queue ex) = map (\<lambda>j. TaskId (n + word_of_nat j)) [0..<k] \<and>
     dom (tasks ex) = set (items (task_queue ex))"

lemma spawn_all_ok:
  assumes "aq_docs A items cap" and "executor_inv items cap ex" and "spawned items n k ex"
    and "k + length fs \<le> 100" and "cap (task_queue ex) = 100"
  shows "\<exists>ex'. spawn_all A fs (n + word_of_nat k) ex = Inr (n + word_of_nat (k + length fs), ex') \<and>
    executor_inv items cap ex' \<and> spawned items n (k + length fs) ex' \<and> cap (task_queue ex') = 100"
  using assms(2-5)
proof (induction fs arbitrary: k ex)
  case (Cons f fs)
  let ?t = "\<lparr>task_id = TaskId (n + word_of_nat k), future = f\<rparr>"
  have "word_of_nat j \<noteq> (word_of_nat k :: u64)" if "j < k" for j
  proof
    assume "word_of_nat j = (word_of_nat k :: u64)"
    then have "unat (word_of_nat j :: u64) = unat (word_of_nat k :: u64)" by simp
    then show False using that Cons.prems(3) by (simp add: unat_of_nat)
  qed
  then have "task_id ?t \<notin> dom (tasks ex)"
    using Cons.prems(2) by (auto simp: spawned_def simp del: domIff) metis
  then have fresh: "tasks ex (task_id ?t) = None" by blast
  have "length (items (task_queue ex)) < cap (task_queue ex)"
    using Cons.prems by (simp add: spawned_def)
  then obtain q where q: "aq_push A (task_queue ex) (task_id ?t) = Some q"
    "items q = items (task_queue ex) @ [task_id ?t]" "cap q = cap (task_queue ex)"
    using aq_pushE [OF assms(1)] by metis
  define ex1 where "ex1 = ex\<lparr>tasks := (tasks ex)(task_id ?t \<mapsto> ?t), task_queue := q\<rparr>"
  have s: "spawn A ?t ex = Inr ex1" using fresh q(1) by (simp add: spawn_def ex1_def)
  have "spawned items n (Suc k) ex1"
    using Cons.prems(2) q(2) by (auto simp: spawned_def ex1_def)
  from Cons.IH [OF executor_inv_spawn [OF assms(1) Cons.prems(1) s] this] Cons.prems(3,4) q(3)
  show ?case
    by (simp add: task_new_def task_id_new_def s ex1_def algebra_simps)
qed simp

lemma spawn_all_append:
  "spawn_all A (fs @ gs) n ex = bindR (spawn_all A fs n ex) (\<lambda>(n, ex). spawn_all A gs n ex)"
proof (induction fs arbitrary: n ex)
  case (Cons f fs)
  obtain t m where t: "task_new f n = (t, m)" by (cases "task_new f n")
  with Cons.IH show ?case by (cases "spawn A t ex") simp_all
qed simp

text \<open>
  C22: A run over the ready tasks of an executor whose futures are cooperative returns: every task that
  was ready is polled, at the end no task is ready and the processor goes to sleep, and a waker is kept
  only for tasks that still exist.
\<close>

theorem executor_polls_ready:
  assumes "aq_docs A items cap" and "cooperative poll rank" and "executor_inv items cap ex"
  shows "\<exists>ex' w' polled. run_ready_tasks A (logged poll) ex (w, []) = Inr (ex', w', polled) \<and>
    set (items (task_queue ex)) \<inter> dom (tasks ex) \<subseteq> set polled \<and>
    sleep_if_idle A ex' = Enable_And_Hlt \<and> executor_inv items cap ex'"
proof -
  obtain ex' w' l' where "run_ready_loop A (logged poll) ex (w, []) = Some (Inr (ex', w', l'))"
    "executor_inv items cap ex'" "items (task_queue ex') = []"
    "set [] \<union> (set (items (task_queue ex)) \<inter> dom (tasks ex)) \<subseteq> set l'"
    using run_ready_loop_ok [OF assms, of w "[]"] by blast
  then show ?thesis
    by (intro exI [of _ ex'] exI [of _ w'] exI [of _ l'])
      (simp add: run_ready_tasks_def sleep_if_idle_def aq_is_empty_iff [OF assms(1)])
qed

text \<open>
  Up to 100 tasks can be spawned before the executor runs; the next one panics. Task numbers do not
  collide.
\<close>

theorem spawn_capacity:
  assumes "aq_docs A items cap"
  shows "is_ok (spawn_all A fs n (executor_new A)) \<longleftrightarrow> length fs \<le> 100"
proof -
  have new: "executor_inv items cap (executor_new A)" "spawned items n 0 (executor_new A)"
    "cap (task_queue (executor_new A)) = 100"
    using executor_inv_new [OF assms] aq_newD [OF assms, of 100] by (simp_all add: spawned_def executor_new_def)
  show ?thesis
  proof (cases "length fs \<le> 100")
    case True
    with spawn_all_ok [OF assms new(1,2) _ new(3), of fs] show ?thesis by (auto simp: is_ok_iff)
  next
    case False
    then obtain f gs where fs: "fs = take 100 fs @ f # gs" by (metis id_take_nth_drop linorder_not_le)
    have "length (take 100 fs) = 100" using False by simp
    with spawn_all_ok [OF assms new(1,2) _ new(3), of "take 100 fs"] obtain m ex where
      s: "spawn_all A (take 100 fs) n (executor_new A) = Inr (m, ex)" "spawned items n 100 ex"
      "cap (task_queue ex) = 100"
      by auto
    then have "aq_push A (task_queue ex) i = None" for i
      by (intro aq_push_full [OF assms]) (simp add: spawned_def)
    then have "\<not> is_ok (spawn A t ex)" for t by (simp add: spawn_def)
    moreover have "spawn_all A fs n (executor_new A) = spawn_all A (f # gs) m ex"
      by (subst fs) (simp add: spawn_all_append s(1) del: append_take_drop_id)
    ultimately show ?thesis using False by (auto simp: is_ok_iff bindR_Inr_iff split: prod.splits)
  qed
qed

text \<open>
  The simple executor returns if every future is done after finitely many polls, and then it has no
  task left.
\<close>

theorem simple_run_returns:
  assumes "\<And>f w. \<exists>r f' woken w'. poll f Dummy_Waker w = Inr (r, f', woken, w') \<and> (r = Pending \<longrightarrow> rank f' < (rank f :: nat))"
  shows "\<exists>w'. simple_run poll ex w = Some (Inr (ex\<lparr>simple_queue := []\<rparr>, w'))"
proof (induction "\<Sum>t\<leftarrow>simple_queue ex. Suc (rank (future t))" arbitrary: ex w rule: less_induct)
  case less
  show ?case
  proof (cases "simple_queue ex")
    case Nil
    then show ?thesis by (subst simple_run.simps) simp
  next
    case (Cons t ts)
    obtain r f woken w1 where p: "poll (future t) Dummy_Waker w = Inr (r, f, woken, w1)"
      and dec: "r = Pending \<Longrightarrow> rank f < rank (future t)"
      using assms by blast
    show ?thesis
    proof (cases r)
      case Ready
      have "\<exists>w'. simple_run poll (ex\<lparr>simple_queue := ts\<rparr>) w1 = Some (Inr (ex\<lparr>simple_queue := []\<rparr>, w'))"
        using less [of "ex\<lparr>simple_queue := ts\<rparr>" w1] Cons by simp
      with Ready Cons p show ?thesis by (subst simple_run.simps) (simp add: task_poll_def)
    next
      case Pending
      then have "rank f < rank (future t)" by (rule dec)
      then have "\<exists>w'. simple_run poll (ex\<lparr>simple_queue := ts @ [t\<lparr>future := f\<rparr>]\<rparr>) w1 = Some (Inr (ex\<lparr>simple_queue := []\<rparr>, w'))"
        using less [of "ex\<lparr>simple_queue := ts @ [t\<lparr>future := f\<rparr>]\<rparr>" w1] Cons by simp
      with Pending Cons p show ?thesis by (subst simple_run.simps) (simp add: task_poll_def)
    qed
  qed
qed

section \<open>Instances\<close>

text \<open>A future that yields a number of times and is then done.\<close>

definition count_down :: "(nat, TaskWaker, unit) poll_fn" where
  "count_down n k w = Inr (if n = 0 then (Ready, 0, [], w) else (Pending, n - 1, [k], w))"

definition count_down_simple :: "(nat, dummy_waker, unit) poll_fn" where
  "count_down_simple n k w = Inr (if n = 0 then (Ready, 0, [], w) else (Pending, n - 1, [], w))"

lemma count_down_cooperative: "cooperative count_down (\<lambda>n. n)"
  by (simp add: cooperative_def count_down_def)

theorem spawn_capacity_witness:
  "is_ok (spawn_all list_queue [0 :: nat, 5] 7 (executor_new list_queue))"
  using spawn_capacity [OF list_queue_docs, of "[0, 5]" 7] by (simp del: spawn_all.simps)

theorem executor_polls_ready_witness:
  "\<exists>n ex ex' w' polled. spawn_all list_queue [0, 5] 7 (executor_new list_queue) = Inr (n, ex) \<and>
     run_ready_tasks list_queue (logged count_down) ex ((), []) = Inr (ex', w', polled) \<and>
     {TaskId 7, TaskId 8} \<subseteq> set polled"
proof -
  have new: "executor_inv snd fst (executor_new list_queue)" "spawned snd 7 0 (executor_new list_queue)"
    "fst (task_queue (executor_new list_queue)) = 100"
    using executor_inv_new [OF list_queue_docs] by (simp_all add: spawned_def executor_new_def list_queue_def)
  obtain n ex where s: "spawn_all list_queue [0, 5 :: nat] 7 (executor_new list_queue) = Inr (n, ex)"
    "executor_inv snd fst ex" "spawned snd 7 2 ex"
    using spawn_all_ok [OF list_queue_docs new(1,2) _ new(3), of "[0, 5 :: nat]"]
    by (auto simp del: spawn_all.simps simp: numeral_2_eq_2)
  have "set (snd (task_queue ex)) \<inter> dom (tasks ex) = {TaskId 7, TaskId 8}"
    using s(3) by (auto simp: spawned_def numeral_2_eq_2)
  with executor_polls_ready [OF list_queue_docs count_down_cooperative s(2), of "()"] s(1)
  show ?thesis by fastforce
qed

theorem simple_run_returns_witness:
  "\<exists>w'. simple_run count_down_simple \<lparr>simple_queue = [\<lparr>task_id = TaskId 0, future = 3\<rparr>]\<rparr> () =
     Some (Inr (\<lparr>simple_queue = []\<rparr>, w'))"
proof -
  have "\<exists>r f' woken w'. count_down_simple f Dummy_Waker w = Inr (r, f', woken, w') \<and> (r = Pending \<longrightarrow> f' < f)" for f w
    by (simp add: count_down_simple_def)
  from simple_run_returns [of count_down_simple "\<lambda>n. n", OF this] show ?thesis by fastforce
qed

end
