(* ===== verification/Vga.thy ===== *)
theory Vga
  imports Prelude
begin

text \<open>
  \<^verbatim>\<open>kernel/src/vga_text_buffer.rs\<close>: text output on a linear frame buffer, with the subset of the ANSI
  escape sequences that the logger produces. A \<^verbatim>\<open>char\<close> is its code point. The font comes from the
  crate \<^verbatim>\<open>noto-sans-mono-bitmap\<close>: its lookup function and its two dimensions are the fields of a
  record of parameters, and \<open>font_docs\<close> states that every glyph is a raster of these dimensions and
  that the replacement character has one.
\<close>

section \<open>Data\<close>

datatype Color = Black | Blue | Green | Cyan | Red | Magenta | Brown | LightGray | DarkGray
  | LightBlue | LightGreen | LightCyan | LightRed | Pink | Yellow | White

fun rgb :: "Color \<Rightarrow> u8 list" where
  "rgb Black = [0x00, 0x00, 0x00, 0]"
| "rgb Blue = [0x00, 0x00, 0xFF, 0]"
| "rgb Green = [0x00, 0xFF, 0x00, 0]"
| "rgb Cyan = [0x00, 0xFF, 0xFF, 0]"
| "rgb Red = [0xFF, 0x00, 0x00, 0]"
| "rgb Magenta = [0xFF, 0x00, 0xFF, 0]"
| "rgb Brown = [0xFF, 0xFF, 0x80, 0]"
| "rgb LightGray = [0x55, 0x55, 0x55, 0]"
| "rgb DarkGray = [0xAA, 0xAA, 0xAA, 0]"
| "rgb LightBlue = [0x00, 0x00, 0x80, 0]"
| "rgb LightGreen = [0x00, 0x80, 0x80, 0]"
| "rgb LightCyan = [0x00, 0x80, 0x80, 0]"
| "rgb LightRed = [0x80, 0x00, 0x00, 0]"
| "rgb Pink = [0xFF, 0xCC, 0xCC, 0]"
| "rgb Yellow = [0xFF, 0xFF, 0x00, 0]"
| "rgb White = [0xFF, 0xFF, 0xFF, 0]"

datatype PixelFormat = Rgb | Bgr | U8 | UnknownFormat nat nat nat

record FrameBufferInfo =
  byte_len :: nat
  fb_width :: nat
  fb_height :: nat
  pixel_format :: PixelFormat
  bytes_per_pixel :: nat
  stride :: nat

datatype WriterState = Normal | Escape | FirstCode | SecondCode nat | Finishing nat nat | StColor Color

record Writer =
  framebuffer :: "u8 list"
  w_info :: FrameBufferInfo
  last_width :: nat
  x_pos :: nat
  y_pos :: nat
  w_color :: Color
  w_state :: WriterState

record RasterizedChar =
  raster :: "u8 list list"
  glyph_width :: nat

record font =
  get_raster :: "nat \<Rightarrow> RasterizedChar option"
  CHAR_RASTER_HEIGHT :: nat
  CHAR_RASTER_WIDTH :: nat

definition LINE_SPACING :: nat where "LINE_SPACING = 2"
definition LETTER_SPACING :: nat where "LETTER_SPACING = 0"
definition BORDER_PADDING :: nat where "BORDER_PADDING = 1"
definition BACKUP_CHAR :: nat where "BACKUP_CHAR = 0xFFFD"

definition writer_static :: Writer where
  "writer_static = \<lparr>framebuffer = [],
     w_info = \<lparr>byte_len = 0, fb_width = 0, fb_height = 0, pixel_format = U8, bytes_per_pixel = 0, stride = 0\<rparr>,
     last_width = 0, x_pos = 0, y_pos = 0, w_color = White, w_state = Normal\<rparr>"

section \<open>Escape sequences\<close>

definition ansi_color :: "nat \<Rightarrow> Color option" where
  "ansi_color second =
     (if second = 0x30 then Some Black
      else if second = 0x31 then Some Red
      else if second = 0x32 then Some Green
      else if second = 0x33 then Some Yellow
      else if second = 0x34 then Some Blue
      else if second = 0x35 then Some Magenta
      else if second = 0x36 then Some Cyan
      else if second = 0x37 then Some White
      else None)"

text \<open>\<^verbatim>\<open>WriterState::feed\<close>: the next state, and whether the character is to be printed.\<close>

fun feed :: "WriterState \<Rightarrow> nat \<Rightarrow> WriterState \<times> bool" where
  "feed Normal ch = (if ch \<noteq> 0x1B then (Normal, True) else (Escape, False))"
| "feed Escape ch = (if ch \<noteq> 0x5B then (Normal, True) else (FirstCode, False))"
| "feed FirstCode ch = (if ch = 0x30 then (Finishing ch ch, False) else (SecondCode ch, False))"
| "feed (SecondCode first) ch = (Finishing first ch, False)"
| "feed (Finishing first second) ch =
     (if ch \<noteq> 0x6D then (Normal, True)
      else if first = 0x30 then (StColor White, False)
      else if first \<noteq> 0x33 then (Normal, False)
      else case ansi_color second of
             Some color \<Rightarrow> (StColor color, False)
           | None \<Rightarrow> (Normal, False))"
| "feed (StColor c) ch = (StColor c, True)"

section \<open>Drawing\<close>

definition get_char_raster :: "font \<Rightarrow> nat \<Rightarrow> RasterizedChar outcome" where
  "get_char_raster F c =
     (case get_raster F c of
        Some r \<Rightarrow> Inr r
      | None \<Rightarrow> unwrapR ''Should get raster of backup char.'' (get_raster F BACKUP_CHAR))"

definition carriage_return :: "Writer \<Rightarrow> Writer" where
  "carriage_return self = self\<lparr>x_pos := BORDER_PADDING\<rparr>"

definition newline :: "font \<Rightarrow> Writer \<Rightarrow> Writer outcome" where
  "newline F self =
     bindR (add_usize (y_pos self) (CHAR_RASTER_HEIGHT F + LINE_SPACING)) (\<lambda>y.
       Inr (carriage_return (self\<lparr>y_pos := y\<rparr>)))"

definition clear :: "Writer \<Rightarrow> Writer" where
  "clear self =
     self\<lparr>x_pos := BORDER_PADDING, y_pos := BORDER_PADDING,
          framebuffer := replicate (length (framebuffer self)) 0\<rparr>"

definition width :: "Writer \<Rightarrow> nat" where
  [simp]: "width self = fb_width (w_info self)"

definition height :: "Writer \<Rightarrow> nat" where
  [simp]: "height self = fb_height (w_info self)"

definition set_buffer :: "Writer \<Rightarrow> u8 list \<Rightarrow> Writer" where
  "set_buffer self buf = clear (self\<lparr>framebuffer := buf\<rparr>)"

definition set_fb :: "Writer \<Rightarrow> u8 list \<Rightarrow> FrameBufferInfo \<Rightarrow> Writer" where
  "set_fb self buf info = (set_buffer self buf)\<lparr>w_info := info\<rparr>"

text \<open>\<^verbatim>\<open>((value * intensity) / 255) as u8\<close>.\<close>

definition scale :: "u8 \<Rightarrow> u8 \<Rightarrow> u8" where
  "scale intensity x = word_of_nat ((unat x * unat intensity) div 255)"

definition get_color :: "Writer \<Rightarrow> u8 \<Rightarrow> u8 list outcome" where
  "get_color self intensity =
     (let color = map (scale intensity) (rgb (w_color self))
      in case pixel_format (w_info self) of
           Rgb \<Rightarrow> Inr color
         | Bgr \<Rightarrow> Inr [color ! 2, color ! 1, color ! 0, color ! 3]
         | U8 \<Rightarrow> Inr [if unat intensity > 200 then 0xF else 0, 0, 0, 0]
         | UnknownFormat _ _ _ \<Rightarrow> Inl (Panicked ''pixel format not supported in logger''))"

text \<open>The assignment of a slice: \<open>buf[at..at + n].copy_from_slice(src)\<close>.\<close>

definition copy_slice :: "'a list \<Rightarrow> nat \<Rightarrow> nat \<Rightarrow> 'a list \<Rightarrow> 'a list outcome" where
  "copy_slice buf at n src =
     (if at + n > length buf then Inl Index_Out_Of_Bounds
      else if length src \<noteq> n then Inl (Panicked ''source slice length does not match'')
      else Inr (take at buf @ src @ drop (at + n) buf))"

definition write_pixel :: "Writer \<Rightarrow> nat \<Rightarrow> nat \<Rightarrow> u8 \<Rightarrow> Writer outcome" where
  "write_pixel self x y intensity =
     bindR (bindR (mul_usize y (stride (w_info self))) (\<lambda>r. add_usize r x)) (\<lambda>pixel_offset.
     bindR (get_color self intensity) (\<lambda>color.
     let bpp = bytes_per_pixel (w_info self)
     in bindR (mul_usize pixel_offset bpp) (\<lambda>byte_offset.
     bindR (add_usize byte_offset bpp) (\<lambda>byte_end.
     bindR (if bpp > length color then Inl Index_Out_Of_Bounds else Inr (take bpp color)) (\<lambda>src.
     bindR (copy_slice (framebuffer self) byte_offset bpp src) (\<lambda>buf.
       if byte_offset < length buf then Inr (self\<lparr>framebuffer := buf\<rparr>) else Inl Index_Out_Of_Bounds))))))"

definition write_row :: "nat \<Rightarrow> u8 list \<Rightarrow> Writer \<Rightarrow> Writer outcome" where
  "write_row y row self =
     forR (\<lambda>(x, byte) self.
       bindR (add_usize (x_pos self) x) (\<lambda>px.
       bindR (add_usize (y_pos self) y) (\<lambda>py. write_pixel self px py byte))) (enumerate 0 row) self"

definition write_rendered_char :: "Writer \<Rightarrow> RasterizedChar \<Rightarrow> Writer outcome" where
  "write_rendered_char self rendered_char =
     bindR (forR (\<lambda>(y, row). write_row y row) (enumerate 0 (raster rendered_char)) self) (\<lambda>self.
     let self = self\<lparr>last_width := glyph_width rendered_char\<rparr>
     in bindR (add_usize (last_width self) LETTER_SPACING) (\<lambda>w.
        bindR (add_usize (x_pos self) w) (\<lambda>x. Inr (self\<lparr>x_pos := x\<rparr>))))"

text \<open>The part of \<^verbatim>\<open>write_char\<close> that prints a character the escape state lets through.\<close>

definition put_char :: "font \<Rightarrow> Writer \<Rightarrow> nat \<Rightarrow> Writer outcome" where
  "put_char F self c =
     (if c = 0x0A then newline F self
      else if c = 0x0D then Inr (carriage_return self)
      else
        bindR (add_usize (x_pos self) (CHAR_RASTER_WIDTH F)) (\<lambda>new_xpos.
        bindR (if new_xpos \<ge> width self then newline F self else Inr self) (\<lambda>self.
        bindR (bindR (add_usize (y_pos self) (CHAR_RASTER_HEIGHT F)) (\<lambda>y. add_usize y BORDER_PADDING)) (\<lambda>new_ypos.
        let self = (if new_ypos \<ge> height self then clear self else self)
        in bindR (get_char_raster F c) (\<lambda>r. write_rendered_char self r)))))"

definition write_char :: "font \<Rightarrow> Writer \<Rightarrow> nat \<Rightarrow> Writer outcome" where
  "write_char F self c =
     (let (st, printed) = feed (w_state self) c;
          self = self\<lparr>w_state := st\<rparr>
      in if \<not> printed then
           (case w_state self of
              StColor color \<Rightarrow> Inr (self\<lparr>w_state := Normal, w_color := color\<rparr>)
            | _ \<Rightarrow> Inr self)
         else put_char F self c)"

definition write_string :: "font \<Rightarrow> nat list \<Rightarrow> Writer \<Rightarrow> Writer outcome" where
  "write_string F s self = forR (\<lambda>c self. write_char F self c) s self"

definition backspace :: "font \<Rightarrow> Writer \<Rightarrow> Writer outcome" where
  "backspace F self =
     bindR (sub_usize (x_pos self) (last_width self)) (\<lambda>x.
     bindR (write_char F (self\<lparr>x_pos := x\<rparr>) 0x20) (\<lambda>self.
     bindR (sub_usize (x_pos self) (last_width self)) (\<lambda>x.
       Inr (self\<lparr>x_pos := x\<rparr>))))"

section \<open>The screen\<close>

definition glyph_ok :: "font \<Rightarrow> RasterizedChar \<Rightarrow> bool" where
  "glyph_ok F r \<longleftrightarrow> length (raster r) = CHAR_RASTER_HEIGHT F \<and> glyph_width r = CHAR_RASTER_WIDTH F \<and>
     (\<forall>row \<in> set (raster r). length row = CHAR_RASTER_WIDTH F)"

definition font_docs :: "font \<Rightarrow> bool" where
  "font_docs F \<longleftrightarrow> CHAR_RASTER_HEIGHT F = 16 \<and> 1 < CHAR_RASTER_WIDTH F \<and> CHAR_RASTER_WIDTH F \<le> 16 \<and>
     get_raster F BACKUP_CHAR \<noteq> None \<and> (\<forall>c r. get_raster F c = Some r \<longrightarrow> glyph_ok F r)"

text \<open>
  A usable frame buffer: a supported pixel format of one to four bytes per pixel, lines no longer than
  the stride, all lines inside the buffer, and room for one character inside the border.
\<close>

definition screen_ok :: "font \<Rightarrow> Writer \<Rightarrow> bool" where
  "screen_ok F w \<longleftrightarrow>
     (let i = w_info w
      in pixel_format i \<in> {Rgb, Bgr, U8} \<and> 1 \<le> bytes_per_pixel i \<and> bytes_per_pixel i \<le> 4 \<and>
         fb_width i \<le> stride i \<and> fb_height i * stride i * bytes_per_pixel i \<le> length (framebuffer w) \<and>
         length (framebuffer w) < 2 ^ 63 \<and>
         CHAR_RASTER_WIDTH F + BORDER_PADDING \<le> fb_width i \<and>
         CHAR_RASTER_HEIGHT F + BORDER_PADDING \<le> fb_height i)"

definition pixel :: "Writer \<Rightarrow> nat \<Rightarrow> nat \<Rightarrow> u8 list" where
  "pixel w x y =
     take (bytes_per_pixel (w_info w))
       (drop ((y * stride (w_info w) + x) * bytes_per_pixel (w_info w)) (framebuffer w))"

text \<open>The bytes of a pixel of the given intensity in the current colour.\<close>

definition shade :: "Writer \<Rightarrow> u8 \<Rightarrow> u8 list" where
  "shade w i = (case get_color w i of Inl _ \<Rightarrow> [] | Inr c \<Rightarrow> take (bytes_per_pixel (w_info w)) c)"

text \<open>\<open>w'\<close> is \<open>w\<close> except for the pixels in \<open>S\<close>, which show \<open>f\<close>.\<close>

definition same_shape :: "Writer \<Rightarrow> Writer \<Rightarrow> bool" where
  "same_shape w w' \<longleftrightarrow>
     w' = w\<lparr>framebuffer := framebuffer w'\<rparr> \<and> length (framebuffer w') = length (framebuffer w)"

definition painted :: "Writer \<Rightarrow> Writer \<Rightarrow> (nat \<times> nat) set \<Rightarrow> (nat \<Rightarrow> nat \<Rightarrow> u8 list) \<Rightarrow> bool" where
  "painted w w' S f \<longleftrightarrow> same_shape w w' \<and>
     (\<forall>x < stride (w_info w). \<forall>y < fb_height (w_info w).
        pixel w' x y = (if (x, y) \<in> S then f x y else pixel w x y))"

lemma same_shape_refl [simp]: "same_shape w w"
  by (simp add: same_shape_def)

lemma same_shape_trans: "same_shape w w1 \<Longrightarrow> same_shape w1 w2 \<Longrightarrow> same_shape w w2"
  unfolding same_shape_def by (cases w; cases w1; cases w2) simp

lemma same_shape_fields:
  assumes "same_shape w w'"
  shows "w_info w' = w_info w" "x_pos w' = x_pos w" "y_pos w' = y_pos w" "w_color w' = w_color w"
    "w_state w' = w_state w" "last_width w' = last_width w" "length (framebuffer w') = length (framebuffer w)"
proof -
  have "w' = w\<lparr>framebuffer := framebuffer w'\<rparr>" and l: "length (framebuffer w') = length (framebuffer w)"
    using assms by (auto simp: same_shape_def)
  then obtain b where "w' = w\<lparr>framebuffer := b\<rparr>" by blast
  then show "w_info w' = w_info w" "x_pos w' = x_pos w" "y_pos w' = y_pos w" "w_color w' = w_color w"
    "w_state w' = w_state w" "last_width w' = last_width w" by simp_all
  show "length (framebuffer w') = length (framebuffer w)" by (rule l)
qed

lemma shade_cong: "w_info w' = w_info w \<Longrightarrow> w_color w' = w_color w \<Longrightarrow> shade w' i = shade w i"
  unfolding shade_def get_color_def by (simp only:)

lemma same_shape_shade: "same_shape w w' \<Longrightarrow> shade w' i = shade w i"
  by (rule shade_cong) (simp_all add: same_shape_fields)

lemma same_shape_screen: "same_shape w w' \<Longrightarrow> screen_ok F w' \<longleftrightarrow> screen_ok F w"
  by (simp add: screen_ok_def same_shape_fields)

lemma painted_refl: "painted w w {} f"
  by (simp add: painted_def)

lemma painted_trans:
  assumes "painted w w1 S f" and "painted w1 w2 T f"
  shows "painted w w2 (S \<union> T) f"
proof -
  have sh: "same_shape w w1" "same_shape w1 w2" using assms by (simp_all add: painted_def)
  have "pixel w2 x y = (if (x, y) \<in> S \<union> T then f x y else pixel w x y)"
    if "x < stride (w_info w)" "y < fb_height (w_info w)" for x y
    using assms that unfolding painted_def same_shape_fields(1) [OF sh(1)] by simp
  with same_shape_trans [OF sh] show ?thesis by (simp add: painted_def)
qed

text \<open>A loop of turns that each paint some pixels paints all of them.\<close>

lemma forR_paint:
  assumes "\<And>a w'. a \<in> set as \<Longrightarrow> same_shape w w' \<Longrightarrow> \<exists>w''. act a w' = Inr w'' \<and> painted w' w'' (S a) f"
  shows "\<exists>w'. forR act as w = Inr w' \<and> painted w w' (\<Union>a \<in> set as. S a) f"
  using assms
proof (induction as arbitrary: w)
  case Nil
  then show ?case by (simp add: painted_refl)
next
  case (Cons a as)
  obtain w1 where w1: "act a w = Inr w1" "painted w w1 (S a) f"
    using Cons.prems [of a w] by auto
  then have sh: "same_shape w w1" by (simp add: painted_def)
  have "\<exists>w'. forR act as w1 = Inr w' \<and> painted w1 w' (\<Union>a \<in> set as. S a) f"
    by (rule Cons.IH, rule Cons.prems) (auto intro: same_shape_trans [OF sh])
  then obtain w2 where "forR act as w1 = Inr w2" "painted w1 w2 (\<Union>a \<in> set as. S a) f" by blast
  with w1(1) painted_trans [OF w1(2)] show ?case by auto
qed

lemma slice_update:
  assumes "length src = n" and "at + n \<le> length buf"
  shows "take n (drop at (take at buf @ src @ drop (at + n) buf)) = src"
    and "b + n \<le> at \<or> at + n \<le> b \<Longrightarrow>
      take n (drop b (take at buf @ src @ drop (at + n) buf)) = take n (drop b buf)"
proof -
  show "take n (drop at (take at buf @ src @ drop (at + n) buf)) = src" using assms by simp
  assume b: "b + n \<le> at \<or> at + n \<le> b"
  have len: "length (take at buf @ src @ drop (at + n) buf) = length buf" using assms by simp
  show "take n (drop b (take at buf @ src @ drop (at + n) buf)) = take n (drop b buf)"
  proof (rule nth_equalityI)
    show "length (take n (drop b (take at buf @ src @ drop (at + n) buf))) = length (take n (drop b buf))"
      unfolding length_take length_drop len ..
    fix i assume "i < length (take n (drop b (take at buf @ src @ drop (at + n) buf)))"
    then show "take n (drop b (take at buf @ src @ drop (at + n) buf)) ! i = take n (drop b buf) ! i"
      using assms b by (auto simp: nth_append)
  qed
qed

text \<open>Two different pixels of one line have different places in the buffer.\<close>

lemma pixel_apart:
  fixes x x' y y' s b :: nat
  assumes "x < s" and "x' < s" and "(x, y) \<noteq> (x', y')"
  shows "(y' * s + x') * b + b \<le> (y * s + x) * b \<or> (y * s + x) * b + b \<le> (y' * s + x') * b"
proof -
  have "y * s + x \<noteq> y' * s + x'"
  proof
    assume "y * s + x = y' * s + x'"
    then have "(y * s + x) div s = (y' * s + x') div s" "(y * s + x) mod s = (y' * s + x') mod s" by simp_all
    then show False using assms by simp
  qed
  then have "Suc (y' * s + x') \<le> y * s + x \<or> Suc (y * s + x) \<le> y' * s + x'" by linarith
  then show ?thesis
  proof
    assume "Suc (y' * s + x') \<le> y * s + x"
    from mult_le_mono1 [OF this, of b] show ?thesis by simp
  next
    assume "Suc (y * s + x) \<le> y' * s + x'"
    from mult_le_mono1 [OF this, of b] show ?thesis by simp
  qed
qed

lemma pixel_in_buffer:
  fixes x y s h b :: nat
  assumes "x < s" and "y < h"
  shows "(y * s + x) * b + b \<le> h * s * b"
proof -
  have "y * s + x + 1 \<le> (y + 1) * s" using assms(1) by simp
  also have "\<dots> \<le> h * s" using assms(2) by (intro mult_le_mono1) simp
  finally have "(y * s + x + 1) * b \<le> h * s * b" by (rule mult_le_mono1)
  then show ?thesis by (simp add: add_mult_distrib)
qed

lemma get_color_ok:
  assumes "screen_ok F w"
  obtains c where "get_color w i = Inr c" and "length c = 4"
  using assms by (cases "w_color w"; cases "pixel_format (w_info w)")
    (auto simp: screen_ok_def get_color_def Let_def)

lemma write_pixel_paints:
  assumes ok: "screen_ok F w" and x: "x < stride (w_info w)" and y: "y < fb_height (w_info w)"
    and f: "f x y = shade w i"
  shows "\<exists>w'. write_pixel w x y i = Inr w' \<and> painted w w' {(x, y)} f"
proof -
  let ?s = "stride (w_info w)" and ?h = "fb_height (w_info w)" and ?b = "bytes_per_pixel (w_info w)"
  let ?at = "(y * ?s + x) * ?b"
  obtain c where c: "get_color w i = Inr c" "length c = 4" using get_color_ok [OF ok] by blast
  have b: "1 \<le> ?b" "?b \<le> 4" "?h * ?s * ?b \<le> length (framebuffer w)" "length (framebuffer w) < 2 ^ 63"
    using ok by (auto simp: screen_ok_def Let_def)
  have inb: "?at + ?b \<le> length (framebuffer w)" using pixel_in_buffer [OF x y, of ?b] b(3) by linarith
  have lt: "y * ?s < 2 ^ 64" "y * ?s + x < 2 ^ 64" "?at < 2 ^ 64" "?at + ?b < 2 ^ 64"
  proof -
    define p at where "p = y * ?s + x" and "at = ?at"
    have "p \<le> at" "y * ?s \<le> p" "at + ?b < 2 ^ 63" using b(1,4) inb by (simp_all add: p_def at_def)
    then show "y * ?s < 2 ^ 64" "y * ?s + x < 2 ^ 64" "?at < 2 ^ 64" "?at + ?b < 2 ^ 64"
      unfolding at_def [symmetric] unfolding p_def [symmetric] by simp_all
  qed
  let ?buf = "take ?at (framebuffer w) @ take ?b c @ drop (?at + ?b) (framebuffer w)"
  have wp: "write_pixel w x y i = Inr (w\<lparr>framebuffer := ?buf\<rparr>)"
    using lt inb b(1,2) c by (simp add: write_pixel_def usize_defs copy_slice_def Let_def)
  have len: "length (take ?b c) = ?b" using b(2) c(2) by simp
  have "pixel (w\<lparr>framebuffer := ?buf\<rparr>) x' y' = (if (x', y') \<in> {(x, y)} then f x' y' else pixel w x' y')"
    if "x' < ?s" for x' y'
  proof (cases "(x', y') = (x, y)")
    case True
    then show ?thesis using slice_update(1) [OF len inb] f c(1) by (simp add: pixel_def shade_def)
  next
    case False
    then show ?thesis
      using slice_update(2) [OF len inb, of "(y' * ?s + x') * ?b"] pixel_apart [OF x that, of y y' ?b]
      by (auto simp: pixel_def)
  qed
  moreover have "same_shape w (w\<lparr>framebuffer := ?buf\<rparr>)" using len inb by (simp add: same_shape_def)
  ultimately show ?thesis using wp by (simp add: painted_def)
qed

text \<open>The pixels of the character cell at \<open>(x0, y0)\<close>, and what a glyph shows there.\<close>

definition cell :: "font \<Rightarrow> nat \<Rightarrow> nat \<Rightarrow> (nat \<times> nat) set" where
  "cell F x0 y0 =
     {(x, y). x0 \<le> x \<and> x < x0 + CHAR_RASTER_WIDTH F \<and> y0 \<le> y \<and> y < y0 + CHAR_RASTER_HEIGHT F}"

definition glyph_pixel :: "Writer \<Rightarrow> RasterizedChar \<Rightarrow> nat \<Rightarrow> nat \<Rightarrow> u8 list" where
  "glyph_pixel w r x y = shade w (raster r ! (y - y_pos w) ! (x - x_pos w))"

lemma write_row_paints:
  assumes ok: "screen_ok F w" and x: "x_pos w + length row \<le> stride (w_info w)"
    and y: "y_pos w + y < fb_height (w_info w)" "y_pos w + y < 2 ^ 64" "stride (w_info w) < 2 ^ 64"
    and f: "\<And>j. j < length row \<Longrightarrow> f (x_pos w + j) (y_pos w + y) = shade w (row ! j)"
  shows "\<exists>w'. write_row y row w = Inr w' \<and>
    painted w w' {(px, y_pos w + y) | px. x_pos w \<le> px \<and> px < x_pos w + length row} f"
proof -
  let ?S = "\<lambda>(j, byte :: u8). {(x_pos w + j, y_pos w + y)}"
  let ?act = "\<lambda>(j, byte) self. bindR (add_usize (x_pos self) j) (\<lambda>px.
       bindR (add_usize (y_pos self) y) (\<lambda>py. write_pixel self px py byte))"
  have "\<exists>w'. forR ?act (enumerate 0 row) w = Inr w' \<and> painted w w' (\<Union>a \<in> set (enumerate 0 row). ?S a) f"
  proof (rule forR_paint)
    fix a w' assume a: "a \<in> set (enumerate 0 row)" and sh: "same_shape w w'"
    then obtain j where j: "a = (j, row ! j)" "j < length row" by (elim enumerateE)
    have "\<exists>w''. write_pixel w' (x_pos w + j) (y_pos w + y) (row ! j) = Inr w'' \<and>
        painted w' w'' {(x_pos w + j, y_pos w + y)} f"
      by (rule write_pixel_paints [where F = F])
        (use ok sh x y(1) j f in \<open>auto simp: same_shape_screen same_shape_fields same_shape_shade\<close>)
    then show "\<exists>w''. ?act a w' = Inr w'' \<and> painted w' w'' (?S a) f"
      using j x y by (simp add: same_shape_fields [OF sh] add_usize_def)
  qed
  moreover have "(\<Union>a \<in> set (enumerate 0 row). ?S a) =
      {(px, y_pos w + y) | px. x_pos w \<le> px \<and> px < x_pos w + length row}"
    by (auto simp: in_set_enumerate_eq le_iff_add intro!: bexI [of _ "(_, row ! _)"])
  ultimately show ?thesis by (simp add: write_row_def)
qed

lemma write_rendered_char_paints:
  assumes ok: "screen_ok F w" and r: "glyph_ok F r" and F: "font_docs F"
    and x: "x_pos w + CHAR_RASTER_WIDTH F \<le> fb_width (w_info w)"
    and y: "y_pos w + CHAR_RASTER_HEIGHT F \<le> fb_height (w_info w)"
  shows "\<exists>w'. write_rendered_char w r =
      Inr (w'\<lparr>last_width := CHAR_RASTER_WIDTH F, x_pos := x_pos w + CHAR_RASTER_WIDTH F\<rparr>) \<and>
    painted w w' (cell F (x_pos w) (y_pos w)) (glyph_pixel w r)"
proof -
  let ?W = "CHAR_RASTER_WIDTH F" and ?H = "CHAR_RASTER_HEIGHT F" and ?i = "w_info w"
  have b: "1 \<le> bytes_per_pixel ?i" "fb_width ?i \<le> stride ?i"
    "fb_height ?i * stride ?i * bytes_per_pixel ?i < 2 ^ 63" "1 \<le> fb_height ?i" "1 \<le> stride ?i"
    using ok by (auto simp: screen_ok_def Let_def BORDER_PADDING_def)
  define p where "p = fb_height ?i * stride ?i * bytes_per_pixel ?i"
  have "fb_height ?i \<le> p" "stride ?i \<le> p" "p < 2 ^ 63" using b by (simp_all add: p_def)
  then have lt: "fb_height ?i < 2 ^ 64" "stride ?i < 2 ^ 64" by simp_all
  have rows: "length (raster r) = ?H" "\<And>row. row \<in> set (raster r) \<Longrightarrow> length row = ?W" "glyph_width r = ?W"
    using r by (auto simp: glyph_ok_def)
  let ?S = "\<lambda>(k, row :: u8 list). {(px, y_pos w + k) | px. x_pos w \<le> px \<and> px < x_pos w + ?W}"
  have "\<exists>w'. forR (\<lambda>(y, row). write_row y row) (enumerate 0 (raster r)) w = Inr w' \<and>
      painted w w' (\<Union>a \<in> set (enumerate 0 (raster r)). ?S a) (glyph_pixel w r)"
  proof (rule forR_paint)
    fix a w' assume "a \<in> set (enumerate 0 (raster r))" and sh: "same_shape w w'"
    then obtain k where k: "a = (k, raster r ! k)" "k < ?H"
      unfolding rows(1) [symmetric] by (elim enumerateE)
    have len: "length (raster r ! k) = ?W" using k rows by simp
    have "\<exists>w''. write_row k (raster r ! k) w' = Inr w'' \<and>
        painted w' w'' {(px, y_pos w' + k) | px. x_pos w' \<le> px \<and> px < x_pos w' + length (raster r ! k)} (glyph_pixel w r)"
      by (rule write_row_paints [where F = F])
        (use ok sh x y b lt k len in \<open>auto simp: same_shape_screen same_shape_fields same_shape_shade glyph_pixel_def\<close>)
    then show "\<exists>w''. (case a of (y, row) \<Rightarrow> write_row y row) w' = Inr w'' \<and> painted w' w'' (?S a) (glyph_pixel w r)"
      by (simp add: k len same_shape_fields [OF sh])
  qed
  moreover have "(\<Union>a \<in> set (enumerate 0 (raster r)). ?S a) = cell F (x_pos w) (y_pos w)"
    using rows(1) by (auto simp: in_set_enumerate_eq cell_def le_iff_add intro!: bexI [of _ "(_, raster r ! _)"])
  ultimately obtain w' where w': "forR (\<lambda>(y, row). write_row y row) (enumerate 0 (raster r)) w = Inr w'"
    "painted w w' (cell F (x_pos w) (y_pos w)) (glyph_pixel w r)" by auto
  have "x_pos w' = x_pos w" using w'(2) by (simp add: painted_def same_shape_fields)
  then have "write_rendered_char w r = Inr (w'\<lparr>last_width := ?W, x_pos := x_pos w + ?W\<rparr>)"
    using w'(1) rows(3) x b(2) lt F by (simp add: write_rendered_char_def usize_defs LETTER_SPACING_def font_docs_def Let_def)
  with w'(2) show ?thesis by blast
qed

section \<open>Printing a character\<close>

definition writer_ok :: "font \<Rightarrow> Writer \<Rightarrow> bool" where
  "writer_ok F w \<longleftrightarrow> screen_ok F w \<and> x_pos w \<le> fb_width (w_info w) \<and> (\<forall>c. w_state w \<noteq> StColor c)"

text \<open>The glyph of a character, and where it goes: on a new line if it does not fit, on a cleared screen if that line does not fit.\<close>

definition glyph_of :: "font \<Rightarrow> nat \<Rightarrow> RasterizedChar" where
  "glyph_of F c = (case get_raster F c of Some r \<Rightarrow> r | None \<Rightarrow> the (get_raster F BACKUP_CHAR))"

definition placed :: "font \<Rightarrow> Writer \<Rightarrow> Writer" where
  "placed F w =
     (let w = (if x_pos w + CHAR_RASTER_WIDTH F \<ge> fb_width (w_info w)
               then w\<lparr>y_pos := y_pos w + (CHAR_RASTER_HEIGHT F + LINE_SPACING), x_pos := BORDER_PADDING\<rparr> else w)
      in if y_pos w + CHAR_RASTER_HEIGHT F + BORDER_PADDING \<ge> fb_height (w_info w) then clear w else w)"

lemma screen_ok_lt:
  assumes "screen_ok F w"
  shows "fb_height (w_info w) < 2 ^ 63" and "stride (w_info w) < 2 ^ 63" and "fb_width (w_info w) < 2 ^ 63"
proof -
  let ?i = "w_info w"
  have b: "1 \<le> bytes_per_pixel ?i" "fb_width ?i \<le> stride ?i" "1 \<le> fb_height ?i" "1 \<le> stride ?i"
    "fb_height ?i * stride ?i * bytes_per_pixel ?i < 2 ^ 63"
    using assms by (auto simp: screen_ok_def Let_def BORDER_PADDING_def)
  define p where "p = fb_height ?i * stride ?i * bytes_per_pixel ?i"
  have "fb_height ?i \<le> p" "stride ?i \<le> p" "p < 2 ^ 63" using b by (simp_all add: p_def)
  then show "fb_height ?i < 2 ^ 63" "stride ?i < 2 ^ 63" "fb_width ?i < 2 ^ 63" using b(2) by simp_all
qed

lemma font_docs_glyph:
  assumes "font_docs F"
  shows "glyph_ok F (glyph_of F c)" and "get_char_raster F c = Inr (glyph_of F c)"
  using assms by (auto simp: font_docs_def glyph_of_def get_char_raster_def split: option.split)

lemma placed_fields:
  "w_info (placed F w) = w_info w" "w_color (placed F w) = w_color w" "w_state (placed F w) = w_state w"
  "length (framebuffer (placed F w)) = length (framebuffer w)"
  by (simp_all add: placed_def Let_def clear_def)

lemma placed_fits:
  assumes "screen_ok F w"
  shows "x_pos (placed F w) + CHAR_RASTER_WIDTH F \<le> fb_width (w_info w)"
    and "y_pos (placed F w) + CHAR_RASTER_HEIGHT F \<le> fb_height (w_info w)"
    and "y_pos (placed F w) \<le> max 1 (y_pos w + CHAR_RASTER_HEIGHT F + LINE_SPACING)"
  using assms by (auto simp: placed_def screen_ok_def Let_def clear_def BORDER_PADDING_def)

lemma put_char_draws:
  assumes F: "font_docs F" and ok: "screen_ok F w" "x_pos w \<le> fb_width (w_info w)" "y_pos w < 2 ^ 63"
    and c: "c \<noteq> 0x0A" "c \<noteq> 0x0D"
  shows "\<exists>w1. put_char F w c =
      Inr (w1\<lparr>last_width := CHAR_RASTER_WIDTH F, x_pos := x_pos (placed F w) + CHAR_RASTER_WIDTH F\<rparr>) \<and>
    painted (placed F w) w1 (cell F (x_pos (placed F w)) (y_pos (placed F w)))
      (glyph_pixel (placed F w) (glyph_of F c))"
proof -
  have H: "CHAR_RASTER_HEIGHT F = 16" "CHAR_RASTER_WIDTH F \<le> 16" using F by (auto simp: font_docs_def)
  have sc: "screen_ok F (placed F w)" using ok(1) by (simp add: screen_ok_def placed_fields)
  have "put_char F w c = write_rendered_char (placed F w) (glyph_of F c)"
    using c ok(2,3) screen_ok_lt [OF ok(1)] H
    by (simp add: put_char_def placed_def newline_def carriage_return_def usize_defs font_docs_glyph [OF F]
        LINE_SPACING_def BORDER_PADDING_def Let_def)
  with write_rendered_char_paints [OF sc font_docs_glyph(1) [OF F] F] placed_fits [OF ok(1)]
  show ?thesis by (simp add: placed_fields)
qed

lemma put_char_ok:
  assumes "font_docs F" and "writer_ok F w" and "y_pos w < 2 ^ 63"
  shows "\<exists>w'. put_char F w c = Inr w' \<and> writer_ok F w' \<and> y_pos w' \<le> y_pos w + 18 \<and>
    w_info w' = w_info w \<and> length (framebuffer w') = length (framebuffer w)"
proof -
  have H: "CHAR_RASTER_HEIGHT F = 16" "1 < CHAR_RASTER_WIDTH F" using assms(1) by (auto simp: font_docs_def)
  have ok: "screen_ok F w" "x_pos w \<le> fb_width (w_info w)" "\<And>k. w_state w \<noteq> StColor k"
    using assms(2) by (auto simp: writer_ok_def)
  consider "c = 0x0A" | "c = 0x0D" | "c \<noteq> 0x0A" "c \<noteq> 0x0D" by blast
  then show ?thesis
  proof cases
    case 3
    obtain w1 where w1: "put_char F w c =
        Inr (w1\<lparr>last_width := CHAR_RASTER_WIDTH F, x_pos := x_pos (placed F w) + CHAR_RASTER_WIDTH F\<rparr>)"
      "same_shape (placed F w) w1"
      using put_char_draws [OF assms(1) ok(1,2) assms(3) 3] by (auto simp: painted_def)
    note f = same_shape_fields [OF w1(2)] placed_fields placed_fits [OF ok(1)]
    have "y_pos (placed F w) \<le> y_pos w + 18" using f(14) H by (auto simp: LINE_SPACING_def)
    then show ?thesis using w1(1) f ok by (auto simp: writer_ok_def screen_ok_def)
  qed (use ok assms(3) H in \<open>auto simp: put_char_def newline_def carriage_return_def usize_defs writer_ok_def
      screen_ok_def Let_def BORDER_PADDING_def LINE_SPACING_def\<close>)
qed

lemma feed_no_color:
  assumes "\<And>k. st \<noteq> StColor k" and "feed st c = (st', True)"
  shows "st' = Normal"
  using assms by (cases st) (auto split: if_splits option.splits)

lemma write_char_ok:
  assumes "font_docs F" and "writer_ok F w" and "y_pos w < 2 ^ 63"
  shows "\<exists>w'. write_char F w c = Inr w' \<and> writer_ok F w' \<and> y_pos w' \<le> y_pos w + 18 \<and>
    w_info w' = w_info w \<and> length (framebuffer w') = length (framebuffer w)"
proof -
  obtain st p where st: "feed (w_state w) c = (st, p)" by (cases "feed (w_state w) c")
  show ?thesis
  proof (cases p)
    case True
    then have "st = Normal" using feed_no_color [of "w_state w" c st] assms(2) st by (auto simp: writer_ok_def)
    then have "writer_ok F (w\<lparr>w_state := st\<rparr>)" using assms(2) by (simp add: writer_ok_def screen_ok_def)
    with put_char_ok [OF assms(1) this, of c] assms(3) st True show ?thesis by (simp add: write_char_def)
  next
    case False
    then show ?thesis using assms(2) st
      by (cases st) (auto simp: write_char_def writer_ok_def screen_ok_def)
  qed
qed

lemma write_string_ok:
  assumes "font_docs F" and "writer_ok F w" and "y_pos w + 18 * length s < 2 ^ 63"
  shows "\<exists>w'. write_string F s w = Inr w' \<and> writer_ok F w' \<and> w_info w' = w_info w \<and>
    length (framebuffer w') = length (framebuffer w) \<and> y_pos w' \<le> y_pos w + 18 * length s"
  unfolding write_string_def using assms(2,3)
proof (induction s arbitrary: w)
  case (Cons c s)
  obtain w1 where w1: "write_char F w c = Inr w1" "writer_ok F w1" "y_pos w1 \<le> y_pos w + 18"
    "w_info w1 = w_info w" "length (framebuffer w1) = length (framebuffer w)"
    using write_char_ok [OF assms(1) Cons.prems(1), of c] Cons.prems(2) by auto
  then obtain w2 where "forR (\<lambda>c w. write_char F w c) s w1 = Inr w2" "writer_ok F w2" "w_info w2 = w_info w1"
    "length (framebuffer w2) = length (framebuffer w1)" "y_pos w2 \<le> y_pos w1 + 18 * length s"
    using Cons.IH [OF w1(2)] Cons.prems(2) by auto
  with w1 show ?case by auto
qed simp

text \<open>
  C15: Printing never panics on a usable screen. With a frame buffer whose lines fit its size and the
  documented font, every string, control characters and broken escape sequences included, is printed
  without an index out of bounds or an arithmetic overflow, and the writer stays usable.
\<close>

theorem write_string_no_panic:
  assumes "font_docs F" and "writer_ok F w" and "y_pos w + 18 * length s < 2 ^ 63"
  shows "\<exists>w'. write_string F s w = Inr w' \<and> writer_ok F w' \<and> w_info w' = w_info w \<and>
    length (framebuffer w') = length (framebuffer w)"
  using write_string_ok [OF assms] by blast

text \<open>
  C16: Printing a character draws exactly its glyph: in the cell where the character belongs (on the
  next line if the current one is full, on a cleared screen if the last line is full) every pixel gets
  the current colour scaled by the glyph's intensity, every other pixel keeps its value, and the cursor
  moves right by the width of a character.
\<close>

theorem write_char_draws:
  assumes "font_docs F" and "writer_ok F w" and "y_pos w < 2 ^ 63" and "w_state w = Normal"
    and "c \<notin> {0x0A, 0x0D, 0x1B}"
  shows "\<exists>w'. write_char F w c = Inr w' \<and>
    x_pos w' = x_pos (placed F w) + CHAR_RASTER_WIDTH F \<and> y_pos w' = y_pos (placed F w) \<and>
    (\<forall>x < stride (w_info w). \<forall>y < fb_height (w_info w).
       pixel w' x y =
         (if (x, y) \<in> cell F (x_pos (placed F w)) (y_pos (placed F w))
          then shade w (raster (glyph_of F c) ! (y - y_pos (placed F w)) ! (x - x_pos (placed F w)))
          else pixel (placed F w) x y))"
proof -
  let ?p = "placed F w" and ?W = "CHAR_RASTER_WIDTH F"
  have w: "w\<lparr>w_state := Normal\<rparr> = w" using assms(4) by simp
  have "write_char F w c = put_char F w c" using assms(4,5) by (simp add: write_char_def w)
  moreover obtain w1 where w1: "put_char F w c = Inr (w1\<lparr>last_width := ?W, x_pos := x_pos ?p + ?W\<rparr>)"
    "painted ?p w1 (cell F (x_pos ?p) (y_pos ?p)) (glyph_pixel ?p (glyph_of F c))"
    using put_char_draws [of F w c] assms by (auto simp: writer_ok_def)
  moreover have "shade ?p i = shade w i" for i
    by (rule shade_cong) (simp_all add: placed_fields)
  moreover have "y_pos w1 = y_pos ?p" using w1(2) by (simp add: painted_def same_shape_fields)
  moreover have "pixel (w1\<lparr>last_width := ?W, x_pos := x_pos ?p + ?W\<rparr>) x y = pixel w1 x y" for x y
    by (simp add: pixel_def)
  ultimately show ?thesis by (simp add: painted_def glyph_pixel_def placed_fields)
qed

text \<open>
  Backspace erases the last character: right after a character was printed inside a line, it
  puts the cursor back and redraws the character's cell with the glyph of a space. It assumes that
  there is such a character: after the first character of a line a second backspace subtracts below
  zero, and the kernel panics.
\<close>

theorem backspace_erases:
  assumes F: "font_docs F" and "writer_ok F w" and "w_state w = Normal"
    and "last_width w = CHAR_RASTER_WIDTH F" and "x_pos w = x + CHAR_RASTER_WIDTH F"
    and "x_pos w < fb_width (w_info w)" and "y_pos w + 17 < fb_height (w_info w)"
  shows "\<exists>w'. backspace F w = Inr w' \<and> x_pos w' = x \<and> y_pos w' = y_pos w \<and>
    (\<forall>px < stride (w_info w). \<forall>py < fb_height (w_info w).
       pixel w' px py = (if (px, py) \<in> cell F x (y_pos w)
         then shade w (raster (glyph_of F 0x20) ! (py - y_pos w) ! (px - x)) else pixel w px py)) \<and>
    (x = BORDER_PADDING \<longrightarrow> backspace F w' = Inl Overflow)"
proof -
  let ?W = "CHAR_RASTER_WIDTH F" and ?w = "w\<lparr>x_pos := x\<rparr>"
  have H: "CHAR_RASTER_HEIGHT F = 16" "1 < ?W" using F by (auto simp: font_docs_def)
  have ok: "screen_ok F ?w" using assms(2) by (simp add: writer_ok_def screen_ok_def)
  have pl: "placed F ?w = ?w" using assms(5-7) H by (simp add: placed_def BORDER_PADDING_def)
  have y: "y_pos ?w < 2 ^ 63" "x_pos ?w \<le> fb_width (w_info ?w)"
    using screen_ok_lt [OF ok] assms(5-7) by simp_all
  obtain w1 where w1: "put_char F ?w 0x20 = Inr (w1\<lparr>last_width := ?W, x_pos := x + ?W\<rparr>)"
    "painted ?w w1 (cell F x (y_pos w)) (glyph_pixel ?w (glyph_of F 0x20))"
    using put_char_draws [OF F ok y(2,1), of "0x20"] by (auto simp: pl)
  have ws: "?w\<lparr>w_state := Normal\<rparr> = ?w" using assms(3) by simp
  have "backspace F w = Inr (w1\<lparr>last_width := ?W, x_pos := x\<rparr>)"
    using assms(3-5) w1(1) by (simp add: backspace_def sub_usize_def write_char_def ws)
  moreover have "shade ?w i = shade w i" for i by (rule shade_cong) simp_all
  moreover have "pixel ?w px py = pixel w px py" for px py by (simp add: pixel_def)
  moreover have "pixel (w1\<lparr>last_width := ?W, x_pos := x\<rparr>) px py = pixel w1 px py" for px py
    by (simp add: pixel_def)
  moreover have "same_shape ?w w1" using w1(2) by (simp add: painted_def)
  then have "y_pos w1 = y_pos w" using same_shape_fields(3) [of ?w w1] by simp
  moreover have "backspace F (w1\<lparr>last_width := ?W, x_pos := x\<rparr>) = Inl Overflow" if "x = BORDER_PADDING"
    using that H(2) by (simp add: backspace_def sub_usize_def BORDER_PADDING_def)
  ultimately show ?thesis using w1(2) by (simp add: painted_def glyph_pixel_def)
qed

text \<open>
  Before a frame buffer is set, and hence for the whole run of a machine without one, printing a
  visible character panics: the static writer has an empty buffer, and the read-back after writing a
  pixel of zero bytes is out of bounds.
\<close>

theorem print_without_framebuffer_panics:
  assumes "font_docs F" and "c \<notin> {0x0A, 0x0D, 0x1B}"
  shows "write_char F writer_static c = Inl Index_Out_Of_Bounds"
proof -
  have H: "CHAR_RASTER_HEIGHT F = 16" "1 < CHAR_RASTER_WIDTH F" "CHAR_RASTER_WIDTH F \<le> 16"
    using assms(1) by (auto simp: font_docs_def)
  have g: "glyph_ok F (glyph_of F c)" by (rule font_docs_glyph [OF assms(1)])
  then obtain row rows where r: "raster (glyph_of F c) = row # rows" "length row = CHAR_RASTER_WIDTH F"
    using H(1) by (cases "raster (glyph_of F c)") (auto simp: glyph_ok_def)
  then obtain b bs where row: "row = b # bs" using H(2) by (cases row) auto
  let ?w = "clear (writer_static\<lparr>y_pos := 18, x_pos := 1\<rparr>)"
  have "write_char F writer_static c = write_rendered_char ?w (glyph_of F c)"
    using assms(2) H
    by (simp add: write_char_def writer_static_def put_char_def usize_defs newline_def carriage_return_def
        font_docs_glyph(2) [OF assms(1)] LINE_SPACING_def BORDER_PADDING_def clear_def)
  also have "\<dots> = Inl Index_Out_Of_Bounds"
    by (simp add: write_rendered_char_def r(1) row write_row_def clear_def writer_static_def usize_defs
        write_pixel_def get_color_def copy_slice_def BORDER_PADDING_def Let_def)
  finally show ?thesis .
qed

section \<open>Escape sequences as styled text\<close>

text \<open>
  What a writer in escape state \<open>st\<close> and colour \<open>col\<close> makes of a string: the characters it prints, each
  with its colour, and the state and colour it ends in.
\<close>

fun render :: "WriterState \<Rightarrow> Color \<Rightarrow> nat list \<Rightarrow> (nat \<times> Color) list" where
  "render st col [] = []"
| "render st col (c # cs) =
     (case feed st c of
        (st', True) \<Rightarrow> (c, col) # render st' col cs
      | (StColor k, False) \<Rightarrow> render Normal k cs
      | (st', False) \<Rightarrow> render st' col cs)"

fun render_end :: "WriterState \<Rightarrow> Color \<Rightarrow> nat list \<Rightarrow> WriterState \<times> Color" where
  "render_end st col [] = (st, col)"
| "render_end st col (c # cs) =
     (case feed st c of
        (st', True) \<Rightarrow> render_end st' col cs
      | (StColor k, False) \<Rightarrow> render_end Normal k cs
      | (st', False) \<Rightarrow> render_end st' col cs)"

definition put_styled :: "font \<Rightarrow> nat \<times> Color \<Rightarrow> Writer \<Rightarrow> Writer outcome" where
  "put_styled F x w = put_char F (w\<lparr>w_color := snd x, w_state := Normal\<rparr>) (fst x)"

definition set_style :: "WriterState \<times> Color \<Rightarrow> Writer \<Rightarrow> Writer" where
  "set_style e w = w\<lparr>w_state := fst e, w_color := snd e\<rparr>"

lemma write_pixel_keeps: "write_pixel w x y i = Inr w' \<Longrightarrow> \<exists>b. w' = w\<lparr>framebuffer := b\<rparr>"
  by (auto simp: write_pixel_def bindR_Inr_iff Let_def split: if_splits)

lemma write_row_keeps:
  assumes "write_row y row w = Inr w'"
  shows "(w_state w', w_color w') = (w_state w, w_color w)"
  using assms unfolding write_row_def
  by (rule forR_keeps [where g = "\<lambda>w. (w_state w, w_color w)", rotated])
    (auto simp: bindR_Inr_iff split: prod.splits dest!: write_pixel_keeps)

lemma put_char_keeps:
  assumes "put_char F w c = Inr w'"
  shows "w_state w' = w_state w \<and> w_color w' = w_color w"
proof -
  have "(w_state w', w_color w') = (w_state w, w_color w)" if wr: "write_rendered_char w r = Inr w'" for w r
  proof -
    obtain w1 where w1: "forR (\<lambda>(y, row). write_row y row) (enumerate 0 (raster r)) w = Inr w1"
      and eq: "(w_state w', w_color w') = (w_state w1, w_color w1)"
      using wr by (auto simp: write_rendered_char_def bindR_Inr_iff Let_def)
    have "(w_state w1, w_color w1) = (w_state w, w_color w)"
      using w1 by (rule forR_keeps [where g = "\<lambda>w. (w_state w, w_color w)", rotated])
        (auto dest!: write_row_keeps split: prod.splits)
    with eq show ?thesis by simp
  qed
  then show ?thesis using assms
    by (fastforce simp: put_char_def newline_def carriage_return_def clear_def bindR_Inr_iff Let_def split: if_splits)
qed

text \<open>The width that \<^verbatim>\<open>backspace\<close> goes back by.\<close>

lemma put_char_width:
  assumes F: "font_docs F" and put: "put_char F w c = Inr w'"
  shows "last_width w' = (if c = 0x0A \<or> c = 0x0D then last_width w else CHAR_RASTER_WIDTH F)"
proof -
  have "last_width w' = glyph_width r" if "write_rendered_char w r = Inr w'" for w r
    using that by (auto simp: write_rendered_char_def bindR_Inr_iff Let_def)
  moreover have "glyph_width r = CHAR_RASTER_WIDTH F" if "get_char_raster F c = Inr r" for r
    using that F by (auto simp: get_char_raster_def font_docs_def glyph_ok_def unwrapR_def split: option.splits)
  ultimately show ?thesis using put
    by (auto simp: put_char_def newline_def carriage_return_def bindR_Inr_iff Let_def)
qed

lemma styled_width:
  assumes "font_docs F" and "forR (put_styled F) xs w = Inr w'" and "last_width w = CHAR_RASTER_WIDTH F"
  shows "last_width w' = CHAR_RASTER_WIDTH F"
  using assms(2,3)
proof (induction xs arbitrary: w)
  case (Cons x xs)
  then obtain w1 where w1: "put_styled F x w = Inr w1" "forR (put_styled F) xs w1 = Inr w'"
    by (auto simp: bindR_Inr_iff)
  have "last_width w1 = CHAR_RASTER_WIDTH F"
    using put_char_width [OF assms(1) w1(1) [unfolded put_styled_def]] Cons.prems(2) by simp
  with Cons.IH [OF w1(2)] show ?case .
qed simp

lemma forR_styled_cong: "forR (put_styled F) (x # xs) (set_style e w) = forR (put_styled F) (x # xs) w"
  by (simp add: put_styled_def set_style_def)

lemma styled_absorb:
  "bindR (forR (put_styled F) xs (set_style e w)) (\<lambda>w'. Inr (set_style e' w')) =
   bindR (forR (put_styled F) xs w) (\<lambda>w'. Inr (set_style e' w'))"
  by (cases xs) (simp_all add: forR_styled_cong del: forR.simps(2), simp add: set_style_def)

lemma write_string_style:
  assumes "\<And>k. w_state w \<noteq> StColor k"
  shows "write_string F s w =
    bindR (forR (put_styled F) (render (w_state w) (w_color w) s) w)
      (\<lambda>w'. Inr (set_style (render_end (w_state w) (w_color w) s) w'))"
  unfolding write_string_def using assms
proof (induction s arbitrary: w)
  case Nil
  then show ?case by (simp add: set_style_def)
next
  case (Cons c s)
  obtain st p where st: "feed (w_state w) c = (st, p)" by (cases "feed (w_state w) c")
  show ?case
  proof (cases p)
    case True
    with st Cons.prems have n: "st = Normal" using feed_no_color [of "w_state w" c st] by simp
    have w: "write_char F w c = put_styled F (c, w_color w) w"
      using st True n by (simp add: write_char_def put_styled_def)
    show ?thesis
    proof (cases "put_styled F (c, w_color w) w")
      case (Inl e)
      then show ?thesis using st True n w by simp
    next
      case (Inr w1)
      then have "w_state w1 = Normal" "w_color w1 = w_color w"
        using put_char_keeps [of F "w\<lparr>w_color := w_color w, w_state := Normal\<rparr>" c w1]
        by (simp_all add: put_styled_def)
      then show ?thesis using Cons.IH [of w1] st True n w Inr by simp
    qed
  next
    case False
    define e where "e = (case st of StColor k \<Rightarrow> (Normal, k) | _ \<Rightarrow> (st, w_color w))"
    have w: "write_char F w c = Inr (set_style e w)"
      using st False by (cases st) (simp_all add: write_char_def set_style_def e_def)
    have r: "render (w_state w) (w_color w) (c # s) = render (fst e) (snd e) s"
      "render_end (w_state w) (w_color w) (c # s) = render_end (fst e) (snd e) s"
      using st False by (cases st; simp add: e_def)+
    have "w_state (set_style e w) \<noteq> StColor k" for k by (cases st) (simp_all add: set_style_def e_def)
    from Cons.IH [OF this] show ?thesis
      unfolding r forR.simps(2) w bindR_simps styled_absorb by (simp add: set_style_def styled_absorb [unfolded set_style_def])
  qed
qed


section \<open>An instance\<close>

definition block_font :: font where
  "block_font = \<lparr>get_raster = (\<lambda>c. Some \<lparr>raster = replicate 16 (replicate 8 (if c = 0x20 then 0 else 0xFF)), glyph_width = 8\<rparr>),
     CHAR_RASTER_HEIGHT = 16, CHAR_RASTER_WIDTH = 8\<rparr>"

definition small_writer :: Writer where
  "small_writer = set_fb writer_static (replicate 1600 0)
     \<lparr>byte_len = 1600, fb_width = 20, fb_height = 20, pixel_format = Rgb, bytes_per_pixel = 4, stride = 20\<rparr>"

lemma block_font_docs: "font_docs block_font"
  by (auto simp: font_docs_def block_font_def glyph_ok_def)

lemma small_writer_ok: "writer_ok block_font small_writer"
  by (simp add: writer_ok_def screen_ok_def small_writer_def set_fb_def set_buffer_def clear_def
      writer_static_def block_font_def BORDER_PADDING_def)

theorem write_string_no_panic_witness:
  "\<exists>w'. write_string block_font [0x1B, 0x5B, 0x33, 0x31, 0x6D, 0x41, 0x0A, 0x42] small_writer = Inr w' \<and>
     writer_ok block_font w'"
  using write_string_no_panic [OF block_font_docs small_writer_ok,
      of "[0x1B, 0x5B, 0x33, 0x31, 0x6D, 0x41, 0x0A, 0x42]"]
  by (auto simp: small_writer_def set_fb_def set_buffer_def clear_def writer_static_def BORDER_PADDING_def)

lemma block_font_fields:
  "CHAR_RASTER_WIDTH block_font = 8" "CHAR_RASTER_HEIGHT block_font = 16"
  "raster (glyph_of block_font c) = replicate 16 (replicate 8 (if c = 0x20 then 0 else 0xFF))"
  by (simp_all add: block_font_def glyph_of_def)

lemma small_writer_placed: "placed block_font small_writer = small_writer"
  by (simp add: placed_def small_writer_def set_fb_def set_buffer_def clear_def writer_static_def
      block_font_def BORDER_PADDING_def)

lemma small_writer_fields:
  "x_pos small_writer = 1" "y_pos small_writer = 1" "w_state small_writer = Normal"
  "w_color small_writer = White" "w_info small_writer =
     \<lparr>byte_len = 1600, fb_width = 20, fb_height = 20, pixel_format = Rgb, bytes_per_pixel = 4, stride = 20\<rparr>"
  by (simp_all add: small_writer_def set_fb_def set_buffer_def clear_def writer_static_def BORDER_PADDING_def)

theorem write_char_draws_witness:
  "\<exists>w'. write_char block_font small_writer 0x41 = Inr w' \<and> x_pos w' = 9 \<and>
     pixel w' 3 5 = [0xFF, 0xFF, 0xFF, 0]"
proof -
  obtain w' where w': "write_char block_font small_writer 0x41 = Inr w'"
    "x_pos w' = x_pos (placed block_font small_writer) + CHAR_RASTER_WIDTH block_font"
    "\<And>x y. x < stride (w_info small_writer) \<Longrightarrow> y < fb_height (w_info small_writer) \<Longrightarrow> pixel w' x y =
       (if (x, y) \<in> cell block_font (x_pos (placed block_font small_writer)) (y_pos (placed block_font small_writer))
        then shade small_writer (raster (glyph_of block_font 0x41) ! (y - y_pos (placed block_font small_writer)) !
          (x - x_pos (placed block_font small_writer)))
        else pixel (placed block_font small_writer) x y)"
    using write_char_draws [OF block_font_docs small_writer_ok, of "0x41"] by (auto simp: small_writer_fields)
  have "pixel w' 3 5 = [0xFF, 0xFF, 0xFF, 0]"
    using w'(3) [of 3 5]
    by (simp add: small_writer_fields small_writer_placed cell_def block_font_fields shade_def
        get_color_def scale_def)
  then show ?thesis using w'(1,2) by (simp add: small_writer_fields small_writer_placed block_font_fields)
qed

theorem backspace_erases_witness:
  "\<exists>w'. backspace block_font (small_writer\<lparr>x_pos := 9, last_width := 8\<rparr>) = Inr w' \<and> x_pos w' = 1 \<and>
     backspace block_font w' = Inl Overflow"
proof -
  have "writer_ok block_font (small_writer\<lparr>x_pos := 9, last_width := 8\<rparr>)"
    using small_writer_ok by (simp add: writer_ok_def screen_ok_def small_writer_fields)
  from backspace_erases [OF block_font_docs this, of 1] show ?thesis
    by (auto simp: small_writer_fields block_font_def BORDER_PADDING_def)
qed

theorem print_without_framebuffer_panics_witness:
  "write_char block_font writer_static 0x41 = Inl Index_Out_Of_Bounds"
  by (rule print_without_framebuffer_panics [OF block_font_docs]) simp


end
