(* ===== verification/Logging.thy ===== *)
theory Logging
  imports Vga
begin

text \<open>
  \<^verbatim>\<open>kernel/src/logging.rs\<close>, the text side of \<^verbatim>\<open>kernel/src/serial.rs\<close> and
  \<^verbatim>\<open>kernel/src/meta/console.rs\<close>: log records, formatted with ANSI colours, go to the serial port, and
  all but the trace records to the screen as well. The names of the levels come from the crate
  \<^verbatim>\<open>log\<close> and are a parameter.
\<close>

section \<open>Formatting\<close>

definition codes :: "string \<Rightarrow> nat list" where
  "codes s = map of_char s"

definition ESC :: nat where "ESC = 0x1B"

definition RESET :: "nat list" where "RESET = [ESC] @ codes ''[0m''"

datatype LogColor = Log_Black | Log_Red | Log_Green | Log_Yellow | Log_Blue | Log_Magenta | Log_Cyan
  | Log_White | Log_Default

fun as_str :: "LogColor \<Rightarrow> string" where
  "as_str Log_Black = ''30''"
| "as_str Log_Red = ''31''"
| "as_str Log_Green = ''32''"
| "as_str Log_Yellow = ''33''"
| "as_str Log_Blue = ''34''"
| "as_str Log_Magenta = ''35''"
| "as_str Log_Cyan = ''36''"
| "as_str Log_White = ''37''"
| "as_str Log_Default = ''39''"

definition color_fmt :: "LogColor \<Rightarrow> nat list" where
  "color_fmt c = [ESC] @ codes ''['' @ codes (as_str c) @ codes ''m''"

text \<open>\<^verbatim>\<open>Colored<S>\<close>, with the text of its inner value in the format that is asked for.\<close>

record Colored =
  col_color :: LogColor
  col_inner :: "nat list"

definition with_color :: "nat list \<Rightarrow> LogColor \<Rightarrow> Colored" where
  "with_color s c = \<lparr>col_color = c, col_inner = s\<rparr>"

definition black :: "nat list \<Rightarrow> Colored" where "black s = with_color s Log_Black"
definition red :: "nat list \<Rightarrow> Colored" where "red s = with_color s Log_Red"
definition green :: "nat list \<Rightarrow> Colored" where "green s = with_color s Log_Green"
definition yellow :: "nat list \<Rightarrow> Colored" where "yellow s = with_color s Log_Yellow"
definition blue :: "nat list \<Rightarrow> Colored" where "blue s = with_color s Log_Blue"
definition magenta :: "nat list \<Rightarrow> Colored" where "magenta s = with_color s Log_Magenta"
definition cyan :: "nat list \<Rightarrow> Colored" where "cyan s = with_color s Log_Cyan"
definition white :: "nat list \<Rightarrow> Colored" where "white s = with_color s Log_White"

lemmas colorize_defs [simp] = black_def red_def green_def yellow_def blue_def magenta_def cyan_def white_def

definition colored_fmt :: "Colored \<Rightarrow> nat list" where
  "colored_fmt s = color_fmt (col_color s) @ col_inner s @ RESET"

datatype Level = Error | Warn | Info | Debug | Trace

fun stylized :: "(Level \<Rightarrow> nat list) \<Rightarrow> Level \<Rightarrow> Colored" where
  "stylized level_str Error = red (level_str Error)"
| "stylized level_str Warn = yellow (level_str Warn)"
| "stylized level_str Info = green (level_str Info)"
| "stylized level_str Debug = magenta (level_str Debug)"
| "stylized level_str Trace = blue (level_str Trace)"

text \<open>Numbers as the formatting of the standard library prints them, in decimal and in upper case hexadecimal.\<close>

definition digit :: "nat \<Rightarrow> nat" where
  "digit d = (if d < 10 then 0x30 + d else 0x37 + d)"

fun digits :: "nat \<Rightarrow> nat \<Rightarrow> nat list" where
  "digits b n = (if n < b \<or> b < 2 then [digit n] else digits b (n div b) @ [digit (n mod b)])"

declare digits.simps [simp del]

abbreviation decimal where "decimal \<equiv> digits 10"

abbreviation upper_hex where "upper_hex \<equiv> digits 16"

section \<open>The logger\<close>

record Record =
  rec_target :: "nat list"
  rec_level :: Level
  rec_args :: "nat list"

definition log_line :: "(Level \<Rightarrow> nat list) \<Rightarrow> Record \<Rightarrow> nat list" where
  "log_line level_str r =
     codes ''['' @ colored_fmt (white (rec_target r)) @ codes ''] ['' @
     [ESC] @ codes ''[31m'' @ colored_fmt (stylized level_str (rec_level r)) @ RESET @
     codes ''] '' @ rec_args r"

text \<open>The two outputs: the characters sent to the serial port, and the screen.\<close>

record outputs =
  serial_out :: "nat list"
  screen :: Writer

definition serial_print :: "nat list \<Rightarrow> outputs \<Rightarrow> outputs" where
  "serial_print s con = con\<lparr>serial_out := serial_out con @ s\<rparr>"

definition serial_println :: "nat list \<Rightarrow> outputs \<Rightarrow> outputs" where
  "serial_println s con = serial_print (s @ [0x0A]) con"

definition vga_print :: "font \<Rightarrow> nat list \<Rightarrow> outputs \<Rightarrow> outputs outcome" where
  "vga_print F s con = bindR (write_string F s (screen con)) (\<lambda>w. Inr (con\<lparr>screen := w\<rparr>))"

definition vga_println :: "font \<Rightarrow> nat list \<Rightarrow> outputs \<Rightarrow> outputs outcome" where
  "vga_println F s con = vga_print F (s @ [0x0A]) con"

definition logger_enabled :: "Level \<Rightarrow> bool" where
  "logger_enabled l = True"

definition logger_log :: "font \<Rightarrow> (Level \<Rightarrow> nat list) \<Rightarrow> Record \<Rightarrow> outputs \<Rightarrow> outputs outcome" where
  "logger_log F level_str r con =
     (let con = serial_println (log_line level_str r) con
      in if rec_level r \<noteq> Trace then vga_print F (log_line level_str r @ [0x0A]) con else Inr con)"

definition console_backspace :: "font \<Rightarrow> outputs \<Rightarrow> outputs outcome" where
  "console_backspace F con = bindR (backspace F (screen con)) (\<lambda>w. Inr (con\<lparr>screen := w\<rparr>))"

section \<open>What the screen makes of it\<close>

definition screen_color :: "LogColor \<Rightarrow> Color option" where
  "screen_color c = (case c of
     Log_Black \<Rightarrow> Some Black | Log_Red \<Rightarrow> Some Red | Log_Green \<Rightarrow> Some Green | Log_Yellow \<Rightarrow> Some Yellow
   | Log_Blue \<Rightarrow> Some Blue | Log_Magenta \<Rightarrow> Some Magenta | Log_Cyan \<Rightarrow> Some Cyan | Log_White \<Rightarrow> Some White
   | Log_Default \<Rightarrow> None)"

lemma feed_not_color: "(\<And>k. st \<noteq> StColor k) \<Longrightarrow> snd (feed st c) \<Longrightarrow> fst (feed st c) = Normal"
  using feed_no_color [of st c "fst (feed st c)"] by (metis prod.collapse)

lemma render_append:
  "render st col (s @ t) = render st col s @ render (fst (render_end st col s)) (snd (render_end st col s)) t"
  "render_end st col (s @ t) = render_end (fst (render_end st col s)) (snd (render_end st col s)) t"
  by (induction st col s rule: render.induct) (auto split: prod.splits bool.splits WriterState.splits)

lemma render_plain:
  assumes "ESC \<notin> set s"
  shows "render Normal col s = map (\<lambda>c. (c, col)) s" and "render_end Normal col s = (Normal, col)"
  using assms by (induction s) (auto simp: ESC_def)

lemma render_color:
  "render Normal col (color_fmt c) = []"
  "render_end Normal col (color_fmt c) = (Normal, case screen_color c of Some k \<Rightarrow> k | None \<Rightarrow> col)"
  by (cases c; simp add: color_fmt_def codes_def ESC_def ansi_color_def screen_color_def)+

lemma render_reset:
  "render Normal col RESET = []"
  "render_end Normal col RESET = (Normal, White)"
  by (simp_all add: RESET_def codes_def ESC_def)

lemma render_colored:
  assumes "ESC \<notin> set (col_inner s)"
  shows "render Normal col (colored_fmt s) =
      map (\<lambda>c. (c, case screen_color (col_color s) of Some k \<Rightarrow> k | None \<Rightarrow> col)) (col_inner s)"
    and "render_end Normal col (colored_fmt s) = (Normal, White)"
  by (simp_all only: colored_fmt_def render_append render_color render_plain [OF assms] fst_conv snd_conv
      render_reset append_Nil append_Nil2)

lemma log_line_render:
  assumes "ESC \<notin> set (rec_target r)" and "ESC \<notin> set (level_str (rec_level r))" and "ESC \<notin> set (rec_args r)"
  shows "render Normal White (log_line level_str r @ [0x0A]) =
      map (\<lambda>c. (c, White)) (codes ''['' @ rec_target r @ codes ''] ['') @
      map (\<lambda>c. (c, case rec_level r of Error \<Rightarrow> Red | Warn \<Rightarrow> Yellow | Info \<Rightarrow> Green | Debug \<Rightarrow> Magenta | Trace \<Rightarrow> Blue))
        (level_str (rec_level r)) @
      map (\<lambda>c. (c, White)) (codes ''] '' @ rec_args r @ [0x0A]) \<and>
    render_end Normal White (log_line level_str r @ [0x0A]) = (Normal, White)"
proof -
  have plain: "ESC \<notin> set (codes ''['')" "ESC \<notin> set (codes ''] ['')" "ESC \<notin> set (codes ''] '')" "ESC \<notin> set [0x0A]"
    by (simp_all add: ESC_def codes_def)
  have red: "[ESC] @ codes ''[31m'' @ t = color_fmt Log_Red @ t" for t by (simp add: color_fmt_def codes_def)
  define k where "k = (case rec_level r of Error \<Rightarrow> Red | Warn \<Rightarrow> Yellow | Info \<Rightarrow> Green | Debug \<Rightarrow> Magenta | Trace \<Rightarrow> Blue)"
  have s: "col_inner (stylized level_str (rec_level r)) = level_str (rec_level r)"
    "screen_color (col_color (stylized level_str (rec_level r))) = Some k"
    "col_inner (with_color (rec_target r) Log_White) = rec_target r"
    "screen_color (col_color (with_color (rec_target r) Log_White)) = Some White"
    by (cases "rec_level r"; simp add: with_color_def screen_color_def k_def)+
  show ?thesis
    unfolding log_line_def append_assoc red k_def [symmetric]
    using assms(1,2) by (simp add: render_append render_plain plain assms(3) render_color render_reset
        render_colored s del: append.simps(2))
qed

text \<open>
  C27: A log line reaches the screen as it is meant to look: the brackets and the message in white,
  the target in white and the level in the colour of its severity, with no trace of the escape
  sequences, and the screen is back in the normal state and in white afterwards, so that lines do not
  affect each other. This holds for every target, level name and message without escape characters.
\<close>

theorem log_line_rendered:
  assumes "ESC \<notin> set (rec_target r)" and "ESC \<notin> set (level_str (rec_level r))" and "ESC \<notin> set (rec_args r)"
  shows "render Normal White (log_line level_str r @ [0x0A]) =
      map (\<lambda>c. (c, White)) (codes ''['' @ rec_target r @ codes ''] ['') @
      map (\<lambda>c. (c, case rec_level r of Error \<Rightarrow> Red | Warn \<Rightarrow> Yellow | Info \<Rightarrow> Green | Debug \<Rightarrow> Magenta | Trace \<Rightarrow> Blue))
        (level_str (rec_level r)) @
      map (\<lambda>c. (c, White)) (codes ''] '' @ rec_args r @ [0x0A]) \<and>
    render_end Normal White (log_line level_str r @ [0x0A]) = (Normal, White)"
  using assms by (rule log_line_render)

lemma logger_log_ok:
  assumes "font_docs F" and "writer_ok F (screen con)"
    and "y_pos (screen con) + 18 * (length (log_line level_str r) + 1) < 2 ^ 63"
  shows "\<exists>con'. logger_log F level_str r con = Inr con' \<and> writer_ok F (screen con') \<and>
    y_pos (screen con') \<le> y_pos (screen con) + 18 * (length (log_line level_str r) + 1)"
proof -
  obtain w where "write_string F (log_line level_str r @ [0x0A]) (screen con) = Inr w" "writer_ok F w"
    "y_pos w \<le> y_pos (screen con) + 18 * (length (log_line level_str r) + 1)"
    using write_string_ok [OF assms(1,2), of "log_line level_str r @ [0x0A]"] assms(3) by auto
  then show ?thesis using assms(2)
    by (cases "rec_level r = Trace") (auto simp: logger_log_def serial_println_def serial_print_def vga_print_def)
qed

text \<open>
  Logging always delivers: with a usable screen every record is written to the serial port in full,
  a trace record leaves the screen alone, and every other record is drawn without a panic and leaves the
  writer usable.
\<close>

theorem logger_log_delivers:
  assumes "font_docs F" and "writer_ok F (screen con)"
    and "y_pos (screen con) + 18 * (length (log_line level_str r) + 1) < 2 ^ 63"
  shows "\<exists>con'. logger_log F level_str r con = Inr con' \<and>
    serial_out con' = serial_out con @ log_line level_str r @ [0x0A] \<and> writer_ok F (screen con') \<and>
    (if rec_level r = Trace then screen con' = screen con
     else write_string F (log_line level_str r @ [0x0A]) (screen con) = Inr (screen con'))"
proof -
  obtain w where "write_string F (log_line level_str r @ [0x0A]) (screen con) = Inr w" "writer_ok F w"
    using write_string_ok [OF assms(1,2), of "log_line level_str r @ [0x0A]"] assms(3) by auto
  then show ?thesis using assms(2)
    by (cases "rec_level r = Trace") (auto simp: logger_log_def serial_println_def serial_print_def vga_print_def)
qed

section \<open>An instance\<close>

definition level_names :: "Level \<Rightarrow> nat list" where
  "level_names l = codes (case l of Error \<Rightarrow> ''ERROR'' | Warn \<Rightarrow> ''WARN'' | Info \<Rightarrow> ''INFO'' | Debug \<Rightarrow> ''DEBUG'' | Trace \<Rightarrow> ''TRACE'')"

definition sample_record :: Record where
  "sample_record = \<lparr>rec_target = codes ''acpi'', rec_level = Warn, rec_args = codes ''low''\<rparr>"

theorem log_line_rendered_witness:
  "render_end Normal White (log_line level_names sample_record @ [0x0A]) = (Normal, White) \<and>
   (of_char (CHR ''W''), Yellow) \<in> set (render Normal White (log_line level_names sample_record @ [0x0A]))"
proof -
  have "ESC \<notin> set (rec_target sample_record)" "ESC \<notin> set (level_names (rec_level sample_record))"
    "ESC \<notin> set (rec_args sample_record)"
    by (simp_all add: sample_record_def level_names_def codes_def ESC_def)
  note r = log_line_rendered [where level_str = level_names and r = sample_record, OF this]
  then have "(of_char (CHR ''W''), Yellow) \<in> set (render Normal White (log_line level_names sample_record @ [0x0A]))"
    by (simp add: sample_record_def level_names_def codes_def)
  with r show ?thesis by blast
qed

theorem logger_log_delivers_witness:
  "\<exists>con'. logger_log block_font level_names sample_record \<lparr>serial_out = [], screen = small_writer\<rparr> = Inr con' \<and>
     serial_out con' = log_line level_names sample_record @ [0x0A] \<and> writer_ok block_font (screen con')"
  using logger_log_delivers [OF block_font_docs, of "\<lparr>serial_out = [], screen = small_writer\<rparr>" level_names sample_record]
    small_writer_ok
  by (auto simp: small_writer_fields log_line_def colored_fmt_def color_fmt_def with_color_def codes_def RESET_def
      sample_record_def level_names_def)

end
