(* ===== verification/Keyboard.thy ===== *)
theory Keyboard
  imports Tasks Logging
begin

text \<open>
  \<^verbatim>\<open>kernel/src/task/keyboard.rs\<close>: the keyboard interrupt puts scancodes into a queue, and a task takes
  them out and prints the keys. The task and the interrupt share the queue and the waker, and the
  interrupt may come between any two steps of the task; this is the step relation \<open>kbd_step\<close>. The
  queue, the \<^verbatim>\<open>AtomicWaker\<close> of \<^verbatim>\<open>futures_util\<close> and the decoder of \<^verbatim>\<open>pc_keyboard\<close> are parameters.
\<close>

section \<open>The shared waker\<close>

record ('k, 'a) atomic_waker =
  aw_new :: 'a
  aw_register :: "'a \<Rightarrow> 'k \<Rightarrow> 'a"
  aw_wake :: "'a \<Rightarrow> 'k option \<times> 'a"
  aw_take :: "'a \<Rightarrow> 'k option \<times> 'a"

text \<open>
  The documented behaviour: the cell holds the waker registered last; waking takes it out and calls
  it, taking takes it out.
\<close>

definition aw_docs :: "('k, 'a) atomic_waker \<Rightarrow> ('a \<Rightarrow> 'k option) \<Rightarrow> bool" where
  "aw_docs W held \<longleftrightarrow>
     held (aw_new W) = None \<and>
     (\<forall>a k. held (aw_register W a k) = Some k) \<and>
     (\<forall>a. fst (aw_wake W a) = held a \<and> held (snd (aw_wake W a)) = None) \<and>
     (\<forall>a. fst (aw_take W a) = held a \<and> held (snd (aw_take W a)) = None)"

definition option_waker :: "('k, 'k option) atomic_waker" where
  "option_waker = \<lparr>aw_new = None, aw_register = (\<lambda>a k. Some k), aw_wake = (\<lambda>a. (a, None)), aw_take = (\<lambda>a. (a, None))\<rparr>"

lemma option_waker_docs: "aw_docs option_waker (\<lambda>a. a)"
  by (simp add: aw_docs_def option_waker_def)

section \<open>The scancode stream\<close>

text \<open>The two statics of the module, and the executor's queue that the waker pushes to.\<close>

record ('s, 'a, 'q) kbd =
  scancode_queue :: "'s option"
  kbd_waker :: 'a
  ready_queue :: 'q

definition scancode_stream_new :: "(u8, 's) array_queue \<Rightarrow> ('s, 'a, 'q) kbd \<Rightarrow> ('s, 'a, 'q) kbd outcome" where
  "scancode_stream_new S st =
     (if scancode_queue st \<noteq> None then Inl (Unwrap_Failed ''ScancodeStream::new should only be called once'')
      else Inr (st\<lparr>scancode_queue := Some (aq_new S 100)\<rparr>))"

definition pop_scancode ::
  "(u8, 's) array_queue \<Rightarrow> ('s, 'a, 'q) kbd \<Rightarrow> (u8 option \<times> ('s, 'a, 'q) kbd) outcome" where
  "pop_scancode S st =
     bindR (unwrapR ''scancode queue not initialized'' (scancode_queue st)) (\<lambda>queue.
       Inr (case aq_pop S queue of
              None \<Rightarrow> (None, st)
            | Some (scancode, queue) \<Rightarrow> (Some scancode, st\<lparr>scancode_queue := Some queue\<rparr>)))"

definition register_waker ::
  "(TaskWaker, 'a) atomic_waker \<Rightarrow> TaskWaker \<Rightarrow> ('s, 'a, 'q) kbd \<Rightarrow> ('s, 'a, 'q) kbd" where
  "register_waker W cx st = st\<lparr>kbd_waker := aw_register W (kbd_waker st) cx\<rparr>"

definition take_waker :: "(TaskWaker, 'a) atomic_waker \<Rightarrow> ('s, 'a, 'q) kbd \<Rightarrow> ('s, 'a, 'q) kbd" where
  "take_waker W st = st\<lparr>kbd_waker := snd (aw_take W (kbd_waker st))\<rparr>"

text \<open>
  \<^verbatim>\<open>poll_next\<close> when no interrupt comes while it runs; no value means \<^verbatim>\<open>Pending\<close>. It never ends the stream.
\<close>

definition poll_next ::
  "(u8, 's) array_queue \<Rightarrow> (TaskWaker, 'a) atomic_waker \<Rightarrow> TaskWaker \<Rightarrow> ('s, 'a, 'q) kbd \<Rightarrow>
   (u8 option \<times> ('s, 'a, 'q) kbd) outcome" where
  "poll_next S W cx st =
     bindR (pop_scancode S st) (\<lambda>(r, st). case r of
       Some scancode \<Rightarrow> Inr (Some scancode, st)
     | None \<Rightarrow>
         bindR (pop_scancode S (register_waker W cx st)) (\<lambda>(r, st). case r of
           Some scancode \<Rightarrow> Inr (Some scancode, take_waker W st)
         | None \<Rightarrow> Inr (None, st)))"

text \<open>\<^verbatim>\<open>add_scancode\<close>, called by the interrupt handler, on the state that it shares with the task, and the warning that it logs.\<close>

definition add_scancode ::
  "(TaskId, 'q) array_queue \<Rightarrow> (u8, 's) array_queue \<Rightarrow> (TaskWaker, 'a) atomic_waker \<Rightarrow> u8 \<Rightarrow>
   ('s, 'a, 'q) kbd \<Rightarrow> ('s, 'a, 'q) kbd outcome" where
  "add_scancode A S W scancode st =
     (case scancode_queue st of
        None \<Rightarrow> Inr st
      | Some queue \<Rightarrow>
          (case aq_push S queue scancode of
             None \<Rightarrow> Inr st
           | Some queue \<Rightarrow>
               let (waker, cell) = aw_wake W (kbd_waker st);
                   st = st\<lparr>scancode_queue := Some queue, kbd_waker := cell\<rparr>
               in case waker of
                    None \<Rightarrow> Inr st
                  | Some waker \<Rightarrow> bindR (task_wake A waker (ready_queue st)) (\<lambda>q. Inr (st\<lparr>ready_queue := q\<rparr>))))"

definition scancode_warning :: "(u8, 's) array_queue \<Rightarrow> u8 \<Rightarrow> ('s, 'a, 'q) kbd \<Rightarrow> Record option" where
  "scancode_warning S scancode st =
     (let warn = (\<lambda>text. Some \<lparr>rec_target = codes ''nocciolo_kernel::task::keyboard'', rec_level = Warn, rec_args = codes text\<rparr>)
      in case scancode_queue st of
           None \<Rightarrow> warn ''Scancode queue uninitialized''
         | Some queue \<Rightarrow>
             if aq_push S queue scancode = None then warn ''Scancode queue full; dropping keyboard input'' else None)"

section \<open>Printing keys\<close>

text \<open>A decoded key is a character or the debug text of a key without one.\<close>

datatype DecodedKey = Unicode nat | RawKey "nat list"

definition print_key :: "font \<Rightarrow> DecodedKey \<Rightarrow> outputs \<Rightarrow> outputs outcome" where
  "print_key F key con = (case key of
     Unicode c \<Rightarrow> if c = 0x08 then console_backspace F con else vga_print F [c] con
   | RawKey name \<Rightarrow> vga_print F name con)"

text \<open>The body of the loop of \<^verbatim>\<open>print_keypresses\<close>; \<open>decode\<close> is \<^verbatim>\<open>add_byte\<close> and \<^verbatim>\<open>process_keyevent\<close>.\<close>

definition handle_scancode ::
  "('b \<Rightarrow> u8 \<Rightarrow> DecodedKey option \<times> 'b) \<Rightarrow> font \<Rightarrow> u8 \<Rightarrow> 'b \<Rightarrow> outputs \<Rightarrow> ('b \<times> outputs) outcome" where
  "handle_scancode decode F scancode keyboard con =
     (let (key, keyboard) = decode keyboard scancode
      in case key of
           None \<Rightarrow> Inr (keyboard, con)
         | Some key \<Rightarrow> bindR (print_key F key con) (\<lambda>con. Inr (keyboard, con)))"

text \<open>
  \<^verbatim>\<open>print_keypresses\<close> as the executor polls it, when no interrupt comes while it runs. The loop goes on until the stream is
  pending; it never ends, so the task is never ready. On the first poll the task makes its stream and its
  decoder; later it has them.
\<close>

partial_function (option) keypress_loop ::
  "(u8, 's) array_queue \<Rightarrow> (TaskWaker, 'a) atomic_waker \<Rightarrow> TaskWaker \<Rightarrow> ('b \<Rightarrow> u8 \<Rightarrow> DecodedKey option \<times> 'b) \<Rightarrow> font \<Rightarrow>
   ('s, 'a, 'q) kbd \<Rightarrow> 'b \<Rightarrow> outputs \<Rightarrow> (('s, 'a, 'q) kbd \<times> 'b \<times> outputs) outcome option" where
  "keypress_loop S W cx decode F st keyboard con =
     (case poll_next S W cx st of
        Inl e \<Rightarrow> Some (Inl e)
      | Inr (None, st) \<Rightarrow> Some (Inr (st, keyboard, con))
      | Inr (Some scancode, st) \<Rightarrow>
          (case handle_scancode decode F scancode keyboard con of
             Inl e \<Rightarrow> Some (Inl e)
           | Inr (keyboard, con) \<Rightarrow> keypress_loop S W cx decode F st keyboard con))"

definition print_keypresses ::
  "(u8, 's) array_queue \<Rightarrow> (TaskWaker, 'a) atomic_waker \<Rightarrow> TaskWaker \<Rightarrow> ('b \<Rightarrow> u8 \<Rightarrow> DecodedKey option \<times> 'b) \<Rightarrow> 'b \<Rightarrow> font \<Rightarrow>
   'b option \<Rightarrow> ('s, 'a, 'q) kbd \<Rightarrow> outputs \<Rightarrow> (('s, 'a, 'q) kbd \<times> 'b \<times> outputs) outcome" where
  "print_keypresses S W cx decode keyboard_new F task st con =
     (case task of
        None \<Rightarrow> bindR (scancode_stream_new S st) (\<lambda>st. run_loop (keypress_loop S W cx decode F st keyboard_new con))
      | Some keyboard \<Rightarrow> run_loop (keypress_loop S W cx decode F st keyboard con))"

section \<open>The task and the interrupt\<close>

text \<open>
  Where the processor is, in the loop of the executor and, within a poll of the keyboard task, in
  \<^verbatim>\<open>print_keypresses\<close> and \<^verbatim>\<open>poll_next\<close>. At \<open>Checking\<close> interrupts are off.
\<close>

datatype kbd_pc =
    Popping
  | Starting
  | Fast_Path
  | Registering
  | Rechecking
  | Taking u8
  | Handling u8
  | Checking
  | Halted

text \<open>
  \<open>started\<close> says that the task was polled before; \<open>accepted\<close> and \<open>handled\<close> record the scancodes that the
  queue took and those that reached the body of the loop.
\<close>

record ('s, 'a, 'q) kbd_system =
  shared :: "('s, 'a, 'q) kbd"
  pc :: kbd_pc
  started :: bool
  accepted :: "u8 list"
  handled :: "u8 list"

definition accepts :: "(u8, 's) array_queue \<Rightarrow> ('s, 'a, 'q) kbd \<Rightarrow> u8 \<Rightarrow> bool" where
  "accepts S st c = (case scancode_queue st of None \<Rightarrow> False | Some q \<Rightarrow> aq_push S q c \<noteq> None)"

text \<open>
  The steps, for the keyboard task with number \<open>i\<close> as the only task, as \<^verbatim>\<open>kernel_main\<close> sets it up. The last
  rule is the interrupt; it also ends a halt.
\<close>

inductive kbd_step ::
  "(TaskId, 'q) array_queue \<Rightarrow> (u8, 's) array_queue \<Rightarrow> (TaskWaker, 'a) atomic_waker \<Rightarrow> TaskId \<Rightarrow>
   ('s, 'a, 'q) kbd_system \<Rightarrow> ('s, 'a, 'q) kbd_system \<Rightarrow> bool"
  for A S W i where
  pop_task: "pc x = Popping \<Longrightarrow> aq_pop A (ready_queue (shared x)) = Some (j, q) \<Longrightarrow>
    kbd_step A S W i x (x\<lparr>shared := (shared x)\<lparr>ready_queue := q\<rparr>,
      pc := (if j \<noteq> i then Popping else if started x then Fast_Path else Starting)\<rparr>)"
| pop_none: "pc x = Popping \<Longrightarrow> aq_pop A (ready_queue (shared x)) = None \<Longrightarrow>
    kbd_step A S W i x (x\<lparr>pc := Checking\<rparr>)"
| check: "pc x = Checking \<Longrightarrow>
    kbd_step A S W i x (x\<lparr>pc := (if aq_is_empty A (ready_queue (shared x)) then Halted else Popping)\<rparr>)"
| start: "pc x = Starting \<Longrightarrow> scancode_stream_new S (shared x) = Inr st \<Longrightarrow>
    kbd_step A S W i x (x\<lparr>shared := st, started := True, pc := Fast_Path\<rparr>)"
| fast_path: "pc x = Fast_Path \<Longrightarrow> pop_scancode S (shared x) = Inr (r, st) \<Longrightarrow>
    kbd_step A S W i x (x\<lparr>shared := st, pc := (case r of Some c \<Rightarrow> Handling c | None \<Rightarrow> Registering)\<rparr>)"
| register: "pc x = Registering \<Longrightarrow>
    kbd_step A S W i x (x\<lparr>shared := register_waker W \<lparr>tw_task_id = i\<rparr> (shared x), pc := Rechecking\<rparr>)"
| recheck: "pc x = Rechecking \<Longrightarrow> pop_scancode S (shared x) = Inr (r, st) \<Longrightarrow>
    kbd_step A S W i x (x\<lparr>shared := st, pc := (case r of Some c \<Rightarrow> Taking c | None \<Rightarrow> Popping)\<rparr>)"
| take: "pc x = Taking c \<Longrightarrow>
    kbd_step A S W i x (x\<lparr>shared := take_waker W (shared x), pc := Handling c\<rparr>)"
| handle: "pc x = Handling c \<Longrightarrow>
    kbd_step A S W i x (x\<lparr>handled := handled x @ [c], pc := Fast_Path\<rparr>)"
| interrupt: "pc x \<noteq> Checking \<Longrightarrow> add_scancode A S W c (shared x) = Inr st \<Longrightarrow>
    kbd_step A S W i x (x\<lparr>shared := st,
      accepted := accepted x @ (if accepts S (shared x) c then [c] else []),
      pc := (if pc x = Halted then Popping else pc x)\<rparr>)"

text \<open>The state in which \<^verbatim>\<open>Executor::run\<close> is called, with the keyboard task spawned.\<close>

definition kbd_boot ::
  "(TaskId, 'q) array_queue \<Rightarrow> (TaskWaker, 'a) atomic_waker \<Rightarrow> TaskId \<Rightarrow> ('s, 'a, 'q) kbd_system outcome" where
  "kbd_boot A W i =
     bindR (unwrapR ''queue full'' (aq_push A (aq_new A 100) i)) (\<lambda>q.
       Inr \<lparr>shared = \<lparr>scancode_queue = None, kbd_waker = aw_new W, ready_queue = q\<rparr>, pc = Popping, started = False,
            accepted = [], handled = []\<rparr>)"

section \<open>No key is lost\<close>

text \<open>
  The invariant. The waker in the cell, if any, is that of the task. Outside a poll the task is
  ready unless there is nothing to do and its waker is in the cell; in the window between registering
  the waker and looking again, the waker is in the cell unless there is a scancode to find.
\<close>

definition scancodes :: "('s \<Rightarrow> u8 list) \<Rightarrow> ('s, 'a, 'q) kbd \<Rightarrow> u8 list" where
  "scancodes sitems st = (case scancode_queue st of None \<Rightarrow> [] | Some q \<Rightarrow> sitems q)"

fun in_flight :: "kbd_pc \<Rightarrow> u8 list" where
  "in_flight (Taking c) = [c]"
| "in_flight (Handling c) = [c]"
| "in_flight _ = []"

definition kbd_inv ::
  "('q \<Rightarrow> TaskId list) \<Rightarrow> ('s \<Rightarrow> u8 list) \<Rightarrow> ('a \<Rightarrow> TaskWaker option) \<Rightarrow> TaskId \<Rightarrow>
   ('s, 'a, 'q) kbd_system \<Rightarrow> bool" where
  "kbd_inv items sitems held i x \<longleftrightarrow>
     (held (kbd_waker (shared x)) \<in> {None, Some \<lparr>tw_task_id = i\<rparr>}) \<and>
     set (items (ready_queue (shared x))) \<subseteq> {i} \<and>
     (started x \<longleftrightarrow> scancode_queue (shared x) \<noteq> None) \<and>
     (pc x = Starting \<longrightarrow> \<not> started x) \<and>
     (pc x \<notin> {Popping, Starting, Checking, Halted} \<longrightarrow> started x) \<and>
     (pc x \<in> {Popping, Checking, Halted} \<and> items (ready_queue (shared x)) = [] \<longrightarrow>
        started x \<and> scancodes sitems (shared x) = [] \<and> held (kbd_waker (shared x)) \<noteq> None) \<and>
     (pc x = Halted \<longrightarrow> items (ready_queue (shared x)) = []) \<and>
     (pc x = Rechecking \<and> scancodes sitems (shared x) = [] \<and> items (ready_queue (shared x)) = [] \<longrightarrow>
        held (kbd_waker (shared x)) \<noteq> None) \<and>
     handled x @ in_flight (pc x) @ scancodes sitems (shared x) = accepted x"

lemma pop_scancodeE:
  assumes "aq_docs S sitems scap" and "pop_scancode S st = Inr (r, st')"
  obtains (empty) "r = None" and "st' = st" and "scancodes sitems st = []" and "scancode_queue st \<noteq> None"
  | (scancode) c where "r = Some c" and "scancodes sitems st = c # scancodes sitems st'"
      and "kbd_waker st' = kbd_waker st" and "ready_queue st' = ready_queue st"
      and "scancode_queue st \<noteq> None" and "scancode_queue st' \<noteq> None"
proof -
  obtain q where q: "scancode_queue st = Some q"
    using assms(2) by (auto simp: pop_scancode_def bindR_Inr_iff)
  show ?thesis
  proof (cases "sitems q")
    case Nil
    with assms(2) q show ?thesis
      by (intro empty) (auto simp: pop_scancode_def scancodes_def aq_pop_empty [OF assms(1)])
  next
    case (Cons c cs)
    from aq_popE [OF assms(1) this] obtain q' where "aq_pop S q = Some (c, q')" "sitems q' = cs" .
    with assms(2) q Cons show ?thesis
      by (intro scancode [of c]) (auto simp: pop_scancode_def scancodes_def)
  qed
qed

lemma add_scancodeE:
  assumes "aq_docs A items cap" and "aq_docs S sitems scap" and "aw_docs W held"
    and "add_scancode A S W c st = Inr st'"
  obtains (dropped) "\<not> accepts S st c" and "st' = st"
  | (taken) "accepts S st c" and "scancodes sitems st' = scancodes sitems st @ [c]"
      and "held (kbd_waker st') = None" and "scancode_queue st \<noteq> None" and "scancode_queue st' \<noteq> None"
      and "items (ready_queue st') = items (ready_queue st) @
        (case held (kbd_waker st) of None \<Rightarrow> [] | Some k \<Rightarrow> [tw_task_id k])"
proof (cases "accepts S st c")
  case True
  then obtain q q' where q: "scancode_queue st = Some q" and q': "aq_push S q c = Some q'"
    by (auto simp: accepts_def split: option.splits)
  note items' = aq_push_SomeD(1) [OF assms(2) q']
  obtain k cell where w: "aw_wake W (kbd_waker st) = (k, cell)" by (rule prod.exhaust)
  have "fst (aw_wake W (kbd_waker st)) = held (kbd_waker st)" "held (snd (aw_wake W (kbd_waker st))) = None"
    using assms(3) by (simp_all add: aw_docs_def)
  then have k: "k = held (kbd_waker st)" "held cell = None" by (simp_all add: w)
  define st1 where "st1 = st\<lparr>scancode_queue := Some q', kbd_waker := cell\<rparr>"
  have st1: "scancodes sitems st1 = scancodes sitems st @ [c]" "held (kbd_waker st1) = None"
    "scancode_queue st1 \<noteq> None" "ready_queue st1 = ready_queue st" "scancode_queue st \<noteq> None"
    using q items' k(2) by (simp_all add: st1_def scancodes_def)
  have add: "add_scancode A S W c st = (case k of None \<Rightarrow> Inr st1
      | Some wk \<Rightarrow> bindR (wake_task A wk (ready_queue st1)) (\<lambda>q. Inr (st1\<lparr>ready_queue := q\<rparr>)))"
    by (simp add: add_scancode_def task_wake_def q q' w st1_def Let_def split: option.split)
  show ?thesis
  proof (cases k)
    case None
    with add assms(4) have "st' = st1" by simp
    then show ?thesis
      using True st1 None by (intro taken) (simp_all add: k(1) [symmetric])
  next
    case (Some wk)
    then obtain rq where rq: "aq_push A (ready_queue st) (tw_task_id wk) = Some rq" "st' = st1\<lparr>ready_queue := rq\<rparr>"
    proof -
      have "bindR (wake_task A wk (ready_queue st)) (\<lambda>q. Inr (st1\<lparr>ready_queue := q\<rparr>)) = Inr st'"
        using add assms(4) st1(4) Some by simp
      with that show ?thesis by (auto simp: wake_task_def bindR_Inr_iff)
    qed
    note aq_push_SomeD(1) [OF assms(1) rq(1)]
    with True st1 rq(2) Some show ?thesis
      by (intro taken) (simp_all add: scancodes_def k(1) [symmetric])
  qed
next
  case False
  have "add_scancode A S W c st = Inr st"
  proof (cases "scancode_queue st")
    case (Some q)
    with False have "aq_push S q c = None" by (simp add: accepts_def)
    with Some show ?thesis by (simp add: add_scancode_def)
  qed (simp add: add_scancode_def)
  with assms(4) False show ?thesis by (intro dropped) simp_all
qed

lemma kbd_inv_step:
  assumes docs: "aq_docs A items cap" "aq_docs S sitems scap" "aw_docs W held"
    and "kbd_step A S W i x y" and inv: "kbd_inv items sitems held i x"
  shows "kbd_inv items sitems held i y"
  using assms(4)
proof cases
  case (pop_task j q)
  then obtain js where js: "items (ready_queue (shared x)) = j # js" "items q = js"
    using aq_pop_empty [OF docs(1)] aq_popE [OF docs(1)] by (metis list.exhaust option.distinct(1) option.inject prod.inject)
  with inv have "j = i" by (auto simp: kbd_inv_def)
  with inv pop_task js show ?thesis by (auto simp: kbd_inv_def scancodes_def)
next
  case pop_none
  then have "items (ready_queue (shared x)) = []"
    using aq_popE [OF docs(1)] by (metis list.exhaust option.distinct(1))
  with inv pop_none show ?thesis by (auto simp: kbd_inv_def)
next
  case check
  with inv show ?thesis by (auto simp: kbd_inv_def aq_is_empty_iff [OF docs(1)])
next
  case (start st)
  then have "st = (shared x)\<lparr>scancode_queue := Some (aq_new S 100)\<rparr>" "scancode_queue (shared x) = None"
    by (auto simp: scancode_stream_new_def split: if_splits)
  with inv start aq_newD [OF docs(2), of 100] show ?thesis by (auto simp: kbd_inv_def scancodes_def)
next
  case (fast_path r st)
  from docs(2) fast_path(3) show ?thesis
    by (cases rule: pop_scancodeE) (use inv fast_path in \<open>auto simp: kbd_inv_def\<close>)
next
  case register
  with inv docs(3) show ?thesis by (auto simp: kbd_inv_def register_waker_def scancodes_def aw_docs_def)
next
  case (recheck r st)
  from docs(2) recheck(3) show ?thesis
    by (cases rule: pop_scancodeE) (use inv recheck in \<open>auto simp: kbd_inv_def\<close>)
next
  case (take c)
  with inv docs(3) show ?thesis by (auto simp: kbd_inv_def take_waker_def scancodes_def aw_docs_def)
next
  case (handle c)
  with inv show ?thesis by (auto simp: kbd_inv_def)
next
  case (interrupt c st)
  from docs interrupt(3) show ?thesis
  proof (cases rule: add_scancodeE)
    case dropped
    with inv interrupt show ?thesis by (auto simp: kbd_inv_def)
  next
    case taken
    with inv interrupt show ?thesis by (auto simp: kbd_inv_def split: option.splits)
  qed
qed

lemma kbd_inv_boot:
  assumes "aq_docs A items cap" and "aw_docs W held" and "kbd_boot A W i = Inr x"
  shows "kbd_inv items sitems held i x"
proof -
  obtain q where q: "aq_push A (aq_new A 100) i = Some q"
    and x: "x = \<lparr>shared = \<lparr>scancode_queue = None, kbd_waker = aw_new W, ready_queue = q\<rparr>, pc = Popping,
      started = False, accepted = [], handled = []\<rparr>"
    using assms(3) by (auto simp: kbd_boot_def bindR_Inr_iff)
  have "items q = [i]" using aq_push_SomeD(1) [OF assms(1) q] aq_newD [OF assms(1), of 100] by simp
  with assms(2) show ?thesis by (simp add: kbd_inv_def x scancodes_def aw_docs_def)
qed

lemma kbd_inv_reachable:
  assumes docs: "aq_docs A items cap" "aq_docs S sitems scap" "aw_docs W held"
    and "kbd_boot A W i = Inr x" and "(kbd_step A S W i)\<^sup>*\<^sup>* x y"
  shows "kbd_inv items sitems held i y"
  using assms(5)
  by (induction rule: rtranclp_induct)
    (auto intro: kbd_inv_boot [OF docs(1,3) assms(4)] kbd_inv_step [OF docs])

text \<open>
  C6: No wake-up is lost and no accepted key either. In every state that the keyboard task and the
  interrupts can reach: if the processor is halted, every scancode that the queue accepted has been
  handled, in the order of arrival, and the waker is registered for the next one; and whenever
  scancodes wait while the task is not being polled, the task is ready to run.
\<close>

theorem keyboard_no_lost_wakeup:
  assumes "aq_docs A items cap" and "aq_docs S sitems scap" and "aw_docs W held"
    and "kbd_boot A W i = Inr x" and "(kbd_step A S W i)\<^sup>*\<^sup>* x y"
  shows "handled y @ in_flight (pc y) @ scancodes sitems (shared y) = accepted y \<and>
    (pc y = Halted \<longrightarrow> handled y = accepted y \<and> held (kbd_waker (shared y)) = Some \<lparr>tw_task_id = i\<rparr>) \<and>
    (pc y \<in> {Popping, Checking} \<and> scancodes sitems (shared y) \<noteq> [] \<longrightarrow> i \<in> set (items (ready_queue (shared y))))"
proof -
  have inv: "kbd_inv items sitems held i y" by (rule kbd_inv_reachable [OF assms])
  have "pc y = Halted \<Longrightarrow> scancodes sitems (shared y) = [] \<and> held (kbd_waker (shared y)) = Some \<lparr>tw_task_id = i\<rparr>"
    using inv by (auto simp: kbd_inv_def)
  moreover have "i \<in> set (items (ready_queue (shared y)))"
    if "pc y \<in> {Popping, Checking}" "scancodes sitems (shared y) \<noteq> []"
  proof -
    have "items (ready_queue (shared y)) \<noteq> []" "set (items (ready_queue (shared y))) \<subseteq> {i}"
      using inv that by (auto simp: kbd_inv_def)
    then show ?thesis by (cases "items (ready_queue (shared y))") auto
  qed
  moreover have "handled y @ in_flight (pc y) @ scancodes sitems (shared y) = accepted y"
    using inv by (simp add: kbd_inv_def)
  ultimately show ?thesis by auto
qed

text \<open>A poll without an interrupt in between: the steps of the relation do what \<^verbatim>\<open>poll_next\<close> does.\<close>

lemma poll_next_steps:
  assumes "pc x = Fast_Path" and "poll_next S W \<lparr>tw_task_id = i\<rparr> (shared x) = Inr (r, st)"
  shows "(kbd_step A S W i)\<^sup>*\<^sup>* x (x\<lparr>shared := st, pc := (case r of Some c \<Rightarrow> Handling c | None \<Rightarrow> Popping)\<rparr>)"
proof -
  obtain r1 st1 where p1: "pop_scancode S (shared x) = Inr (r1, st1)"
    using assms(2) by (auto simp: poll_next_def bindR_Inr_iff)
  note s1 = kbd_step.fast_path [OF assms(1) p1, of A W i]
  show ?thesis
  proof (cases r1)
    case (Some c)
    with assms(2) p1 s1 show ?thesis by (auto simp: poll_next_def)
  next
    case None
    define x1 where "x1 = x\<lparr>shared := st1, pc := Registering\<rparr>"
    have s1: "kbd_step A S W i x x1" using s1 None by (simp add: x1_def)
    define x2 where "x2 = x1\<lparr>shared := register_waker W \<lparr>tw_task_id = i\<rparr> (shared x1), pc := Rechecking\<rparr>"
    have s2: "kbd_step A S W i x1 x2" unfolding x2_def by (rule kbd_step.register) (simp add: x1_def)
    obtain r2 st2 where p2: "pop_scancode S (shared x2) = Inr (r2, st2)"
      and r: "r = r2" "st = (case r2 of Some c \<Rightarrow> take_waker W st2 | None \<Rightarrow> st2)"
      using assms(2) p1 None
      by (auto simp: poll_next_def bindR_Inr_iff x2_def x1_def split: option.splits)
    have "pc x2 = Rechecking" by (simp add: x2_def)
    note s3 = kbd_step.recheck [OF this p2, of A W i]
    have "(kbd_step A S W i)\<^sup>*\<^sup>* x2 (x\<lparr>shared := st, pc := (case r of Some c \<Rightarrow> Handling c | None \<Rightarrow> Popping)\<rparr>)"
    proof (cases r2)
      case None
      with s3 r show ?thesis by (simp add: x2_def x1_def r_into_rtranclp)
    next
      case (Some c)
      have "kbd_step A S W i (x2\<lparr>shared := st2, pc := Taking c\<rparr>)
          (x2\<lparr>shared := st2, pc := Taking c\<rparr>\<lparr>shared := take_waker W (shared (x2\<lparr>shared := st2, pc := Taking c\<rparr>)), pc := Handling c\<rparr>)"
        by (rule kbd_step.take) simp
      with s3 r Some show ?thesis by (auto simp: x2_def x1_def intro: converse_rtranclp_into_rtranclp)
    qed
    with s1 s2 show ?thesis by (meson converse_rtranclp_into_rtranclp)
  qed
qed

section \<open>One poll of the task\<close>

lemma keypress_loop_exact:
  assumes S: "aq_docs S sitems scap" and W: "aw_docs W held"
  shows "scancode_queue st = Some q \<Longrightarrow>
    (case forR (\<lambda>c (kb, con). handle_scancode decode F c kb con) (sitems q) (keyboard, con) of
       Inl e \<Rightarrow> keypress_loop S W cx decode F st keyboard con = Some (Inl e)
     | Inr (kb, con') \<Rightarrow> \<exists>q' a. keypress_loop S W cx decode F st keyboard con =
           Some (Inr (st\<lparr>scancode_queue := Some q', kbd_waker := a\<rparr>, kb, con')) \<and> sitems q' = [] \<and> scap q' = scap q \<and> held a = Some cx)"
proof (induction "sitems q" arbitrary: st q keyboard con)
  case Nil
  have "poll_next S W cx st = Inr (None, register_waker W cx st)"
    using Nil aq_pop_empty [OF S, of q] by (simp add: poll_next_def pop_scancode_def register_waker_def)
  then have "keypress_loop S W cx decode F st keyboard con = Some (Inr (register_waker W cx st, keyboard, con))"
    by (subst keypress_loop.simps) simp
  moreover have "register_waker W cx st = st\<lparr>scancode_queue := Some q, kbd_waker := aw_register W (kbd_waker st) cx\<rparr>"
    using Nil(2) by (simp add: register_waker_def)
  moreover have "held (aw_register W (kbd_waker st) cx) = Some cx" using W by (simp add: aw_docs_def)
  ultimately show ?case using Nil(1) [symmetric] by auto
next
  case (Cons c cs)
  obtain q1 where q1: "aq_pop S q = Some (c, q1)" "sitems q1 = cs" "scap q1 = scap q" using aq_popE [OF S Cons(2) [symmetric]] .
  let ?st = "st\<lparr>scancode_queue := Some q1\<rparr>"
  have "poll_next S W cx st = Inr (Some c, ?st)" using Cons(3) q1 by (simp add: poll_next_def pop_scancode_def)
  then have loop: "keypress_loop S W cx decode F st keyboard con = (case handle_scancode decode F c keyboard con of
      Inl e \<Rightarrow> Some (Inl e) | Inr (keyboard, con) \<Rightarrow> keypress_loop S W cx decode F ?st keyboard con)"
    by (subst keypress_loop.simps) simp
  show ?case
  proof (cases "handle_scancode decode F c keyboard con")
    case (Inl e)
    then show ?thesis using loop by (simp add: Cons(2) [symmetric])
  next
    case (Inr r)
    obtain kb1 con1 where r: "r = (kb1, con1)" by (rule prod.exhaust)
    show ?thesis using Inr r loop Cons(1) [OF q1(2) [symmetric], of ?st kb1 con1]
      by (cases "forR (\<lambda>c (kb, con). handle_scancode decode F c kb con) cs (kb1, con1)") (auto simp: Cons(2) [symmetric] q1(2,3))
  qed
qed

text \<open>
  A poll of the keyboard task prints what is in the queue. With no interrupt in between it handles the scancodes in
  their order, each with the decoder as the one before it left it, and panics only if drawing a key does; then the
  queue is empty, and the waker of the task is in place for the next scancode.
\<close>

theorem print_keypresses_exact:
  assumes "aq_docs S sitems scap" and "aw_docs W held" and "scancode_queue st = Some q"
  shows "case forR (\<lambda>c (kb, con). handle_scancode decode F c kb con) (sitems q) (keyboard, con) of
       Inl e \<Rightarrow> print_keypresses S W cx decode new F (Some keyboard) st con = Inl e
     | Inr (kb, con') \<Rightarrow> \<exists>q' a. print_keypresses S W cx decode new F (Some keyboard) st con =
           Inr (st\<lparr>scancode_queue := Some q', kbd_waker := a\<rparr>, kb, con') \<and> sitems q' = [] \<and> scap q' = scap q \<and> held a = Some cx"
  using keypress_loop_exact [where decode = decode and F = F and keyboard = keyboard and con = con and cx = cx, OF assms]
  by (cases "forR (\<lambda>c (kb, con). handle_scancode decode F c kb con) (sitems q) (keyboard, con)")
    (use run_loop_simps(2) in \<open>force simp: print_keypresses_def\<close>)+

section \<open>The ready queue can overflow\<close>

text \<open>
  A scancode that arrives between registering the waker and looking at the queue again makes the task
  ready once more while it is still being polled. One round of this adds one entry to the ready queue.
\<close>

definition in_window ::
  "('q \<Rightarrow> TaskId list) \<Rightarrow> ('q \<Rightarrow> nat) \<Rightarrow> ('s \<Rightarrow> u8 list) \<Rightarrow> ('s \<Rightarrow> nat) \<Rightarrow> ('a \<Rightarrow> TaskWaker option) \<Rightarrow>
   TaskId \<Rightarrow> nat \<Rightarrow> ('s, 'a, 'q) kbd_system \<Rightarrow> bool" where
  "in_window items cap sitems scap held i n x \<longleftrightarrow>
     pc x = Rechecking \<and>
     (\<exists>q. scancode_queue (shared x) = Some q \<and> sitems q = [] \<and> scap q = 100) \<and>
     held (kbd_waker (shared x)) = Some \<lparr>tw_task_id = i\<rparr> \<and>
     items (ready_queue (shared x)) = replicate n i \<and> cap (ready_queue (shared x)) = 100"

lemma fast_path_window:
  assumes docs: "aq_docs A items cap" "aq_docs S sitems scap" "aw_docs W held"
    and "pc x = Fast_Path" and "scancode_queue (shared x) = Some q" and "sitems q = []" and "scap q = 100"
    and "items (ready_queue (shared x)) = replicate n i" and "cap (ready_queue (shared x)) = 100"
  shows "\<exists>y. (kbd_step A S W i)\<^sup>*\<^sup>* x y \<and> in_window items cap sitems scap held i n y"
proof -
  define x1 where "x1 = x\<lparr>shared := shared x, pc := Registering\<rparr>"
  have "pop_scancode S (shared x) = Inr (None, shared x)"
    using assms(5,6) by (simp add: pop_scancode_def aq_pop_empty [OF docs(2)])
  from kbd_step.fast_path [OF assms(4) this, of A W i] have s1: "kbd_step A S W i x x1" by (simp add: x1_def)
  define x2 where "x2 = x1\<lparr>shared := register_waker W \<lparr>tw_task_id = i\<rparr> (shared x1), pc := Rechecking\<rparr>"
  have s2: "kbd_step A S W i x1 x2" unfolding x2_def by (rule kbd_step.register) (simp add: x1_def)
  have "in_window items cap sitems scap held i n x2"
    using assms(5-9) docs(3) by (simp add: in_window_def x2_def x1_def register_waker_def aw_docs_def)
  with s1 s2 show ?thesis by (meson converse_rtranclp_into_rtranclp rtranclp.rtrancl_refl)
qed

lemma window_interrupt:
  assumes docs: "aq_docs A items cap" "aq_docs S sitems scap" "aw_docs W held"
    and "in_window items cap sitems scap held i n x"
  shows "100 \<le> n \<Longrightarrow> add_scancode A S W c (shared x) = Inl (Unwrap_Failed ''task_queue full'')"
    and "n < 100 \<Longrightarrow> \<exists>st q. add_scancode A S W c (shared x) = Inr st \<and> scancode_queue st = Some q \<and>
      sitems q = [c] \<and> scap q = 100 \<and> items (ready_queue st) = replicate (Suc n) i \<and> cap (ready_queue st) = 100"
proof -
  obtain q where q: "scancode_queue (shared x) = Some q" "sitems q = []" "scap q = 100"
    using assms(4) by (auto simp: in_window_def)
  obtain q' where q': "aq_push S q c = Some q'" "sitems q' = [c]" "scap q' = 100"
    using aq_pushE [OF docs(2), of q c] q(2,3) by auto
  have w: "fst (aw_wake W (kbd_waker (shared x))) = Some \<lparr>tw_task_id = i\<rparr>"
    using assms(4) docs(3) by (simp add: in_window_def aw_docs_def)
  have r: "items (ready_queue (shared x)) = replicate n i" "cap (ready_queue (shared x)) = 100"
    using assms(4) by (simp_all add: in_window_def)
  define st1 where "st1 = (shared x)\<lparr>scancode_queue := Some q', kbd_waker := snd (aw_wake W (kbd_waker (shared x)))\<rparr>"
  have add: "add_scancode A S W c (shared x) =
      bindR (wake_task A \<lparr>tw_task_id = i\<rparr> (ready_queue (shared x))) (\<lambda>q. Inr (st1\<lparr>ready_queue := q\<rparr>))"
    by (simp add: add_scancode_def task_wake_def q(1) q'(1) st1_def case_prod_beta w Let_def)
  show "100 \<le> n \<Longrightarrow> add_scancode A S W c (shared x) = Inl (Unwrap_Failed ''task_queue full'')"
    using aq_push_full [OF docs(1), of "ready_queue (shared x)" i] r by (simp add: add wake_task_def)
  assume "n < 100"
  then obtain rq where "aq_push A (ready_queue (shared x)) i = Some rq" "items rq = replicate n i @ [i]" "cap rq = 100"
    using aq_pushE [OF docs(1), of "ready_queue (shared x)" i] r by auto
  then show "\<exists>st q. add_scancode A S W c (shared x) = Inr st \<and> scancode_queue st = Some q \<and>
      sitems q = [c] \<and> scap q = 100 \<and> items (ready_queue st) = replicate (Suc n) i \<and> cap (ready_queue st) = 100"
    using q' by (intro exI [of _ "st1\<lparr>ready_queue := rq\<rparr>"] exI [of _ q'])
      (simp add: add wake_task_def st1_def replicate_append_same)
qed

lemma window_round:
  assumes docs: "aq_docs A items cap" "aq_docs S sitems scap" "aw_docs W held"
    and win: "in_window items cap sitems scap held i n x" and "n < 100"
  shows "\<exists>y. (kbd_step A S W i)\<^sup>*\<^sup>* x y \<and> in_window items cap sitems scap held i (Suc n) y"
proof -
  obtain st q where st: "add_scancode A S W 0 (shared x) = Inr st" "scancode_queue st = Some q"
    "sitems q = [0]" "scap q = 100" "items (ready_queue st) = replicate (Suc n) i" "cap (ready_queue st) = 100"
    using window_interrupt(2) [OF docs win assms(5)] by blast
  define x1 where "x1 = x\<lparr>shared := st, accepted := accepted x @ (if accepts S (shared x) 0 then [0] else []),
    pc := (if pc x = Halted then Popping else pc x)\<rparr>"
  have pcx: "pc x = Rechecking" using win by (simp add: in_window_def)
  have s1: "kbd_step A S W i x x1"
    unfolding x1_def by (rule kbd_step.interrupt [OF _ st(1)]) (simp add: pcx)
  obtain q' where q': "aq_pop S q = Some (0, q')" "sitems q' = []" "scap q' = 100"
    using aq_popE [OF docs(2) st(3)] st(4) by metis
  define x2 where "x2 = x1\<lparr>shared := st\<lparr>scancode_queue := Some q'\<rparr>, pc := Taking 0\<rparr>"
  have "kbd_step A S W i x1 (x1\<lparr>shared := st\<lparr>scancode_queue := Some q'\<rparr>, pc := (case Some 0 of Some c \<Rightarrow> Taking c | None \<Rightarrow> Popping)\<rparr>)"
    by (rule kbd_step.recheck) (simp_all add: x1_def pcx pop_scancode_def st(2) q'(1))
  then have s2: "kbd_step A S W i x1 x2" by (simp add: x2_def)
  define x3 where "x3 = x2\<lparr>shared := take_waker W (shared x2), pc := Handling 0\<rparr>"
  have s3: "kbd_step A S W i x2 x3" unfolding x3_def by (rule kbd_step.take) (simp add: x2_def)
  define x4 where "x4 = x3\<lparr>handled := handled x3 @ [0], pc := Fast_Path\<rparr>"
  have s4: "kbd_step A S W i x3 x4" unfolding x4_def by (rule kbd_step.handle) (simp add: x3_def)
  have x4: "pc x4 = Fast_Path" "scancode_queue (shared x4) = Some q'"
    "items (ready_queue (shared x4)) = replicate (Suc n) i" "cap (ready_queue (shared x4)) = 100"
    by (simp_all add: x4_def x3_def x2_def take_waker_def st(5,6))
  obtain y where y: "(kbd_step A S W i)\<^sup>*\<^sup>* x4 y" "in_window items cap sitems scap held i (Suc n) y"
    using fast_path_window [OF docs x4(1,2) q'(2,3) x4(3,4)] by blast
  have "(kbd_step A S W i)\<^sup>*\<^sup>* x x4" using s1 s2 s3 s4 by (meson converse_rtranclp_into_rtranclp rtranclp.rtrancl_refl)
  with y show ?thesis by (meson rtranclp_trans)
qed

lemma boot_window:
  assumes docs: "aq_docs A items cap" "aq_docs S sitems scap" "aw_docs W held"
    and "kbd_boot A W i = Inr x"
  shows "\<exists>y. (kbd_step A S W i)\<^sup>*\<^sup>* x y \<and> in_window items cap sitems scap held i 0 y"
proof -
  obtain q where q: "aq_push A (aq_new A 100) i = Some q"
    and x: "x = \<lparr>shared = \<lparr>scancode_queue = None, kbd_waker = aw_new W, ready_queue = q\<rparr>, pc = Popping,
      started = False, accepted = [], handled = []\<rparr>"
    using assms(4) by (auto simp: kbd_boot_def bindR_Inr_iff)
  have iq: "items q = [i]" "cap q = 100"
    using aq_push_SomeD [OF docs(1) q] aq_newD [OF docs(1), of 100] by simp_all
  obtain q' where q': "aq_pop A q = Some (i, q')" "items q' = []" "cap q' = 100"
    using aq_popE [OF docs(1) iq(1)] iq(2) by metis
  have "kbd_step A S W i x (x\<lparr>shared := (shared x)\<lparr>ready_queue := q'\<rparr>,
      pc := (if i \<noteq> i then Popping else if started x then Fast_Path else Starting)\<rparr>)"
    by (rule kbd_step.pop_task) (simp_all add: x q'(1))
  moreover define x1 where "x1 = x\<lparr>shared := (shared x)\<lparr>ready_queue := q'\<rparr>, pc := Starting\<rparr>"
  ultimately have s1: "kbd_step A S W i x x1" by (simp add: x)
  define x2 where "x2 = x1\<lparr>shared := (shared x1)\<lparr>scancode_queue := Some (aq_new S 100)\<rparr>, started := True, pc := Fast_Path\<rparr>"
  have s2: "kbd_step A S W i x1 x2"
    unfolding x2_def by (rule kbd_step.start) (simp_all add: x1_def x scancode_stream_new_def)
  have x2: "pc x2 = Fast_Path" "scancode_queue (shared x2) = Some (aq_new S 100)"
    "items (ready_queue (shared x2)) = replicate 0 i" "cap (ready_queue (shared x2)) = 100"
    using q' by (simp_all add: x2_def x1_def)
  have new: "sitems (aq_new S 100) = []" "scap (aq_new S 100) = 100" using aq_newD [OF docs(2), of 100] by simp_all
  obtain y where "(kbd_step A S W i)\<^sup>*\<^sup>* x2 y" "in_window items cap sitems scap held i 0 y"
    using fast_path_window [OF docs x2(1,2) new x2(3,4)] by blast
  with s1 s2 show ?thesis by (meson converse_rtranclp_into_rtranclp)
qed

text \<open>
  C34: The ready queue can overflow: when scancodes arrive in the window of the same poll 101 times, the
  keyboard interrupt panics because the queue of ready tasks, which holds 100 entries for one task, is full.
\<close>

theorem keyboard_wake_overflow:
  assumes "aq_docs A items cap" and "aq_docs S sitems scap" and "aw_docs W held"
    and "kbd_boot A W i = Inr x"
  shows "\<exists>y. (kbd_step A S W i)\<^sup>*\<^sup>* x y \<and> pc y = Rechecking \<and>
    add_scancode A S W c (shared y) = Inl (Unwrap_Failed ''task_queue full'')"
proof -
  have "n \<le> 100 \<Longrightarrow> \<exists>y. (kbd_step A S W i)\<^sup>*\<^sup>* x y \<and> in_window items cap sitems scap held i n y" for n
  proof (induction n)
    case 0
    then show ?case using boot_window [OF assms] by simp
  next
    case (Suc n)
    then obtain y where y: "(kbd_step A S W i)\<^sup>*\<^sup>* x y" "in_window items cap sitems scap held i n y" by auto
    with window_round [OF assms(1-3) y(2)] Suc.prems show ?case by (meson Suc_le_lessD rtranclp_trans)
  qed
  from this [of 100] obtain y where "(kbd_step A S W i)\<^sup>*\<^sup>* x y" "in_window items cap sitems scap held i 100 y" by auto
  with window_interrupt(1) [OF assms(1-3)] show ?thesis by (auto simp: in_window_def)
qed

section \<open>Instances\<close>

definition booted :: "(nat \<times> u8 list, TaskWaker option, nat \<times> TaskId list) kbd_system" where
  "booted = \<lparr>shared = \<lparr>scancode_queue = None, kbd_waker = None, ready_queue = (100, [TaskId 0])\<rparr>, pc = Popping,
     started = False, accepted = [], handled = []\<rparr>"

lemma booted: "kbd_boot list_queue option_waker (TaskId 0) = Inr booted"
  by (simp add: kbd_boot_def list_queue_def option_waker_def booted_def)

theorem keyboard_no_lost_wakeup_witness:
  "\<exists>y. (kbd_step list_queue list_queue option_waker (TaskId 0))\<^sup>*\<^sup>* booted y \<and> pc y = Rechecking \<and>
     handled y @ in_flight (pc y) @ scancodes snd (shared y) = accepted y"
proof -
  obtain y where y: "(kbd_step list_queue list_queue option_waker (TaskId 0))\<^sup>*\<^sup>* booted y" "pc y = Rechecking"
    using boot_window [OF list_queue_docs list_queue_docs option_waker_docs booted] by (auto simp: in_window_def)
  from keyboard_no_lost_wakeup [OF list_queue_docs list_queue_docs option_waker_docs booted y(1)] y show ?thesis
    by blast
qed

text \<open>A decoder that counts scancodes and makes a carriage return of every key that is pressed.\<close>

definition return_decoder :: "nat \<Rightarrow> u8 \<Rightarrow> DecodedKey option \<times> nat" where
  "return_decoder n c = (if c < 0x80 then Some (Unicode 0x0D) else None, n + 1)"

theorem print_keypresses_exact_witness:
  "\<exists>st' con'. print_keypresses list_queue option_waker \<lparr>tw_task_id = TaskId 0\<rparr> return_decoder 0 block_font (Some 0)
     \<lparr>scancode_queue = Some (100, [0x1E, 0x9E]), kbd_waker = None, ready_queue = (100 :: nat, [])\<rparr> \<lparr>serial_out = [], screen = small_writer\<rparr> =
       Inr (st', 2, con') \<and> kbd_waker st' = Some \<lparr>tw_task_id = TaskId 0\<rparr>"
proof -
  let ?st = "\<lparr>scancode_queue = Some (100, [0x1E, 0x9E]), kbd_waker = None, ready_queue = (100 :: nat, [])\<rparr>"
    and ?con = "\<lparr>serial_out = [], screen = small_writer\<rparr>"
  have "\<exists>con'. forR (\<lambda>c (kb, con). handle_scancode return_decoder block_font c kb con) [0x1E, 0x9E] (0, ?con) = Inr (2, con')"
    by (simp add: handle_scancode_def return_decoder_def print_key_def vga_print_def write_string_def write_char_def put_char_def
        carriage_return_def small_writer_fields numeral_2_eq_2)
  with print_keypresses_exact [OF list_queue_docs option_waker_docs, where st = ?st and q = "(100, [0x1E, 0x9E])" and decode = return_decoder
      and F = block_font and keyboard = 0 and con = ?con and new = 0 and cx = "\<lparr>tw_task_id = TaskId 0\<rparr>"]
  show ?thesis by fastforce
qed

theorem keyboard_wake_overflow_witness:
  "\<exists>y. (kbd_step list_queue list_queue option_waker (TaskId 0))\<^sup>*\<^sup>* booted y \<and> pc y = Rechecking \<and>
     add_scancode list_queue list_queue option_waker 0x1E (shared y) = Inl (Unwrap_Failed ''task_queue full'')"
  using keyboard_wake_overflow [OF list_queue_docs list_queue_docs option_waker_docs booted] .

end
