(* ===== verification/Interrupts.thy ===== *)
theory Interrupts
  imports Io_Apic Keyboard
begin

text \<open>
  \<^verbatim>\<open>kernel/src/interrupts.rs\<close>: the interrupt table and the handlers. A handler is a function on the state
  it can touch: the devices, the timer count and its lock, the screen lock, the interrupt
  controllers, the keyboard queue and the serial port. The records above the level of a trace that handlers log are
  collected in \<open>irq_log\<close>, for whoever has the screen to draw them. A handler that calls \<^verbatim>\<open>hlt_loop\<close>, or that waits for
  a lock held by the code it interrupted, never returns.
\<close>

section \<open>State\<close>

text \<open>The crate \<^verbatim>\<open>pic8259\<close> drives the legacy interrupt controllers.\<close>

record 'd chained_pics =
  pics_initialize :: "'d \<Rightarrow> 'd"
  pics_disable :: "'d \<Rightarrow> 'd"
  notify_end_of_interrupt :: "'d \<Rightarrow> u8 \<Rightarrow> 'd"

text \<open>
  Everything outside the repository that the handlers use; \<open>general\<close> says which vectors the macro
  \<^verbatim>\<open>set_general_handler!\<close> fills.
\<close>

record ('d, 's, 'a, 'q) platform =
  pf_machine :: "'d machine"
  pf_pics :: "'d chained_pics"
  pf_task_queue :: "(TaskId, 'q) array_queue"
  pf_scancode_queue :: "(u8, 's) array_queue"
  pf_waker :: "(TaskWaker, 'a) atomic_waker"
  pf_general :: "u8 \<Rightarrow> bool"

record ('d, 's, 'a, 'q) irq_state =
  hw :: 'd
  timer :: nat
  timer_locked :: bool
  writer_locked :: bool
  apics :: apic_state
  kbd_state :: "('s, 'a, 'q) kbd"
  irq_serial :: "string list"
  irq_log :: "Record list"

text \<open>What the processor and the formatter supply to a handler: the texts that it prints.\<close>

record frame_texts =
  frame :: string
  error_code :: string
  fault_address :: string
  fault_function :: string

section \<open>The interrupt table\<close>

datatype Handler =
    division_error | debug_exception | non_maskable_interrupt | breakpoint_exception | overflow_exception
  | bound_range_exceeded | invalid_opcode | device_not_available | double_fault | invalid_tss
  | segment_not_present | stack_segment_fault | general_protection_fault | page_fault | alignment_check
  | machine_check | simd_floating_point | virtualization | cp_protection_exception
  | hv_injection_exception | vmm_communication_exception | security_exception
  | timer_interrupt | keyboard_interrupt | spurious_local_apic_interrupt | spurious_io_apic_interrupt
  | generic

definition PIC_2_OFFSET :: u8 where "PIC_2_OFFSET = PIC_1_OFFSET + 8"

definition exception_handlers :: "(u8 \<times> Handler) list" where
  "exception_handlers =
     [(0, division_error), (1, debug_exception), (2, non_maskable_interrupt), (3, breakpoint_exception),
      (4, overflow_exception), (5, bound_range_exceeded), (6, invalid_opcode), (7, device_not_available),
      (8, double_fault), (10, invalid_tss), (11, segment_not_present), (12, stack_segment_fault),
      (13, general_protection_fault), (14, page_fault), (17, alignment_check), (18, machine_check),
      (19, simd_floating_point), (20, virtualization), (21, cp_protection_exception),
      (28, hv_injection_exception), (29, vmm_communication_exception), (30, security_exception)]"

definition IDT :: "(u8 \<Rightarrow> bool) \<Rightarrow> u8 \<Rightarrow> Handler option" where
  "IDT gen v =
     (let h = map_of
       ([(index_as_u8 SpuriousIoApic, spurious_io_apic_interrupt),
         (index_as_u8 SpuriousLocalApic, spurious_local_apic_interrupt),
         (index_as_u8 Idx_Keyboard, keyboard_interrupt),
         (index_as_u8 Idx_Timer, timer_interrupt)] @ exception_handlers) v
      in if h = None \<and> gen v then Some generic else h)"

section \<open>The handlers\<close>

definition interrupt_println :: "string \<Rightarrow> ('d, 's, 'a, 'q) irq_state \<Rightarrow> ('d, 's, 'a, 'q) irq_state" where
  "interrupt_println s st = st\<lparr>irq_serial := irq_serial st @ [s]\<rparr>"

text \<open>\<^verbatim>\<open>interrupt_begin\<close> takes the screen lock away from whoever holds it.\<close>

definition interrupt_begin :: "('d, 's, 'a, 'q) irq_state \<Rightarrow> ('d, 's, 'a, 'q) irq_state" where
  "interrupt_begin st = (interrupt_println ''Interrupt Begin'' st)\<lparr>writer_locked := False\<rparr>"

definition hlt_loop :: "'x outcome" where
  "hlt_loop = Inl Diverges"

definition generic_handler :: "u8 \<Rightarrow> ('d, 's, 'a, 'q) irq_state \<Rightarrow> ('d, 's, 'a, 'q) irq_state outcome" where
  "generic_handler index st = Inl (Panicked ''handle irq'')"

text \<open>The handlers that print a message, the error code where there is one, and the stack frame, and return.\<close>

fun report_text :: "Handler \<Rightarrow> frame_texts \<Rightarrow> string" where
  "report_text breakpoint_exception fr = ''EXCEPTION: BREAKPOINT'' @ [CHR 0x0A] @ frame fr"
| "report_text division_error fr = ''EXCEPTION: DIVISION ERROR'' @ [CHR 0x0A] @ frame fr"
| "report_text non_maskable_interrupt fr = ''EXCEPTION: NMI'' @ [CHR 0x0A] @ frame fr"
| "report_text debug_exception fr = ''EXCEPTION: DEBUG'' @ [CHR 0x0A] @ frame fr"
| "report_text overflow_exception fr = ''EXCEPTION: OVERFLOW'' @ [CHR 0x0A] @ frame fr"
| "report_text bound_range_exceeded fr = ''EXCEPTION: BOUND RANGE EXCEEDED'' @ [CHR 0x0A] @ frame fr"
| "report_text invalid_opcode fr = ''EXCEPTION: INVALID OPCODE'' @ [CHR 0x0A] @ frame fr"
| "report_text device_not_available fr = ''EXCEPTION: DEVICE NOT AVAILABLE'' @ [CHR 0x0A] @ frame fr"
| "report_text invalid_tss fr = ''EXCEPTION: INVALID TSS ('' @ error_code fr @ '') '' @ [CHR 0x0A] @ frame fr"
| "report_text segment_not_present fr = ''EXCEPTION: SEGMENT NOT PRESENT ('' @ error_code fr @ '') '' @ [CHR 0x0A] @ frame fr"
| "report_text stack_segment_fault fr = ''EXCEPTION: STACK SEGMENT FAULT ('' @ error_code fr @ '') '' @ [CHR 0x0A] @ frame fr"
| "report_text general_protection_fault fr =
     ''EXCEPTION: GENERAL PROTECTION FAULT ('' @ error_code fr @ '') '' @ [CHR 0x0A] @ frame fr"
| "report_text alignment_check fr = ''EXCEPTION: ALIGNMENT CHECK ('' @ error_code fr @ '') '' @ [CHR 0x0A] @ frame fr"
| "report_text machine_check fr = ''EXCEPTION: MACHINE CHECK'' @ [CHR 0x0A] @ frame fr"
| "report_text simd_floating_point fr = ''EXCEPTION: SIMD FLOATING POINT EXCEPTION'' @ [CHR 0x0A] @ frame fr"
| "report_text cp_protection_exception fr =
     ''EXCEPTION: CONTROL PROTECTION EXCEPTION ('' @ error_code fr @ '')'' @ [CHR 0x0A] @ frame fr"
| "report_text virtualization fr = ''EXCEPTION: VIRTUALIZATION EXCEPTION)'' @ [CHR 0x0A] @ frame fr"
| "report_text hv_injection_exception fr = ''EXCEPTION: HYPERVISOR INJECTION EXCEPTION'' @ [CHR 0x0A] @ frame fr"
| "report_text vmm_communication_exception fr =
     ''EXCEPTION: VMM COMMUNICATION EXCEPTION ('' @ error_code fr @ '')'' @ [CHR 0x0A] @ frame fr"
| "report_text security_exception fr = ''EXCEPTION: SECURITY EXCEPTION ('' @ error_code fr @ '')'' @ [CHR 0x0A] @ frame fr"
| "report_text _ fr = ''''"

definition reporting_handler ::
  "Handler \<Rightarrow> frame_texts \<Rightarrow> ('d, 's, 'a, 'q) irq_state \<Rightarrow> ('d, 's, 'a, 'q) irq_state" where
  "reporting_handler h fr st = interrupt_println (report_text h fr) (interrupt_begin st)"

definition double_fault_handler :: "('d, 's, 'a, 'q) irq_state \<Rightarrow> ('d, 's, 'a, 'q) irq_state outcome" where
  "double_fault_handler st = (let st = interrupt_begin st in Inl (Panicked ''EXCEPTION: DOUBLE FAULT''))"

definition page_fault_handler ::
  "frame_texts \<Rightarrow> ('d, 's, 'a, 'q) irq_state \<Rightarrow> ('d, 's, 'a, 'q) irq_state outcome" where
  "page_fault_handler fr st =
     (let st = interrupt_begin st;
          st = interrupt_println ''EXCEPTION: PAGE FAULT'' st;
          st = interrupt_println (''Accessed Address: '' @ fault_address fr) st;
          st = interrupt_println (''Error Code: '' @ error_code fr) st;
          st = interrupt_println (''Function: '' @ fault_function fr) st;
          st = interrupt_println (frame fr) st
      in hlt_loop)"

definition keyboard_interrupt_handler ::
  "('d, 's, 'a, 'q) platform \<Rightarrow> ('d, 's, 'a, 'q) irq_state \<Rightarrow> ('d, 's, 'a, 'q) irq_state outcome" where
  "keyboard_interrupt_handler P st =
     (let st = interrupt_begin st;
          (scancode, d) = in8 (pf_machine P) (hw st) 0x60
      in bindR (add_scancode (pf_task_queue P) (pf_scancode_queue P) (pf_waker P) scancode (kbd_state st)) (\<lambda>k.
           Inr (st\<lparr>kbd_state := k,
             irq_log := irq_log st @ (case scancode_warning (pf_scancode_queue P) scancode (kbd_state st) of None \<Rightarrow> [] | Some r \<Rightarrow> [r]),
             hw := notify_end_of_interrupt (pf_pics P) d (index_as_u8 Idx_Keyboard)\<rparr>)))"

definition timer_interrupt_handler ::
  "('d, 's, 'a, 'q) platform \<Rightarrow> ('d, 's, 'a, 'q) irq_state \<Rightarrow> ('d, 's, 'a, 'q) irq_state outcome" where
  "timer_interrupt_handler P st =
     (if timer_locked st then Inl Diverges
      else bindR (add_usize (timer st) 1) (\<lambda>n.
        Inr (st\<lparr>timer := n,
          hw := notify_end_of_interrupt (pf_pics P) (hw st) (index_as_u8 Idx_Timer)\<rparr>)))"

definition spurious_local_apic_interrupt_handler ::
  "('d, 's, 'a, 'q) irq_state \<Rightarrow> ('d, 's, 'a, 'q) irq_state outcome" where
  "spurious_local_apic_interrupt_handler st = Inr st"

text \<open>Its call of \<^verbatim>\<open>breakpoint\<close> is a hint to an emulator and has no effect on this state.\<close>

definition spurious_io_apic_interrupt_handler ::
  "('d, 's, 'a, 'q) platform \<Rightarrow> ('d, 's, 'a, 'q) irq_state \<Rightarrow> ('d, 's, 'a, 'q) irq_state outcome" where
  "spurious_io_apic_interrupt_handler P st =
     bindR (end_of_interrupt (pf_machine P) (apics st) (hw st)) (\<lambda>d. Inr (st\<lparr>hw := d\<rparr>))"

definition run_handler ::
  "('d, 's, 'a, 'q) platform \<Rightarrow> Handler \<Rightarrow> u8 \<Rightarrow> frame_texts \<Rightarrow> ('d, 's, 'a, 'q) irq_state \<Rightarrow>
   ('d, 's, 'a, 'q) irq_state outcome" where
  "run_handler P h v fr st = (case h of
     generic \<Rightarrow> generic_handler v st
   | double_fault \<Rightarrow> double_fault_handler st
   | page_fault \<Rightarrow> page_fault_handler fr st
   | general_protection_fault \<Rightarrow> (let st = reporting_handler h fr st in hlt_loop)
   | machine_check \<Rightarrow> (let st = reporting_handler h fr st in Inl (Panicked ''MACHINE CHECK''))
   | keyboard_interrupt \<Rightarrow> keyboard_interrupt_handler P st
   | timer_interrupt \<Rightarrow> timer_interrupt_handler P st
   | spurious_local_apic_interrupt \<Rightarrow> spurious_local_apic_interrupt_handler st
   | spurious_io_apic_interrupt \<Rightarrow> spurious_io_apic_interrupt_handler P st
   | _ \<Rightarrow> Inr (reporting_handler h fr st))"

text \<open>An interrupt with vector \<open>v\<close>. A vector without a gate raises the segment-not-present exception.\<close>

definition interrupt :: "('d, 's, 'a, 'q) platform \<Rightarrow> frame_texts \<Rightarrow> u8 \<Rightarrow> ('d, 's, 'a, 'q) irq_state \<Rightarrow>
   ('d, 's, 'a, 'q) irq_state outcome" where
  "interrupt P fr v st =
     (case IDT (pf_general P) v of
        Some h \<Rightarrow> run_handler P h v fr st
      | None \<Rightarrow> run_handler P segment_not_present v fr st)"

section \<open>Lemmas\<close>

lemma begin_simps [simp]:
  "timer (interrupt_begin st) = timer st" "timer_locked (interrupt_begin st) = timer_locked st"
  "kbd_state (interrupt_begin st) = kbd_state st" "apics (interrupt_begin st) = apics st"
  "hw (interrupt_begin st) = hw st" "\<not> writer_locked (interrupt_begin st)" "irq_log (interrupt_begin st) = irq_log st"
  by (simp_all add: interrupt_begin_def interrupt_println_def)

lemma reporting_simps [simp]:
  "timer (reporting_handler h fr st) = timer st" "timer_locked (reporting_handler h fr st) = timer_locked st"
  "kbd_state (reporting_handler h fr st) = kbd_state st" "apics (reporting_handler h fr st) = apics st"
  "hw (reporting_handler h fr st) = hw st" "\<not> writer_locked (reporting_handler h fr st)"
  "irq_log (reporting_handler h fr st) = irq_log st"
  by (simp_all add: reporting_handler_def interrupt_println_def interrupt_begin_def)

lemma IDT_device_vectors:
  "IDT gen 32 = Some timer_interrupt" "IDT gen 33 = Some keyboard_interrupt"
  "IDT gen 39 = Some spurious_io_apic_interrupt" "IDT gen 40 = Some spurious_local_apic_interrupt"
  by (simp_all add: IDT_def PIC_1_OFFSET_def)

lemma IDT_device_only:
  "IDT gen v = Some timer_interrupt \<Longrightarrow> v = 32"
  "IDT gen v = Some keyboard_interrupt \<Longrightarrow> v = 33"
  by (auto simp: IDT_def PIC_1_OFFSET_def exception_handlers_def Let_def split: if_splits)

lemma run_handler_frame:
  assumes "run_handler P h v fr st = Inr st'"
  shows "h \<noteq> timer_interrupt \<Longrightarrow> timer st' = timer st"
    and "h \<noteq> keyboard_interrupt \<Longrightarrow> kbd_state st' = kbd_state st \<and> irq_log st' = irq_log st"
    and "timer_locked st' = timer_locked st" and "apics st' = apics st"
  using assms
  by (cases h; auto simp: run_handler_def generic_handler_def double_fault_handler_def page_fault_handler_def
      hlt_loop_def Let_def keyboard_interrupt_handler_def timer_interrupt_handler_def bindR_Inr_iff
      spurious_local_apic_interrupt_handler_def spurious_io_apic_interrupt_handler_def
      split: if_splits prod.splits)+

lemma interrupt_timer:
  "interrupt P fr 32 st = (if timer_locked st then Inl Diverges
     else if Suc (timer st) < 2 ^ 64 then Inr (st\<lparr>timer := Suc (timer st),
       hw := notify_end_of_interrupt (pf_pics P) (hw st) 32\<rparr>) else Inl Overflow)"
  by (simp add: interrupt_def IDT_device_vectors run_handler_def timer_interrupt_handler_def add_usize_def
      PIC_1_OFFSET_def)

lemma interrupt_frame:
  assumes "interrupt P fr v st = Inr st'"
  shows "v \<noteq> 32 \<Longrightarrow> timer st' = timer st" and "v \<noteq> 33 \<Longrightarrow> kbd_state st' = kbd_state st \<and> irq_log st' = irq_log st"
    and "timer_locked st' = timer_locked st" and "apics st' = apics st"
proof -
  obtain h where h: "run_handler P h v fr st = Inr st'"
    and idt: "h = timer_interrupt \<Longrightarrow> v = 32" "h = keyboard_interrupt \<Longrightarrow> v = 33"
    using assms IDT_device_only [of "pf_general P" v]
    by (auto simp: interrupt_def split: option.splits)
  show "v \<noteq> 32 \<Longrightarrow> timer st' = timer st" "v \<noteq> 33 \<Longrightarrow> kbd_state st' = kbd_state st \<and> irq_log st' = irq_log st"
    "timer_locked st' = timer_locked st" "apics st' = apics st"
    using run_handler_frame [OF h] idt by blast+
qed

section \<open>Properties\<close>

text \<open>
  C36: A processor exception with a handler stops the kernel exactly when it is a double fault, a general
  protection fault, a page fault or a machine check; every other one returns, with the devices, the
  timer and the keyboard as they were and the screen lock free.
\<close>

theorem exception_outcomes:
  assumes "(v, h) \<in> set exception_handlers"
  shows "(is_ok (interrupt P fr v st) \<longleftrightarrow> v \<notin> {8, 13, 14, 18}) \<and>
    (\<forall>st'. interrupt P fr v st = Inr st' \<longrightarrow> hw st' = hw st \<and> timer st' = timer st \<and>
       kbd_state st' = kbd_state st \<and> apics st' = apics st \<and> \<not> writer_locked st')"
proof -
  have idt: "IDT (pf_general P) v = Some h"
    using assms by (auto simp: exception_handlers_def IDT_def PIC_1_OFFSET_def)
  have "h \<notin> {timer_interrupt, keyboard_interrupt, spurious_local_apic_interrupt, spurious_io_apic_interrupt, generic}"
    "h \<in> {double_fault, general_protection_fault, page_fault, machine_check} \<longleftrightarrow> v \<in> {8, 13, 14, 18}"
    using assms by (auto simp: exception_handlers_def)
  then show ?thesis
    by (cases h) (auto simp: interrupt_def idt run_handler_def double_fault_handler_def page_fault_handler_def
        hlt_loop_def Let_def)
qed

theorem exception_outcomes_witness:
  "\<forall>(P :: (recorder, nat \<times> u8 list, TaskWaker option, nat \<times> TaskId list) platform) fr st.
     is_ok (interrupt P fr 6 st) \<and> \<not> is_ok (interrupt P fr 14 st)"
proof (intro allI)
  fix P :: "(recorder, nat \<times> u8 list, TaskWaker option, nat \<times> TaskId list) platform" and fr st
  show "is_ok (interrupt P fr 6 st) \<and> \<not> is_ok (interrupt P fr 14 st)"
    using exception_outcomes [of 6 invalid_opcode P fr st] exception_outcomes [of 14 page_fault P fr st]
    by (simp add: exception_handlers_def)
qed

end
