(* ===== verification/Pit.thy ===== *)
theory Pit
  imports Interrupts
begin

text \<open>
  \<^verbatim>\<open>kernel/src/device/pit.rs\<close>: programming the interval timer, and sleeping until the timer interrupt
  has counted up. The interrupts that arrive while the processor sleeps are an argument of the
  model.
\<close>

section \<open>Programming the timer\<close>

definition BASE_FREQUENCY :: nat where "BASE_FREQUENCY = 1193182"

datatype Channel = Channel0
datatype AccessMode = LatchCountValue | LoByteOnly | HiByteOnly | LoAndHiByte
datatype OperatingMode =
    InterruptOnTerminalCount | HardwareRetriggerableOneShot | RateGenerator | SquareWave
  | SoftwareTriggeredStrobe | HardwareTriggeredStrobe | RateGenerator2 | SquareWave2

fun channel_value :: "Channel \<Rightarrow> u8" where
  "channel_value Channel0 = 0"

fun access_value :: "AccessMode \<Rightarrow> u8" where
  "access_value LatchCountValue = 0" | "access_value LoByteOnly = 1"
| "access_value HiByteOnly = 2" | "access_value LoAndHiByte = 3"

fun operating_value :: "OperatingMode \<Rightarrow> u8" where
  "operating_value InterruptOnTerminalCount = 0" | "operating_value HardwareRetriggerableOneShot = 1"
| "operating_value RateGenerator = 2" | "operating_value SquareWave = 3"
| "operating_value SoftwareTriggeredStrobe = 4" | "operating_value HardwareTriggeredStrobe = 5"
| "operating_value RateGenerator2 = 6" | "operating_value SquareWave2 = 7"

definition mode_command :: "Channel \<Rightarrow> AccessMode \<Rightarrow> OperatingMode \<Rightarrow> bool \<Rightarrow> u8" where
  "mode_command channel access_mode operating_mode bcd =
     push_bit 6 (channel_value channel) OR push_bit 4 (access_value access_mode)
     OR push_bit 1 (operating_value operating_mode) OR of_bool bcd"

definition write_mode_command ::
  "'d machine \<Rightarrow> Channel \<Rightarrow> AccessMode \<Rightarrow> OperatingMode \<Rightarrow> bool \<Rightarrow> 'd \<Rightarrow> 'd" where
  "write_mode_command D channel access_mode operating_mode bcd d =
     out8 D d 0x43 (mode_command channel access_mode operating_mode bcd)"

definition write_reload_count :: "'d machine \<Rightarrow> u16 \<Rightarrow> 'd \<Rightarrow> 'd" where
  "write_reload_count D count d =
     (let lo = ucast (count AND 0xFF); hi = ucast (drop_bit 8 count AND 0xFF);
          d = out8 D d 0x40 lo
      in out8 D d 0x40 hi)"

definition set_frequency :: "'d machine \<Rightarrow> nat \<Rightarrow> 'd \<Rightarrow> 'd outcome" where
  "set_frequency D frequency d =
     bindR (div_usize BASE_FREQUENCY frequency) (\<lambda>frequency.
     bindR (assertR (frequency \<le> 0xFFFF)) (\<lambda>_.
       Inr (write_reload_count D (word_of_nat frequency) d)))"

definition pit_init :: "'d machine \<Rightarrow> 'd \<Rightarrow> 'd outcome" where
  "pit_init D d =
     set_frequency D 1000 (write_mode_command D Channel0 LoAndHiByte SquareWave False d)"

definition read_count :: "'d machine \<Rightarrow> 'd \<Rightarrow> u16 \<times> 'd" where
  "read_count D d =
     (let d = write_mode_command D Channel0 LatchCountValue InterruptOnTerminalCount False d;
          (lo, d) = in8 D d 0x40;
          (hi, d) = in8 D d 0x40
      in (ucast lo OR push_bit 8 (ucast hi), d))"

section \<open>Sleeping\<close>

text \<open>
  The interrupts of one turn of the loop in \<^verbatim>\<open>sleep\<close>: those that arrive while \<^verbatim>\<open>get_pit_uptime\<close> holds the
  lock of the timer, and those that arrive after it until the processor is back from \<^verbatim>\<open>hlt\<close>.
\<close>

record arrivals =
  in_lock :: "u8 list"
  in_halt :: "u8 list"

definition deliver :: "('d, 's, 'a, 'q) platform \<Rightarrow> frame_texts \<Rightarrow> u8 list \<Rightarrow> ('d, 's, 'a, 'q) irq_state \<Rightarrow>
   ('d, 's, 'a, 'q) irq_state outcome" where
  "deliver P fr vs st = forR (interrupt P fr) vs st"

definition get_pit_uptime :: "('d, 's, 'a, 'q) platform \<Rightarrow> frame_texts \<Rightarrow> u8 list \<Rightarrow> ('d, 's, 'a, 'q) irq_state \<Rightarrow>
   (nat \<times> ('d, 's, 'a, 'q) irq_state) outcome" where
  "get_pit_uptime P fr vs st =
     (if timer_locked st then Inl Diverges
      else bindR (deliver P fr vs (st\<lparr>timer_locked := True\<rparr>)) (\<lambda>st.
        Inr (timer st, st\<lparr>timer_locked := False\<rparr>)))"

partial_function (option) sleep_loop ::
  "('d, 's, 'a, 'q) platform \<Rightarrow> frame_texts \<Rightarrow> nat \<Rightarrow> (nat \<Rightarrow> arrivals) \<Rightarrow> nat \<Rightarrow> ('d, 's, 'a, 'q) irq_state \<Rightarrow>
   ('d, 's, 'a, 'q) irq_state outcome option" where
  "sleep_loop P fr until arr n st =
     (case get_pit_uptime P fr (in_lock (arr n)) st of
        Inl e \<Rightarrow> Some (Inl e)
      | Inr (now, st) \<Rightarrow>
          if until = now then Some (Inr st)
          else (case deliver P fr (in_halt (arr n)) st of
                  Inl e \<Rightarrow> Some (Inl e)
                | Inr st \<Rightarrow> sleep_loop P fr until arr (Suc n) st))"

text \<open>\<^verbatim>\<open>sleep\<close>, of a duration given in milliseconds, which are truncated to 64 bits.\<close>

definition sleep ::
  "('d, 's, 'a, 'q) platform \<Rightarrow> frame_texts \<Rightarrow> nat \<Rightarrow> (nat \<Rightarrow> arrivals) \<Rightarrow> ('d, 's, 'a, 'q) irq_state \<Rightarrow>
   ('d, 's, 'a, 'q) irq_state outcome" where
  "sleep P fr duration arr st =
     (let ms = duration mod 2 ^ 64
      in if ms = 0 then Inr st
         else bindR (get_pit_uptime P fr (in_lock (arr 0)) st) (\<lambda>(now, st).
              bindR (add_usize now ms) (\<lambda>until. run_loop (sleep_loop P fr until arr 1 st))))"

section \<open>Lemmas\<close>

lemma deliver_quiet:
  assumes "deliver P fr vs st = Inr st'" and "32 \<notin> set vs"
  shows "timer st' = timer st" and "timer_locked st' = timer_locked st"
proof -
  show "timer st' = timer st"
    using assms unfolding deliver_def
    by (induction vs arbitrary: st) (auto simp: bindR_Inr_iff interrupt_frame)
  show "timer_locked st' = timer_locked st"
    using forR_keeps [of "interrupt P fr" timer_locked vs st st'] interrupt_frame(3) assms(1) unfolding deliver_def by blast
qed

lemma deliver_locked_tick:
  assumes "timer_locked st" and "deliver P fr vs st = Inr st'"
  shows "32 \<notin> set vs"
  using assms unfolding deliver_def
proof (induction vs arbitrary: st)
  case (Cons v vs)
  then obtain st1 where st1: "interrupt P fr v st = Inr st1" "forR (interrupt P fr) vs st1 = Inr st'"
    by (auto simp: bindR_Inr_iff)
  have "v \<noteq> 32" using st1(1) Cons.prems(1) by (auto simp: interrupt_timer)
  moreover have "timer_locked st1" using interrupt_frame(3) [OF st1(1)] Cons.prems(1) by simp
  ultimately show ?case using Cons.IH [OF _ st1(2)] by simp
qed simp

text \<open>Reading the clock gives the count and changes neither it nor the lock.\<close>

lemma get_pit_uptimeD:
  assumes "get_pit_uptime P fr vs st = Inr (now, st')"
  shows "now = timer st" and "timer st' = timer st" and "\<not> timer_locked st'" and "\<not> timer_locked st"
    and "32 \<notin> set vs"
proof -
  obtain st1 where st1: "deliver P fr vs (st\<lparr>timer_locked := True\<rparr>) = Inr st1" "now = timer st1"
    "st' = st1\<lparr>timer_locked := False\<rparr>" and l: "\<not> timer_locked st"
    using assms by (auto simp: get_pit_uptime_def bindR_Inr_iff split: if_splits)
  show "32 \<notin> set vs" using deliver_locked_tick [OF _ st1(1)] by simp
  from deliver_quiet [OF st1(1) this] st1 l
  show "now = timer st" "timer st' = timer st" "\<not> timer_locked st'" "\<not> timer_locked st" by simp_all
qed
lemma deliver_mono: "deliver P fr vs st = Inr st' \<Longrightarrow> timer st \<le> timer st'"
  unfolding deliver_def
proof (induction vs arbitrary: st)
  case (Cons v vs)
  then obtain st1 where st1: "interrupt P fr v st = Inr st1" "forR (interrupt P fr) vs st1 = Inr st'"
    by (auto simp: bindR_Inr_iff)
  have "timer st \<le> timer st1"
    using st1(1) by (cases "v = 32") (auto simp: interrupt_timer interrupt_frame split: if_splits)
  with Cons.IH [OF st1(2)] show ?case by simp
qed simp

text \<open>Induction over the turns of a loop that ends.\<close>

lemma sleep_loop_induct [consumes 1, case_names read_stuck wakes halt_stuck turn]:
  assumes "sleep_loop P fr until arr n st = Some r"
    and stuck: "\<And>n st e. get_pit_uptime P fr (in_lock (arr n)) st = Inl e \<Longrightarrow> Q n st (Inl e)"
    and ok: "\<And>n st st1. get_pit_uptime P fr (in_lock (arr n)) st = Inr (until, st1) \<Longrightarrow> Q n st (Inr st1)"
    and halt: "\<And>n st now st1 e. get_pit_uptime P fr (in_lock (arr n)) st = Inr (now, st1) \<Longrightarrow> until \<noteq> now \<Longrightarrow>
      deliver P fr (in_halt (arr n)) st1 = Inl e \<Longrightarrow> Q n st (Inl e)"
    and turn: "\<And>n st now st1 st2 r. get_pit_uptime P fr (in_lock (arr n)) st = Inr (now, st1) \<Longrightarrow> until \<noteq> now \<Longrightarrow>
      deliver P fr (in_halt (arr n)) st1 = Inr st2 \<Longrightarrow> Q (Suc n) st2 r \<Longrightarrow> Q n st r"
  shows "Q n st r"
proof -
  let ?Q = "\<lambda>(((((P', fr'), until'), arr'), n), st) r.
    P' = P \<and> fr' = fr \<and> until' = until \<and> arr' = arr \<longrightarrow> Q n st r"
  have "?Q (((((P, fr), until), arr), n), st) r"
  proof (rule sleep_loop.raw_induct [of ?Q, OF _ assms(1)], clarsimp)
    fix loop n st r
    assume IH: "\<And>P' fr' until' arr' n st r. loop P' fr' until' arr' n st = Some r \<Longrightarrow>
        P' = P \<and> fr' = fr \<and> until' = until \<and> arr' = arr \<longrightarrow> Q n st r"
      and body: "(case get_pit_uptime P fr (in_lock (arr n)) st of Inl e \<Rightarrow> Some (Inl e)
        | Inr (now, st) \<Rightarrow> if until = now then Some (Inr st)
          else case deliver P fr (in_halt (arr n)) st of Inl e \<Rightarrow> Some (Inl e)
            | Inr st \<Rightarrow> loop P fr until arr (Suc n) st) = Some r"
    show "Q n st r"
    proof (cases "get_pit_uptime P fr (in_lock (arr n)) st")
      case (Inl e)
      with body stuck show ?thesis by auto
    next
      case (Inr a)
      then obtain now st1 where up: "get_pit_uptime P fr (in_lock (arr n)) st = Inr (now, st1)" by (cases a) simp
      show ?thesis
      proof (cases "until = now")
        case True
        with body up ok show ?thesis by auto
      next
        case False
        show ?thesis
        proof (cases "deliver P fr (in_halt (arr n)) st1")
          case (Inl e)
          with body up False halt show ?thesis by auto
        next
          case (Inr st2)
          with body up False have "loop P fr until arr (Suc n) st2 = Some r" by simp
          with IH turn [OF up False Inr] show ?thesis by blast
        qed
      qed
    qed
  qed
  then show ?thesis by simp
qed

text \<open>Once the count is past the end of the sleep, the loop does not return.\<close>

lemma sleep_loop_past:
  assumes "sleep_loop P fr until arr n st = Some r" and "until < timer st"
  shows "\<not> is_ok r"
  using assms
proof (induction rule: sleep_loop_induct)
  case (turn n st now st1 st2 r)
  then show ?case using get_pit_uptimeD(2) [OF turn(1)] deliver_mono [OF turn(3)] by simp
qed (auto dest: get_pit_uptimeD)

text \<open>Without timer interrupts the loop does not return either.\<close>

lemma sleep_loop_quiet:
  assumes "sleep_loop P fr until arr n st = Some r" and "until \<noteq> timer st" and "\<forall>k. 32 \<notin> set (in_halt (arr k))"
  shows "\<not> is_ok r"
  using assms(1,2)
proof (induction rule: sleep_loop_induct)
  case (turn n st now st1 st2 r)
  then show ?case using get_pit_uptimeD(2) [OF turn(1)] deliver_quiet(1) [OF turn(3)] assms(3) by simp
qed (auto dest: get_pit_uptimeD)

text \<open>Vectors whose handlers return whatever the state.\<close>

definition harmless :: "('d, 's, 'a, 'q) platform \<Rightarrow> frame_texts \<Rightarrow> u8 \<Rightarrow> bool" where
  "harmless P fr v \<longleftrightarrow> (\<forall>st. is_ok (interrupt P fr v st))"

lemma deliver_ok:
  assumes "\<forall>v\<in>set vs. v \<noteq> 32 \<longrightarrow> harmless P fr v" and "timer_locked st \<Longrightarrow> 32 \<notin> set vs"
    and "timer st + count_list vs 32 < 2 ^ 64"
  shows "\<exists>st'. deliver P fr vs st = Inr st' \<and> timer st' = timer st + count_list vs 32 \<and>
    timer_locked st' = timer_locked st"
  using assms unfolding deliver_def
proof (induction vs arbitrary: st)
  case (Cons v vs)
  obtain st1 where st1: "interrupt P fr v st = Inr st1"
    "timer st1 = timer st + (if v = 32 then 1 else 0)" "timer_locked st1 = timer_locked st"
  proof (cases "v = 32")
    case True
    have "\<not> timer_locked st" "Suc (timer st) < 2 ^ 64" using Cons.prems(2,3) True by auto
    then have "interrupt P fr v st = Inr (st\<lparr>timer := Suc (timer st), hw := notify_end_of_interrupt (pf_pics P) (hw st) 32\<rparr>)"
      unfolding True by (simp add: interrupt_timer)
    then show ?thesis by (rule that) (simp_all add: True)
  next
    case False
    with Cons.prems(1) have "is_ok (interrupt P fr v st)" by (simp add: harmless_def)
    then obtain st1 where "interrupt P fr v st = Inr st1" unfolding is_ok_iff ..
    with interrupt_frame [OF this] False that show ?thesis by simp
  qed
  have "\<exists>st'. forR (interrupt P fr) vs st1 = Inr st' \<and> timer st' = timer st1 + count_list vs 32 \<and>
      timer_locked st' = timer_locked st1"
    by (rule Cons.IH) (use Cons.prems st1 in \<open>auto split: if_splits\<close>)
  with st1 show ?case by auto
qed simp

text \<open>
  Arrivals under which the clock works: no timer interrupt while its lock is held, at most one in a turn,
  always another one to come, and all other interrupts harmless.
\<close>

definition orderly :: "('d, 's, 'a, 'q) platform \<Rightarrow> frame_texts \<Rightarrow> (nat \<Rightarrow> arrivals) \<Rightarrow> bool" where
  "orderly P fr arr \<longleftrightarrow>
     (\<forall>n. 32 \<notin> set (in_lock (arr n)) \<and> count_list (in_halt (arr n)) 32 \<le> 1 \<and>
        (\<forall>v \<in> set (in_lock (arr n)) \<union> set (in_halt (arr n)). v \<noteq> 32 \<longrightarrow> harmless P fr v) \<and>
        (\<exists>k\<ge>n. 32 \<in> set (in_halt (arr k))))"

lemma get_pit_uptime_ok:
  assumes "orderly P fr arr" and "\<not> timer_locked st" and "timer st < 2 ^ 64"
  shows "\<exists>st'. get_pit_uptime P fr (in_lock (arr n)) st = Inr (timer st, st') \<and> timer st' = timer st \<and>
    \<not> timer_locked st'"
proof -
  have q: "32 \<notin> set (in_lock (arr n))" using assms(1) by (simp add: orderly_def)
  then have "count_list (in_lock (arr n)) 32 = 0" by (simp add: count_list_0_iff)
  moreover have "\<forall>v\<in>set (in_lock (arr n)). v \<noteq> 32 \<longrightarrow> harmless P fr v" using assms(1) by (auto simp: orderly_def)
  ultimately obtain st' where "deliver P fr (in_lock (arr n)) (st\<lparr>timer_locked := True\<rparr>) = Inr st'" "timer st' = timer st"
    using deliver_ok [of "in_lock (arr n)" P fr "st\<lparr>timer_locked := True\<rparr>"] q assms(3) by auto
  then show ?thesis using assms(2) by (simp add: get_pit_uptime_def)
qed

lemma sleep_loop_awake:
  assumes "orderly P fr arr" and "\<not> timer_locked st" and "timer st < 2 ^ 64"
  shows "\<exists>st'. sleep_loop P fr (timer st) arr n st = Some (Inr st') \<and> timer st' = timer st"
  using get_pit_uptime_ok [OF assms, of n] by (subst sleep_loop.simps) auto

lemma sleep_turn:
  assumes ord: "orderly P fr arr" and "\<not> timer_locked st" and "timer st < until" and "until < 2 ^ 64"
  obtains st2 where "sleep_loop P fr until arr n st = sleep_loop P fr until arr (Suc n) st2"
    and "timer st2 = timer st + count_list (in_halt (arr n)) 32" and "\<not> timer_locked st2"
    and "count_list (in_halt (arr n)) 32 \<le> 1"
proof -
  have h: "\<forall>v\<in>set (in_halt (arr n)). v \<noteq> 32 \<longrightarrow> harmless P fr v" "count_list (in_halt (arr n)) 32 \<le> 1"
    using ord by (auto simp: orderly_def)
  obtain st1 where st1: "get_pit_uptime P fr (in_lock (arr n)) st = Inr (timer st, st1)"
    "timer st1 = timer st" "\<not> timer_locked st1"
    using get_pit_uptime_ok [OF ord assms(2), of n] assms(3,4) by auto
  obtain st2 where st2: "deliver P fr (in_halt (arr n)) st1 = Inr st2"
    "timer st2 = timer st + count_list (in_halt (arr n)) 32" "\<not> timer_locked st2"
    using deliver_ok [OF h(1), of st1] st1(2,3) h(2) assms(3,4) by auto
  have "sleep_loop P fr until arr n st = sleep_loop P fr until arr (Suc n) st2"
    using assms(3) by (subst sleep_loop.simps) (simp add: st1(1) st2(1))
  with st2(2,3) h(2) that show ?thesis by blast
qed

lemma sleep_loop_ok:
  assumes ord: "orderly P fr arr" and "\<not> timer_locked st" and "timer st \<le> until" and "until < 2 ^ 64"
  shows "\<exists>st'. sleep_loop P fr until arr n st = Some (Inr st') \<and> timer st' = until"
  using assms(2,3)
proof (induction "until - timer st" arbitrary: n st rule: less_induct)
  case less
  obtain k where k: "n \<le> k" "32 \<in> set (in_halt (arr k))" using ord unfolding orderly_def by blast
  have step: "\<exists>st'. sleep_loop P fr until arr m s = Some (Inr st') \<and> timer st' = until"
    if "m \<le> k" "\<not> timer_locked s" "timer s = timer st" for m s
    using that
  proof (induction "k - m" arbitrary: m s)
    case (0 m s)
    show ?case
    proof (cases "timer s < until")
      case True
      obtain s2 where s2: "sleep_loop P fr until arr m s = sleep_loop P fr until arr (Suc m) s2"
        "timer s2 = timer s + count_list (in_halt (arr m)) 32" "\<not> timer_locked s2" "count_list (in_halt (arr m)) 32 \<le> 1"
        using sleep_turn [OF ord 0(3) True assms(4)] .
      have "count_list (in_halt (arr m)) 32 \<noteq> 0" using k(2) 0(1,2) by (simp add: count_list_0_iff)
      then have "timer s2 = Suc (timer s)" using s2(2,4) by simp
      then have "\<exists>st'. sleep_loop P fr until arr (Suc m) s2 = Some (Inr st') \<and> timer st' = until"
        using less.hyps [of s2 "Suc m"] s2(3) 0(4) True by simp
      with s2(1) show ?thesis by simp
    qed (use 0(3,4) less.prems(2) sleep_loop_awake [OF ord, of s m] assms(4) in auto)
  next
    case (Suc d m s)
    show ?case
    proof (cases "timer s < until")
      case True
      obtain s2 where s2: "sleep_loop P fr until arr m s = sleep_loop P fr until arr (Suc m) s2"
        "timer s2 = timer s + count_list (in_halt (arr m)) 32" "\<not> timer_locked s2" "count_list (in_halt (arr m)) 32 \<le> 1"
        using sleep_turn [OF ord Suc(4) True assms(4)] .
      have "\<exists>st'. sleep_loop P fr until arr (Suc m) s2 = Some (Inr st') \<and> timer st' = until"
        using Suc(1) [of "Suc m" s2] less.hyps [of s2 "Suc m"] Suc(2,3,5) s2(2-4) True by (cases "timer s2 = timer s") auto
      with s2(1) show ?thesis by simp
    qed (use Suc(4,5) less.prems(2) sleep_loop_awake [OF ord, of s m] assms(4) in auto)
  qed
  show ?case by (rule step [OF k(1) less.prems(1) refl])
qed

lemma reload_bytes:
  assumes "n \<le> 0xFFFF"
  shows "(ucast ((word_of_nat n :: u16) AND 0xFF) :: u8) = word_of_nat (n mod 256)"
    and "(ucast (drop_bit 8 (word_of_nat n :: u16) AND 0xFF) :: u8) = word_of_nat (n div 256)"
proof -
  have u: "unat (word_of_nat n :: u16) = n" using assms by (simp add: unat_of_nat)
  have m: "(0xFF :: u16) = mask 8" by (simp add: mask_eq_exp_minus_1)
  have c: "unat (ucast (w AND 0xFF) :: u8) = unat w mod 256" for w :: u16
    by (simp add: m unsigned_ucast_eq take_bit_eq_mask [symmetric] unsigned_take_bit_eq) (simp add: take_bit_eq_mod)
  have d: "unat (drop_bit 8 (word_of_nat n :: u16)) = n div 256"
    unfolding unsigned_drop_bit_eq u using assms by (simp add: drop_bit_eq_div take_bit_eq_mod)
  show "(ucast ((word_of_nat n :: u16) AND 0xFF) :: u8) = word_of_nat (n mod 256)"
    unfolding word_unat_eq_iff c u by (simp add: unat_of_nat)
  show "(ucast (drop_bit 8 (word_of_nat n :: u16) AND 0xFF) :: u8) = word_of_nat (n div 256)"
    unfolding word_unat_eq_iff c d by (simp add: unat_of_nat)
qed

section \<open>Properties\<close>

text \<open>
  Setting a frequency panics exactly below 19 Hz, by a division at 0 and by an assertion otherwise; every
  other frequency writes the low and then the high byte of the divisor to the channel.
\<close>

theorem set_frequency_programs:
  "set_frequency D f d =
     (if f = 0 then Inl Div_By_Zero else if f < 19 then Inl Assertion_Failed
      else Inr (out8 D (out8 D d 0x40 (word_of_nat (1193182 div f mod 256))) 0x40 (word_of_nat (1193182 div f div 256))))"
proof (cases "f < 19")
  case True
  have "\<not> 1193182 div f \<le> 0xFFFF" if "f \<noteq> 0"
  proof -
    have "1193182 div 18 \<le> 1193182 div f" using True that by (intro div_le_mono2) auto
    then show ?thesis by simp
  qed
  with True show ?thesis
    by (simp add: set_frequency_def div_usize_def BASE_FREQUENCY_def assertR_def)
next
  case False
  have "1193182 div f \<le> 1193182 div 19" using False by (intro div_le_mono2) auto
  then have le: "1193182 div f \<le> 0xFFFF" by simp
  with False show ?thesis
    by (simp add: set_frequency_def div_usize_def BASE_FREQUENCY_def write_reload_count_def reload_bytes [OF le] Let_def)
qed

text \<open>A sleep that returns has read the clock last, and so released its lock.\<close>

lemma sleep_loop_unlocked:
  assumes "sleep_loop P fr until arr n st = Some r" and "r = Inr st'"
  shows "\<not> timer_locked st'"
  using assms by (induction rule: sleep_loop_induct) (auto simp: get_pit_uptime_def bindR_Inr_iff split: if_splits)

text \<open>Without keyboard interrupts the keyboard's state and the log are as before.\<close>

lemma deliver_no_key:
  assumes "deliver P fr vs st = Inr st'" and "33 \<notin> set vs"
  shows "kbd_state st' = kbd_state st \<and> irq_log st' = irq_log st"
  using assms unfolding deliver_def
proof (induction vs arbitrary: st)
  case (Cons v vs)
  then obtain st1 where st1: "interrupt P fr v st = Inr st1" "forR (interrupt P fr) vs st1 = Inr st'"
    by (auto simp: bindR_Inr_iff)
  with interrupt_frame(2) [OF st1(1)] Cons.IH [OF st1(2)] Cons.prems(2) show ?case by simp
qed simp

lemma get_pit_uptime_no_key:
  assumes "get_pit_uptime P fr vs st = Inr (now, st')" and "33 \<notin> set vs"
  shows "kbd_state st' = kbd_state st \<and> irq_log st' = irq_log st"
  using assms deliver_no_key [of P fr vs "st\<lparr>timer_locked := True\<rparr>"]
  by (auto simp: get_pit_uptime_def bindR_Inr_iff split: if_splits)

lemma sleep_loop_no_key:
  assumes "sleep_loop P fr until arr n st = Some r" and "r = Inr st'"
    and "\<forall>n. 33 \<notin> set (in_lock (arr n)) \<and> 33 \<notin> set (in_halt (arr n))"
  shows "kbd_state st' = kbd_state st \<and> irq_log st' = irq_log st"
  using assms(1,2)
proof (induction rule: sleep_loop_induct)
  case (turn n st now st1 st2 r)
  then show ?case using get_pit_uptime_no_key [OF turn(1)] deliver_no_key [OF turn(3)] assms(3) by simp
next
  case (wakes n st st1)
  then show ?case using get_pit_uptime_no_key [OF wakes(1)] assms(3) by simp
qed simp_all

lemma sleep_no_key:
  assumes "sleep P fr ms arr st = Inr st'" and "\<forall>n. 33 \<notin> set (in_lock (arr n)) \<and> 33 \<notin> set (in_halt (arr n))"
  shows "kbd_state st' = kbd_state st \<and> irq_log st' = irq_log st"
proof (cases "ms mod 2 ^ 64 = 0")
  case False
  with assms(1) obtain now st1 until where st1: "get_pit_uptime P fr (in_lock (arr 0)) st = Inr (now, st1)"
    "run_loop (sleep_loop P fr until arr 1 st1) = Inr st'"
    by (auto simp: sleep_def bindR_Inr_iff Let_def)
  then have "sleep_loop P fr until arr 1 st1 = Some (Inr st')" by (cases "sleep_loop P fr until arr 1 st1") auto
  from sleep_loop_no_key [OF this refl assms(2)] get_pit_uptime_no_key [OF st1(1)] assms(2) show ?thesis by simp
qed (use assms(1) in \<open>simp add: sleep_def\<close>)

lemma sleep_ok:
  assumes "orderly P fr arr" and "\<not> timer_locked st" and "timer st + ms < 2 ^ 64"
  shows "\<exists>st'. sleep P fr ms arr st = Inr st' \<and> timer st' = timer st + ms \<and> \<not> timer_locked st'"
proof (cases "ms = 0")
  case False
  obtain st1 where st1: "get_pit_uptime P fr (in_lock (arr 0)) st = Inr (timer st, st1)" "timer st1 = timer st"
    "\<not> timer_locked st1"
    using get_pit_uptime_ok [OF assms(1,2), of 0] assms(3) by auto
  obtain st' where l: "sleep_loop P fr (timer st + ms) arr 1 st1 = Some (Inr st')" "timer st' = timer st + ms"
    using sleep_loop_ok [OF assms(1) st1(3), of "timer st + ms" 1] st1(2) assms(3) by auto
  with sleep_loop_unlocked [OF l(1)] show ?thesis
    using False assms(3) st1(1) by (simp add: sleep_def add_usize_def)
qed (use assms(2) in \<open>simp add: sleep_def\<close>)

text \<open>
  With a working clock a sleep of \<open>ms\<close> milliseconds ends, and it ends when the timer has counted
  exactly \<open>ms\<close> interrupts.
\<close>

theorem pit_sleep_exact:
  assumes "orderly P fr arr" and "\<not> timer_locked st" and "timer st + ms < 2 ^ 64"
  shows "\<exists>st'. sleep P fr ms arr st = Inr st' \<and> timer st' = timer st + ms"
  using sleep_ok [OF assms] by blast

lemma sleep_okE:
  assumes "is_ok (sleep P fr ms arr st)" and "0 < ms" and "ms < 2 ^ 64"
  obtains st1 r where "get_pit_uptime P fr (in_lock (arr 0)) st = Inr (timer st, st1)" and "timer st1 = timer st"
    and "sleep_loop P fr (timer st + ms) arr 1 st1 = Some r" and "is_ok r"
proof -
  obtain st' where "sleep P fr ms arr st = Inr st'" using assms(1) by (auto simp: is_ok_iff)
  then obtain now st1 where up: "get_pit_uptime P fr (in_lock (arr 0)) st = Inr (now, st1)"
    and "run_loop (sleep_loop P fr (now + ms) arr 1 st1) = Inr st'"
    using assms(2,3) by (auto simp: sleep_def bindR_Inr_iff add_usize_Inr_iff)
  moreover from this(2) have "sleep_loop P fr (now + ms) arr 1 st1 = Some (Inr st')"
    by (cases "sleep_loop P fr (now + ms) arr 1 st1") auto
  ultimately show ?thesis using get_pit_uptimeD(1,2) [OF up] that [of st1 "Inr st'"] by simp
qed

text \<open>
  Two ways in which a sleep does not end: a timer interrupt that arrives while the clock is being read
  waits for the lock that the interrupted code holds; and two timer interrupts between two looks at
  the clock can skip the end of the sleep, because the loop waits for an exact value.
\<close>

theorem pit_sleep_stuck:
  assumes "0 < ms" and "ms < 2 ^ 64"
  shows "(32 \<in> set (in_lock (arr 0)) \<longrightarrow> \<not> is_ok (sleep P fr ms arr st)) \<and>
    (odd ms \<and> (\<forall>n. in_halt (arr n) = [32, 32]) \<longrightarrow> \<not> is_ok (sleep P fr ms arr st))"
proof (intro conjI impI)
  assume "32 \<in> set (in_lock (arr 0))"
  then show "\<not> is_ok (sleep P fr ms arr st)"
    using sleep_okE [OF _ assms] get_pit_uptimeD(5) by metis
next
  assume two: "odd ms \<and> (\<forall>n. in_halt (arr n) = [32, 32])"
  have "\<not> is_ok r" if "sleep_loop P fr until arr n s = Some r" "odd (until + timer s)" for until n s r
    using that
  proof (induction rule: sleep_loop_induct)
    case (turn n s now s1 s2 r)
    then have "timer s2 = timer s + 2"
      using two get_pit_uptimeD(2) [OF turn(1)]
      by (auto simp: deliver_def bindR_Inr_iff interrupt_timer split: if_splits)
    with turn show ?case by simp
  qed (auto dest: get_pit_uptimeD)
  then show "\<not> is_ok (sleep P fr ms arr st)"
    using two by (auto elim!: sleep_okE [OF _ assms])
qed

text \<open>
  C23: After the start of the kernel no sleep ends. The initialisation of the I/O APIC sends every device
  interrupt to vector 39, and if only those and the spurious vector of the local APIC arrive, the timer
  never counts, so that a sleep of any positive length does not return.
\<close>

theorem sleep_after_apic_init_hangs:
  assumes docs: "ioapic_docs (pf_machine P) (virtual_start (io_mapping self)) sel ent"
    and n: "2 < unat (redirection_entry_count self)" "unat (redirection_entry_count self) \<le> 120"
    and legal: "\<forall>i < unat (redirection_entry_count self). legal_mode (ent d (redir_lo i))"
    and ms: "0 < ms" "ms < 2 ^ 64"
  shows "\<exists>d'. ioapic_initialize (pf_machine P) self d = Inr d' \<and>
    (\<forall>arr st. (\<forall>k. set (in_halt (arr k)) \<subseteq>
        {ucast (ent d' (redir_lo i)) | i. i < unat (redirection_entry_count self)} \<union> {index_as_u8 SpuriousLocalApic})
      \<longrightarrow> \<not> is_ok (sleep P fr ms arr st))"
proof -
  obtain d' where d': "ioapic_initialize (pf_machine P) self d = Inr d'"
    "\<And>i. i < unat (redirection_entry_count self) \<Longrightarrow> ent d' (redir_lo i) = spurious_lo (ent d (redir_lo i))"
    using ioapic_initialize_ok [OF docs n legal] by blast
  have "(ucast (spurious_lo lo) :: u8) = 39" for lo
    unfolding spurious_lo_def by (rule bit_word_eqI) (auto simp: bit_simps)
  then have v: "{ucast (ent d' (redir_lo i)) | i. i < unat (redirection_entry_count self)} \<subseteq> {39 :: u8}"
    using d'(2) by auto
  have "\<not> is_ok (sleep P fr ms arr st)"
    if "\<forall>k. set (in_halt (arr k)) \<subseteq>
        {ucast (ent d' (redir_lo i)) | i. i < unat (redirection_entry_count self)} \<union> {index_as_u8 SpuriousLocalApic}"
    for arr st
  proof
    assume "is_ok (sleep P fr ms arr st)"
    then obtain st1 r where s: "timer st1 = timer st" "sleep_loop P fr (timer st + ms) arr 1 st1 = Some r" "is_ok r"
      using sleep_okE [OF _ ms] by metis
    have "\<forall>k. 32 \<notin> set (in_halt (arr k))" using that v by fastforce
    with sleep_loop_quiet [OF s(2)] s ms(1) show False by simp
  qed
  with d'(1) show ?thesis by blast
qed

section \<open>Instances\<close>

definition sim_platform :: "(u8 \<times> (u8 \<Rightarrow> u32), nat \<times> u8 list, TaskWaker option, nat \<times> TaskId list) platform" where
  "sim_platform = \<lparr>pf_machine = sim_ioapic,
     pf_pics = \<lparr>pics_initialize = (\<lambda>d. d), pics_disable = (\<lambda>d. d), notify_end_of_interrupt = (\<lambda>d v. d)\<rparr>,
     pf_task_queue = list_queue, pf_scancode_queue = list_queue, pf_waker = option_waker, pf_general = (\<lambda>_. True)\<rparr>"

definition sim_irq_state :: "(u8 \<times> (u8 \<Rightarrow> u32), nat \<times> u8 list, TaskWaker option, nat \<times> TaskId list) irq_state" where
  "sim_irq_state = \<lparr>hw = (0, \<lambda>_. 0x10000), timer = 0, timer_locked = False, writer_locked = False,
     apics = \<lparr>io_instance = None, local_instance = None\<rparr>,
     kbd_state = \<lparr>scancode_queue = None, kbd_waker = None, ready_queue = (100, [])\<rparr>, irq_serial = [], irq_log = []\<rparr>"

definition no_texts :: frame_texts where
  "no_texts = \<lparr>frame = '''', error_code = '''', fault_address = '''', fault_function = ''''\<rparr>"

lemma harmless_spurious_local: "harmless P fr 40"
  by (simp add: harmless_def interrupt_def IDT_device_vectors run_handler_def spurious_local_apic_interrupt_handler_def)

theorem pit_sleep_exact_witness:
  "\<exists>st'. sleep sim_platform no_texts 5 (\<lambda>n. \<lparr>in_lock = [], in_halt = (if even n then [40, 32] else [40])\<rparr>) sim_irq_state = Inr st' \<and>
     timer st' = 5"
proof -
  have "orderly sim_platform no_texts (\<lambda>n. \<lparr>in_lock = [], in_halt = (if even n then [40, 32] else [40])\<rparr>)"
    by (auto simp: orderly_def harmless_spurious_local) (metis dvd_triv_left le_add2 mult_2)
  from pit_sleep_exact [OF this, of sim_irq_state 5] show ?thesis by (simp add: sim_irq_state_def)
qed

theorem pit_sleep_stuck_witness:
  "\<not> is_ok (sleep sim_platform no_texts 3 (\<lambda>n. \<lparr>in_lock = [], in_halt = [32, 32]\<rparr>) sim_irq_state)"
  using pit_sleep_stuck [of 3 "\<lambda>n. \<lparr>in_lock = [], in_halt = [32, 32]\<rparr>" sim_platform no_texts sim_irq_state] by simp

theorem sleep_after_apic_init_hangs_witness:
  "\<exists>d'. ioapic_initialize sim_ioapic sim_instance (0, \<lambda>_. 0x10000) = Inr d' \<and>
     \<not> is_ok (sleep sim_platform no_texts 1000 (\<lambda>n. \<lparr>in_lock = [], in_halt = [40]\<rparr>) sim_irq_state)"
proof -
  have m: "pf_machine sim_platform = sim_ioapic" by (simp add: sim_platform_def)
  have "\<forall>i < unat (redirection_entry_count sim_instance).
      legal_mode (sim_entries (0, \<lambda>_. 0x10000) (redir_lo i))"
    by (simp add: sim_instance_def legal_mode_def field_def sim_entries_def kept_def mask_eq_exp_minus_1)
  from sleep_after_apic_init_hangs [of sim_platform sim_instance fst sim_entries, unfolded m,
      OF sim_ioapic_docs _ _ this, of 1000 no_texts]
  show ?thesis by (fastforce simp: sim_instance_def)
qed

end
