(* ===== verification/Pci_Types.thy ===== *)
theory Pci_Types
  imports Bit_Fields
begin

text \<open>
  \<^verbatim>\<open>kernel/src/device/pci/types.rs\<close>: addresses in the PCI configuration space, class codes, header types, base
  addresses, and the names of vendors, devices and subclasses.
\<close>

section \<open>Addresses\<close>

record PciAddress =
  segment :: u16
  bus :: u8
  device :: u8
  func :: u8

definition create_local_bus_address :: "PciAddress \<Rightarrow> u16 \<Rightarrow> bool \<Rightarrow> u32" where
  "create_local_bus_address self offset enabled =
     (let enabled = (if enabled then 0x80000000 else 0)
      in push_bit 16 (ucast (bus self)) OR push_bit 11 (ucast (device self)) OR push_bit 8 (ucast (func self))
         OR (ucast offset AND 0xFC) OR enabled)"

datatype PciBaseAddress = PciBaseAddress (bar_value: u32)

datatype PciBaseAddressType = MemorySpace | IOSpace

definition bar_kind :: "PciBaseAddress \<Rightarrow> PciBaseAddressType" where
  "bar_kind self = (if bar_value self AND 1 = 1 then IOSpace else MemorySpace)"

definition actual_address :: "PciBaseAddress \<Rightarrow> u32" where
  "actual_address self = (case bar_kind self of
     MemorySpace \<Rightarrow> bar_value self AND 0xFFF0
   | IOSpace \<Rightarrow> bar_value self AND 0xFFFFFFF0)"

section \<open>Class codes\<close>

datatype PciClassCode =
    Unclassified | MassStorageController | NetworkController | DisplayController
  | MultimediaController | MemoryController | Bridge | SimpleCommunicationController
  | BaseSystemPeripheral | InputDeviceController | DockingStation | Processor | SerialBusController
  | WirelessController | IntelligentController | SatelliteCommunicationController
  | EncryptionController | SignalProcessingController | ProcessingAccelerator
  | NonEssentialInstrumentation | Coprocessor | Unassigned
  | Reserved u8

definition class_codes :: "(u8 \<times> PciClassCode) list" where
  "class_codes = [
      (0x0, Unclassified),
      (0x1, MassStorageController),
      (0x2, NetworkController),
      (0x3, DisplayController),
      (0x4, MultimediaController),
      (0x5, MemoryController),
      (0x6, Bridge),
      (0x7, SimpleCommunicationController),
      (0x8, BaseSystemPeripheral),
      (0x9, InputDeviceController),
      (0xA, DockingStation),
      (0xB, Processor),
      (0xC, SerialBusController),
      (0xD, WirelessController),
      (0xE, IntelligentController),
      (0xF, SatelliteCommunicationController),
      (0x10, EncryptionController),
      (0x11, SignalProcessingController),
      (0x12, ProcessingAccelerator),
      (0x13, NonEssentialInstrumentation),
      (0x40, Coprocessor),
      (0xFF, Unassigned)]"

definition class_new :: "u8 \<Rightarrow> PciClassCode" where
  "class_new i = (case map_of class_codes i of Some c \<Rightarrow> c | None \<Rightarrow> Reserved i)"

fun class_value :: "PciClassCode \<Rightarrow> u8" where
  "class_value Unclassified = 0x0"
| "class_value MassStorageController = 0x1"
| "class_value NetworkController = 0x2"
| "class_value DisplayController = 0x3"
| "class_value MultimediaController = 0x4"
| "class_value MemoryController = 0x5"
| "class_value Bridge = 0x6"
| "class_value SimpleCommunicationController = 0x7"
| "class_value BaseSystemPeripheral = 0x8"
| "class_value InputDeviceController = 0x9"
| "class_value DockingStation = 0xA"
| "class_value Processor = 0xB"
| "class_value SerialBusController = 0xC"
| "class_value WirelessController = 0xD"
| "class_value IntelligentController = 0xE"
| "class_value SatelliteCommunicationController = 0xF"
| "class_value EncryptionController = 0x10"
| "class_value SignalProcessingController = 0x11"
| "class_value ProcessingAccelerator = 0x12"
| "class_value NonEssentialInstrumentation = 0x13"
| "class_value Coprocessor = 0x40"
| "class_value Unassigned = 0xFF"
| "class_value (Reserved i) = i"

datatype PciHeaderType = HdrNormal | PciToPciBridge | CardBusBridge | HdrUnknown u8

definition header_new :: "u8 \<Rightarrow> PciHeaderType" where
  "header_new i = (if i = 0 then HdrNormal else if i = 1 then PciToPciBridge
     else if i = 2 then CardBusBridge else HdrUnknown i)"

fun bar_count :: "PciHeaderType \<Rightarrow> nat" where
  "bar_count HdrNormal = 6"
| "bar_count PciToPciBridge = 2"
| "bar_count CardBusBridge = 0"
| "bar_count (HdrUnknown _) = 0"

section \<open>Identifiers and names\<close>

datatype PciSubclass = PciSubclass (subclass_value: u8)
datatype PciVendorId = PciVendorId (vendor_value: u16)
datatype PciDeviceId = PciDeviceId (device_value: u16)

definition INVALID :: PciVendorId where "INVALID = PciVendorId 0xFFFF"
definition BOCHS :: PciVendorId where "BOCHS = PciVendorId 0x1234"
definition INTEL_CORPORATION :: PciVendorId where "INTEL_CORPORATION = PciVendorId 0x8086"

definition vendor_name :: "PciVendorId \<Rightarrow> string option" where
  "vendor_name self =
     (if self = BOCHS then Some ''Bochs'' else if self = INTEL_CORPORATION then Some ''Intel Corporation''
      else if self = INVALID then Some ''INVALID'' else None)"

definition get_bochs :: "u16 \<Rightarrow> string option" where
  "get_bochs i = (if i = 0x1111 then Some ''Graphics Adapter'' else None)"

definition get_intel :: "u16 \<Rightarrow> string option" where
  "get_intel i =
     (if i = 0x1237 then Some ''440FX - 82441FX PMC [Natoma]''
      else if i = 0x100E then Some ''82540EM Gigabit Ethernet Controller''
      else if i = 0x7000 then Some ''Propolis Virtual PIIX3 ISA Controller'' else None)"

definition device_name :: "PciDeviceId \<Rightarrow> PciVendorId \<Rightarrow> string option" where
  "device_name self vendor_id =
     (if vendor_id = BOCHS then get_bochs (device_value self)
      else if vendor_id = INTEL_CORPORATION then get_intel (device_value self) else None)"

definition subclass_names :: "((PciClassCode \<times> u8) \<times> string option) list" where
  "subclass_names = [
      ((Unassigned, 0x0), Some ''Non-VGA-Compatible''),
      ((Unassigned, 0x1), Some ''VGA-Compatible''),
      ((Unassigned, 0x80), None),
      ((MassStorageController, 0x0), Some ''SCSI Bus Controller''),
      ((MassStorageController, 0x1), Some ''IDE Controller''),
      ((MassStorageController, 0x2), Some ''Floppy Disk Controller''),
      ((MassStorageController, 0x3), Some ''IPI Bus Controller''),
      ((MassStorageController, 0x4), Some ''RAID Controller''),
      ((MassStorageController, 0x5), Some ''ATA Controller''),
      ((MassStorageController, 0x6), Some ''Serial ATA Controller''),
      ((MassStorageController, 0x7), Some ''Serial Attached SCSI Controller''),
      ((MassStorageController, 0x8), Some ''Non-Volatile Memory Controller''),
      ((NetworkController, 0x0), Some ''Ethernet Controller''),
      ((NetworkController, 0x1), Some ''Token Ring Controller''),
      ((NetworkController, 0x2), Some ''FDDI Controller''),
      ((NetworkController, 0x3), Some ''ATM Controller''),
      ((NetworkController, 0x4), Some ''ISDN Controller''),
      ((NetworkController, 0x5), Some ''WorldFlip Controller''),
      ((NetworkController, 0x6), Some ''PICMG 2.14 Multi Computing Controller''),
      ((NetworkController, 0x7), Some ''InfiniBand Controller''),
      ((NetworkController, 0x8), Some ''Fabric Controller''),
      ((DisplayController, 0x0), Some ''VGA Compatible Controller''),
      ((DisplayController, 0x1), Some ''XGA Compatible Controller''),
      ((DisplayController, 0x2), Some ''3D Controller (Not VGA Compatible)''),
      ((MultimediaController, 0x0), Some ''Video Controller''),
      ((MultimediaController, 0x1), Some ''Audio Controller''),
      ((MultimediaController, 0x2), Some ''Computer Telephony Device''),
      ((MultimediaController, 0x3), Some ''Audio Device''),
      ((MemoryController, 0x0), Some ''RAM Controller''),
      ((MemoryController, 0x1), Some ''Flash Controller''),
      ((Bridge, 0x0), Some ''Host Bridge''),
      ((Bridge, 0x1), Some ''ISA Bridge''),
      ((Bridge, 0x2), Some ''EISA Bridge''),
      ((Bridge, 0x3), Some ''MCA Bridge''),
      ((Bridge, 0x4), Some ''PCI-to-PCI Bridge''),
      ((Bridge, 0x5), Some ''PCMCIA Bridge''),
      ((Bridge, 0x6), Some ''NuBus Bridge''),
      ((Bridge, 0x7), Some ''CardBus Bridge''),
      ((Bridge, 0x8), Some ''RACEway Bridge''),
      ((Bridge, 0x9), Some ''PCI-to-PCI Bridge (2)''),
      ((Bridge, 0xA), Some ''InfiniBand-to-PCI Bridge''),
      ((SimpleCommunicationController, 0x0), Some ''Serial Controller''),
      ((SimpleCommunicationController, 0x1), Some ''Parallel Controller''),
      ((SimpleCommunicationController, 0x2), Some ''Multiport Serial Controller''),
      ((SimpleCommunicationController, 0x3), Some ''Modem''),
      ((SimpleCommunicationController, 0x4), Some ''IEEE 488.1/2 (GPIB) Controller''),
      ((SimpleCommunicationController, 0x5), Some ''Smart Card Controller''),
      ((BaseSystemPeripheral, 0x0), Some ''PIC''),
      ((BaseSystemPeripheral, 0x1), Some ''DMA Controller''),
      ((BaseSystemPeripheral, 0x2), Some ''Timer''),
      ((BaseSystemPeripheral, 0x3), Some ''RTC Controller''),
      ((BaseSystemPeripheral, 0x4), Some ''PCI Hot-Plug Controller''),
      ((BaseSystemPeripheral, 0x5), Some ''SD Host Controller''),
      ((BaseSystemPeripheral, 0x6), Some ''IOMMU''),
      ((InputDeviceController, 0x0), Some ''Keyboard Controller''),
      ((InputDeviceController, 0x1), Some ''Digitizer Pen''),
      ((InputDeviceController, 0x2), Some ''Mouse Controller''),
      ((InputDeviceController, 0x3), Some ''Scanner Controller''),
      ((InputDeviceController, 0x4), Some ''Gameport Controller''),
      ((DockingStation, 0x0), Some ''Generic''),
      ((Processor, 0x0), Some ''i386''),
      ((Processor, 0x1), Some ''i486''),
      ((Processor, 0x2), Some ''Pentium''),
      ((Processor, 0x3), Some ''Pentium Pro''),
      ((Processor, 0x10), Some ''Alpha''),
      ((Processor, 0x20), Some ''PowerPC''),
      ((Processor, 0x30), Some ''MIPS''),
      ((Processor, 0x40), Some ''Co-Processor''),
      ((SerialBusController, 0x0), Some ''FireWire (IEEE 1394)''),
      ((SerialBusController, 0x1), Some ''ACCESS Bus''),
      ((SerialBusController, 0x2), Some ''SSA''),
      ((SerialBusController, 0x3), Some ''USB Controller''),
      ((SerialBusController, 0x4), Some ''Fibre Channel''),
      ((SerialBusController, 0x5), Some ''SMBus''),
      ((SerialBusController, 0x6), Some ''InfiniBand''),
      ((SerialBusController, 0x7), Some ''IPMI Interface''),
      ((SerialBusController, 0x8), Some ''SERCOS Interface (IEC 61491)''),
      ((SerialBusController, 0x9), Some ''CANbus Controller''),
      ((WirelessController, 0x0), Some ''iRDA Compatible''),
      ((WirelessController, 0x1), Some ''Consumer IR''),
      ((WirelessController, 0x10), Some ''RF''),
      ((WirelessController, 0x11), Some ''Bluetooth''),
      ((WirelessController, 0x12), Some ''Broadband''),
      ((WirelessController, 0x20), Some ''Ethernet (802.1a)''),
      ((WirelessController, 0x21), Some ''Ethernet (802.1b)''),
      ((IntelligentController, 0x0), Some ''I2O''),
      ((IntelligentController, 0x80), None),
      ((SatelliteCommunicationController, 0x0), Some ''TV Controller''),
      ((SatelliteCommunicationController, 0x1), Some ''Audio Controller''),
      ((SatelliteCommunicationController, 0x2), Some ''Video Controller''),
      ((SatelliteCommunicationController, 0x3), Some ''Voice Controller''),
      ((SatelliteCommunicationController, 0x4), Some ''Data Controller''),
      ((SatelliteCommunicationController, 0x80), None),
      ((EncryptionController, 0x0), Some ''Network and Computing Encrpytion/Decryption''),
      ((EncryptionController, 0x1), Some ''Entertainment Encryption/Decryption''),
      ((SignalProcessingController, 0x0), Some ''DPIO Modules''),
      ((SignalProcessingController, 0x1), Some ''Performance Counters''),
      ((SignalProcessingController, 0x10), Some ''Communication Synchronizer''),
      ((SignalProcessingController, 0x20), Some ''Signal Processing Management'')]"

definition subclass_name :: "PciSubclass \<Rightarrow> PciClassCode \<Rightarrow> string option" where
  "subclass_name self class_code = (case map_of subclass_names (class_code, subclass_value self) of
     Some name \<Rightarrow> name
   | None \<Rightarrow> if subclass_value self = 0x80 then Some ''Other'' else None)"

section \<open>Properties\<close>

lemma config_offset: "(ucast (offset :: u16) :: u32) AND 0xFC = push_bit 2 (field 2 6 (ucast offset))"
proof (rule bit_word_eqI)
  fix n :: nat
  have m: "(0xFC :: u32) = push_bit 2 (mask 6)" by (simp add: mask_eq_exp_minus_1)
  show "bit ((ucast offset :: u32) AND 0xFC) n \<longleftrightarrow> bit (push_bit 2 (field 2 6 (ucast offset)) :: u32) n"
    unfolding m by (cases "2 \<le> n") (auto simp: bit_simps dest!: le_Suc_ex)
qed

text \<open>
  The address written to the configuration port is well formed for a device below 32 and a function below
  8: enable bit, bus, device, function and register are in their fields, and the other bits are 0.
\<close>

theorem config_address_layout:
  assumes "device a < 32" and "func a < 8"
  shows "field 31 1 (create_local_bus_address a offset enabled) = of_bool enabled \<and>
    field 24 7 (create_local_bus_address a offset enabled) = 0 \<and>
    field 16 8 (create_local_bus_address a offset enabled) = ucast (bus a) \<and>
    field 11 5 (create_local_bus_address a offset enabled) = ucast (device a) \<and>
    field 8 3 (create_local_bus_address a offset enabled) = ucast (func a) \<and>
    field 2 6 (create_local_bus_address a offset enabled) = field 2 6 (ucast offset) \<and>
    field 0 2 (create_local_bus_address a offset enabled) = 0"
proof -
  have fits: "fits 5 (ucast (device a) :: u32)" "fits 3 (ucast (func a) :: u32)" "fits 8 (ucast (bus a) :: u32)"
    using assms by (simp_all add: fits_ucast_same fits_unat word_less_nat_alt)
  have addr: "create_local_bus_address a offset enabled = push_bit 16 (ucast (bus a)) OR push_bit 11 (ucast (device a))
      OR push_bit 8 (ucast (func a)) OR push_bit 2 (field 2 6 (ucast offset)) OR push_bit 31 (of_bool enabled)"
    by (simp add: create_local_bus_address_def config_offset)
  show ?thesis
    unfolding addr using fits
    by (simp add: field_or field_same field_below field_above [where m = 8] field_above [where m = 5]
        field_above [where m = 3] field_above [where m = 6])
qed

text \<open>
  Class codes survive the conversion: every byte is the value of the class made from it, and every class is
  the one made from its value, unless it is a reserved class with a code that is assigned.
\<close>

theorem class_code_roundtrip:
  "class_value (class_new i) = i \<and>
   (class_new (class_value c) = c \<longleftrightarrow> c \<notin> Reserved ` fst ` set class_codes)"
proof
  show "class_value (class_new i) = i"
    by (simp add: class_new_def class_codes_def)
  show "class_new (class_value c) = c \<longleftrightarrow> c \<notin> Reserved ` fst ` set class_codes"
  proof (cases c)
    case (Reserved j)
    have "map_of class_codes j = Some c' \<Longrightarrow> c' \<noteq> Reserved j" for c'
      by (auto simp: class_codes_def split: if_splits)
    moreover have "map_of class_codes j = None \<longleftrightarrow> j \<notin> fst ` set class_codes" by (rule map_of_eq_None_iff)
    ultimately show ?thesis using Reserved by (cases "map_of class_codes j") (auto simp: class_new_def)
  qed (auto simp: class_new_def class_codes_def)
qed

theorem config_address_layout_witness:
  "field 11 5 (create_local_bus_address \<lparr>segment = 0, bus = 2, device = 31, func = 7\<rparr> 0x3E True) = 31 \<and>
   create_local_bus_address \<lparr>segment = 0, bus = 2, device = 31, func = 7\<rparr> 0x3E True = 0x8002FF3C"
  using config_address_layout [of "\<lparr>segment = 0, bus = 2, device = 31, func = 7\<rparr>" "0x3E" True]
  by (simp add: create_local_bus_address_def)

text \<open>The mask for a memory base address keeps the low half only, so an address from 64 KiB on is lost.\<close>

lemma actual_address_memory:
  assumes "bar_kind b = MemorySpace"
  shows "actual_address b = (bar_value b AND 0xFFFFFFF0) \<longleftrightarrow> fits 16 (bar_value b)"
proof -
  have m: "(0xFFF0 :: u32) = push_bit 4 (mask 12)" "(0xFFFFFFF0 :: u32) = push_bit 4 (mask 28)"
    by (simp_all add: mask_eq_exp_minus_1)
  define v where "v = bar_value b"
  have "v AND push_bit 4 (mask 12) = v AND push_bit 4 (mask 28) \<longleftrightarrow> fits 16 v"
  proof
    assume eq: "v AND push_bit 4 (mask 12) = v AND push_bit 4 (mask 28)"
    have "bit v n \<longleftrightarrow> n < 16 \<and> bit v n" if "n < 32" for n
      using arg_cong [OF eq, of "\<lambda>w. bit w n"] that by (auto simp: bit_simps)
    then show "fits 16 v" unfolding fits_def by (intro bit_word_eqI) (simp add: bit_simps)
  next
    assume "fits 16 v"
    then show "v AND push_bit 4 (mask 12) = v AND push_bit 4 (mask 28)"
      by (intro bit_word_eqI) (auto simp: bit_simps dest: fits_bit)
  qed
  with assms show ?thesis by (simp add: actual_address_def v_def m)
qed

end
