(* ===== verification/Acpi.thy ===== *)
theory Acpi
  imports Acpi_Handler Local_Apic Pci_Types
begin

text \<open>
  \<^verbatim>\<open>kernel/src/device/acpi/mod.rs\<close>, \<^verbatim>\<open>acpi/rsdp.rs\<close> and \<^verbatim>\<open>device/mod.rs\<close>: finding and reading the ACPI tables, the
  accesses that the AML interpreter makes through the kernel, and device errors. The crates \<^verbatim>\<open>acpi\<close> and
  \<^verbatim>\<open>aml\<close> are a record of parameters.
\<close>

section \<open>Device errors\<close>

datatype AmlError = ValueDoesNotExist string | OtherAmlError string

datatype DeviceErrorKind = AcpiKind string | AmlKind AmlError

record DeviceError =
  err_kind :: DeviceErrorKind
  err_region :: string

definition with_region :: "DeviceError \<Rightarrow> string \<Rightarrow> DeviceError" where
  "with_region self region = self\<lparr>err_region := region\<rparr>"

definition device_error_acpi :: "string \<Rightarrow> DeviceError" where
  "device_error_acpi e = \<lparr>err_kind = AcpiKind e, err_region = ''(unknown)''\<rparr>"

definition device_error_aml :: "AmlError \<Rightarrow> DeviceError" where
  "device_error_aml e = \<lparr>err_kind = AmlKind e, err_region = ''(unknown)''\<rparr>"

section \<open>Accesses of the interpreter\<close>

text \<open>
  The bytes at \<open>n\<close> virtual addresses, through the page tables, of a physical memory. An address that is not
  mapped is a page fault, whose handler never returns.
\<close>

primrec load_bytes :: "'m mapper_ops \<Rightarrow> 'm \<Rightarrow> (nat \<Rightarrow> u8) \<Rightarrow> nat \<Rightarrow> nat \<Rightarrow> u8 list outcome" where
  "load_bytes M m mem v 0 = Inr []"
| "load_bytes M m mem v (Suc n) =
     (case phys_byte M m v of
        None \<Rightarrow> Inl Diverges
      | Some p \<Rightarrow> bindR (load_bytes M m mem (v + 1) n) (\<lambda>bs. Inr (mem p # bs)))"

primrec store_bytes :: "'m mapper_ops \<Rightarrow> 'm \<Rightarrow> nat \<Rightarrow> u8 list \<Rightarrow> (nat \<Rightarrow> u8) \<Rightarrow> (nat \<Rightarrow> u8) outcome" where
  "store_bytes M m v [] mem = Inr mem"
| "store_bytes M m v (b # bs) mem =
     (case phys_byte M m v of
        None \<Rightarrow> Inl Diverges
      | Some p \<Rightarrow> store_bytes M m (v + 1) bs (mem(p := b)))"

text \<open>
  \<^verbatim>\<open>aml_read\<close> and \<^verbatim>\<open>aml_write\<close> at a type of \<open>n\<close> bytes: map the region, access it, and unmap it when the
  mapping is dropped.
\<close>

definition aml_read ::
  "x86_64 \<Rightarrow> 'm mapper_ops \<Rightarrow> (nat \<Rightarrow> u8) \<Rightarrow> nat \<Rightarrow> nat \<Rightarrow> 'm kernel_memory \<Rightarrow>
   (u8 list \<times> 'm kernel_memory) outcome" where
  "aml_read X M mem address n km =
     bindR (map_physical_region X M km address n) (\<lambda>(mapping, km).
     bindR (with_mapper (\<lambda>m km. bindR (load_bytes M m mem (virtual_start mapping) n) (\<lambda>bs. Inr (bs, m, km))) km) (\<lambda>(bs, km).
     bindR (unmap_physical_region X M mapping km) (\<lambda>km. Inr (bs, km))))"

definition aml_write ::
  "x86_64 \<Rightarrow> 'm mapper_ops \<Rightarrow> nat \<Rightarrow> u8 list \<Rightarrow> (nat \<Rightarrow> u8) \<Rightarrow> 'm kernel_memory \<Rightarrow>
   ((nat \<Rightarrow> u8) \<times> 'm kernel_memory) outcome" where
  "aml_write X M address bs mem km =
     bindR (map_physical_region X M km address (length bs)) (\<lambda>(mapping, km).
     bindR (with_mapper (\<lambda>m km. bindR (store_bytes M m (virtual_start mapping) bs mem) (\<lambda>mem. Inr (mem, m, km))) km) (\<lambda>(mem, km).
     bindR (unmap_physical_region X M mapping km) (\<lambda>km. Inr (mem, km))))"

record PciRequest =
  req_segment :: u16
  req_bus :: u8
  req_device :: u8
  req_function :: u8
  req_offset :: u16

definition request_address :: "PciRequest \<Rightarrow> u32" where
  "request_address self =
     push_bit 16 (ucast (req_bus self)) OR push_bit 11 (ucast (req_device self))
     OR push_bit 8 (ucast (req_function self)) OR (ucast (req_offset self) AND 0xFC) OR 0x80000000"

definition aml_read_pci8 :: "'d machine \<Rightarrow> PciRequest \<Rightarrow> 'd \<Rightarrow> u8 \<times> 'd" where
  "aml_read_pci8 D request d = in8 D (out32 D d 0xCF8 (request_address request)) 0xCF8"

definition aml_read_pci16 :: "'d machine \<Rightarrow> PciRequest \<Rightarrow> 'd \<Rightarrow> u16 \<times> 'd" where
  "aml_read_pci16 D request d = in16 D (out32 D d 0xCF8 (request_address request)) 0xCF8"

definition aml_read_pci32 :: "'d machine \<Rightarrow> PciRequest \<Rightarrow> 'd \<Rightarrow> u32 \<times> 'd" where
  "aml_read_pci32 D request d = in32 D (out32 D d 0xCF8 (request_address request)) 0xCF8"

definition aml_write_pci :: "PciRequest \<Rightarrow> 'v \<Rightarrow> 'd \<Rightarrow> 'd" where
  "aml_write_pci request val d = d"

definition aml_read_port8 :: "'d machine \<Rightarrow> u16 \<Rightarrow> 'd \<Rightarrow> u8 \<times> 'd" where
  "aml_read_port8 D port d = in8 D d port"

definition aml_read_port16 :: "'d machine \<Rightarrow> u16 \<Rightarrow> 'd \<Rightarrow> u16 \<times> 'd" where
  "aml_read_port16 D port d = in16 D d port"

definition aml_read_port32 :: "'d machine \<Rightarrow> u16 \<Rightarrow> 'd \<Rightarrow> u32 \<times> 'd" where
  "aml_read_port32 D port d = in32 D d port"

definition aml_write_port8 :: "'d machine \<Rightarrow> u16 \<Rightarrow> u8 \<Rightarrow> 'd \<Rightarrow> 'd" where
  "aml_write_port8 D port val d = out8 D d port val"

definition aml_write_port16 :: "'d machine \<Rightarrow> u16 \<Rightarrow> u16 \<Rightarrow> 'd \<Rightarrow> 'd" where
  "aml_write_port16 D port val d = out16 D d port val"

definition aml_write_port32 :: "'d machine \<Rightarrow> u16 \<Rightarrow> u32 \<Rightarrow> 'd \<Rightarrow> 'd" where
  "aml_write_port32 D port val d = out32 D d port val"

text \<open>
  What the interpreter can reach: the memory state of the kernel, the contents of physical memory, and the
  devices behind the ports.
\<close>

record ('m, 'd) world =
  p_km :: "'m kernel_memory"
  p_mem :: "nat \<Rightarrow> u8"
  p_dev :: 'd

definition on_memory ::
  "('m kernel_memory \<Rightarrow> ('r \<times> 'm kernel_memory) outcome) \<Rightarrow> ('m, 'd) world \<Rightarrow> ('r \<times> ('m, 'd) world) outcome" where
  "on_memory f p = bindR (f (p_km p)) (\<lambda>(r, km). Inr (r, p\<lparr>p_km := km\<rparr>))"

definition drop_mapping ::
  "x86_64 \<Rightarrow> 'm mapper_ops \<Rightarrow> PhysicalMapping \<Rightarrow> ('m, 'd) world \<Rightarrow> ('m, 'd) world outcome" where
  "drop_mapping X M mapping p = bindR (unmap_physical_region X M mapping (p_km p)) (\<lambda>km. Inr (p\<lparr>p_km := km\<rparr>))"

definition to_le :: "nat \<Rightarrow> nat \<Rightarrow> u8 list" where
  "to_le n v = map (\<lambda>i. word_of_nat (v div 256 ^ i)) [0..<n]"

definition from_le :: "u8 list \<Rightarrow> nat" where
  "from_le bs = foldr (\<lambda>b v. unat b + 256 * v) bs 0"

text \<open>
  The requests of the interpreter, one for each method of \<^verbatim>\<open>aml::Handler\<close>, and \<^verbatim>\<open>NoccioloAmlHandler\<close>, which
  answers them with a value, 0 for a write.
\<close>

datatype AmlRequest =
    Read_u8 nat | Read_u16 nat | Read_u32 nat | Read_u64 nat
  | Write_u8 nat u8 | Write_u16 nat u16 | Write_u32 nat u32 | Write_u64 nat u64
  | Read_io_u8 u16 | Read_io_u16 u16 | Read_io_u32 u16
  | Write_io_u8 u16 u8 | Write_io_u16 u16 u16 | Write_io_u32 u16 u32
  | Read_pci_u8 PciRequest | Read_pci_u16 PciRequest | Read_pci_u32 PciRequest
  | Write_pci_u8 PciRequest u8 | Write_pci_u16 PciRequest u16 | Write_pci_u32 PciRequest u32

definition read_mem ::
  "x86_64 \<Rightarrow> 'm mapper_ops \<Rightarrow> nat \<Rightarrow> nat \<Rightarrow> ('m, 'd) world \<Rightarrow> (nat \<times> ('m, 'd) world) outcome" where
  "read_mem X M n address p =
     bindR (aml_read X M (p_mem p) address n (p_km p)) (\<lambda>(bs, km). Inr (from_le bs, p\<lparr>p_km := km\<rparr>))"

definition write_mem ::
  "x86_64 \<Rightarrow> 'm mapper_ops \<Rightarrow> nat \<Rightarrow> nat \<Rightarrow> nat \<Rightarrow> ('m, 'd) world \<Rightarrow> (nat \<times> ('m, 'd) world) outcome" where
  "write_mem X M n address val p =
     bindR (aml_write X M address (to_le n val) (p_mem p) (p_km p)) (\<lambda>(mem, km). Inr (0, p\<lparr>p_mem := mem, p_km := km\<rparr>))"

definition port_read :: "('d \<Rightarrow> 'w :: len word \<times> 'd) \<Rightarrow> ('m, 'd) world \<Rightarrow> (nat \<times> ('m, 'd) world) outcome" where
  "port_read f p = (let (v, d) = f (p_dev p) in Inr (unat v, p\<lparr>p_dev := d\<rparr>))"

definition port_write :: "('d \<Rightarrow> 'd) \<Rightarrow> ('m, 'd) world \<Rightarrow> (nat \<times> ('m, 'd) world) outcome" where
  "port_write f p = Inr (0, p\<lparr>p_dev := f (p_dev p)\<rparr>)"

fun aml_handler ::
  "x86_64 \<Rightarrow> 'm mapper_ops \<Rightarrow> 'd machine \<Rightarrow> AmlRequest \<Rightarrow> ('m, 'd) world \<Rightarrow> (nat \<times> ('m, 'd) world) outcome" where
  "aml_handler X M D (Read_u8 address) = read_mem X M 1 address"
| "aml_handler X M D (Read_u16 address) = read_mem X M 2 address"
| "aml_handler X M D (Read_u32 address) = read_mem X M 4 address"
| "aml_handler X M D (Read_u64 address) = read_mem X M 8 address"
| "aml_handler X M D (Write_u8 address val) = write_mem X M 1 address (unat val)"
| "aml_handler X M D (Write_u16 address val) = write_mem X M 2 address (unat val)"
| "aml_handler X M D (Write_u32 address val) = write_mem X M 4 address (unat val)"
| "aml_handler X M D (Write_u64 address val) = write_mem X M 8 address (unat val)"
| "aml_handler X M D (Read_io_u8 port) = port_read (aml_read_port8 D port)"
| "aml_handler X M D (Read_io_u16 port) = port_read (aml_read_port16 D port)"
| "aml_handler X M D (Read_io_u32 port) = port_read (aml_read_port32 D port)"
| "aml_handler X M D (Write_io_u8 port val) = port_write (aml_write_port8 D port val)"
| "aml_handler X M D (Write_io_u16 port val) = port_write (aml_write_port16 D port val)"
| "aml_handler X M D (Write_io_u32 port val) = port_write (aml_write_port32 D port val)"
| "aml_handler X M D (Read_pci_u8 request) = port_read (aml_read_pci8 D request)"
| "aml_handler X M D (Read_pci_u16 request) = port_read (aml_read_pci16 D request)"
| "aml_handler X M D (Read_pci_u32 request) = port_read (aml_read_pci32 D request)"
| "aml_handler X M D (Write_pci_u8 request val) = port_write (aml_write_pci request val)"
| "aml_handler X M D (Write_pci_u16 request val) = port_write (aml_write_pci request val)"
| "aml_handler X M D (Write_pci_u32 request val) = port_write (aml_write_pci request val)"

text \<open>A sequence of requests, with the answers in order.\<close>

primrec aml_session ::
  "x86_64 \<Rightarrow> 'm mapper_ops \<Rightarrow> 'd machine \<Rightarrow> AmlRequest list \<Rightarrow> ('m, 'd) world \<Rightarrow> (nat list \<times> ('m, 'd) world) outcome" where
  "aml_session X M D [] p = Inr ([], p)"
| "aml_session X M D (r # rs) p =
     bindR (aml_handler X M D r p) (\<lambda>(v, p). bindR (aml_session X M D rs p) (\<lambda>(vs, p). Inr (v # vs, p)))"

section \<open>Tables and the AML context\<close>

datatype SystemState = S0 | S1 | S2 | S3 | S4 | S5

fun state_value :: "SystemState \<Rightarrow> nat" where
  "state_value S0 = 0" | "state_value S1 = 1" | "state_value S2 = 2"
| "state_value S3 = 3" | "state_value S4 = 4" | "state_value S5 = 5"

datatype AddressSpace = SystemMemory | SystemIo | OtherSpace

record GenericAddress =
  address_space :: AddressSpace
  ga_address :: nat

text \<open>The two answers of the FADT that the kernel asks for; both can fail.\<close>

record Fadt =
  pm1a_control_block :: "string + GenericAddress"
  pm1b_control_block :: "string + GenericAddress option"

datatype AmlValue = AmlInteger nat | AmlPackage "AmlValue list" | AmlDevice | AmlOther

text \<open>
  The regions of the PCI configuration space that the tables describe, as the crate \<^verbatim>\<open>acpi\<close> reads them, and the handler
  that the interpreter gets. It keeps the regions but none of its methods uses them.
\<close>

record McfgEntry =
  base_address :: u64
  pci_segment_group :: u16
  bus_number_start :: u8
  bus_number_end :: u8

record NoccioloAmlHandler =
  handler_regions :: "McfgEntry list option"

text \<open>One level of the namespace: its name, and its values, each with its segment and a handle.\<close>

record NamespaceLevel =
  level_name :: string
  level_values :: "(string \<times> nat) list"

text \<open>
  What the kernel uses of the crates. \<open>'t\<close> are the tables found from the root pointer and \<open>'c\<close> is a context
  of the interpreter. Their functions call back into the kernel to reach memory and devices, so they take and
  return that world.
\<close>

record ('m, 'd, 't, 'c) acpi_crates =
  search_for_on_bios :: "('m, 'd) world \<Rightarrow> ((string + PhysicalMapping) \<times> ('m, 'd) world) outcome"
  rsdp_size :: nat
  rsdp_valid :: "PhysicalMapping \<Rightarrow> ('m, 'd) world \<Rightarrow> bool"
  from_validated_rsdp :: "PhysicalMapping \<Rightarrow> ('m, 'd) world \<Rightarrow> ((string + 't) \<times> ('m, 'd) world) outcome"
  find_fadt :: "'t \<Rightarrow> ('m, 'd) world \<Rightarrow> ((string + Fadt) \<times> ('m, 'd) world) outcome"
  find_madt :: "'t \<Rightarrow> ('m, 'd) world \<Rightarrow> ((string + MadtEntry list) \<times> ('m, 'd) world) outcome"
  platform_info :: "'t \<Rightarrow> ('m, 'd) world \<Rightarrow> ((string + unit) \<times> ('m, 'd) world) outcome"
  pci_config_regions_new :: "'t \<Rightarrow> ('m, 'd) world \<Rightarrow> ((string + McfgEntry list) \<times> ('m, 'd) world) outcome"
  dsdt :: "'t \<Rightarrow> string + (nat \<times> nat)"
  ssdts :: "'t \<Rightarrow> (nat \<times> nat) list"
  aml_context_new :: "NoccioloAmlHandler \<Rightarrow> 'c"
  aml_parse_table :: "'c \<Rightarrow> u8 list \<Rightarrow> ('m, 'd) world \<Rightarrow> ((AmlError option \<times> 'c) \<times> ('m, 'd) world) outcome"
  aml_initialize_objects :: "'c \<Rightarrow> ('m, 'd) world \<Rightarrow> ((AmlError option \<times> 'c) \<times> ('m, 'd) world) outcome"
  aml_name_from_str :: "string \<Rightarrow> AmlError + string"
  aml_invoke_method :: "'c \<Rightarrow> string \<Rightarrow> AmlValue option list \<Rightarrow> ('m, 'd) world \<Rightarrow>
    ((AmlError + AmlValue) \<times> 'c \<times> ('m, 'd) world) outcome"
  aml_get_by_path :: "'c \<Rightarrow> string \<Rightarrow> AmlError + AmlValue"
  aml_traverse :: "'c \<Rightarrow> (AmlError + NamespaceLevel list) \<times> 'c"
  aml_get :: "'c \<Rightarrow> nat \<Rightarrow> AmlError + AmlValue"

record 'c AcpiData =
  madt :: "MadtEntry list option"
  fadt :: "Fadt option"
  aml :: "'c option"

definition nocciolo_aml_context_new :: "('m, 'd, 't, 'c) acpi_crates \<Rightarrow> McfgEntry list option \<Rightarrow> 'c" where
  "nocciolo_aml_context_new C rs = (let handler = \<lparr>handler_regions = rs\<rparr> in aml_context_new C handler)"

definition parse_table ::
  "x86_64 \<Rightarrow> 'm mapper_ops \<Rightarrow> ('m, 'd, 't, 'c) acpi_crates \<Rightarrow> nat \<times> nat \<Rightarrow> 'c \<Rightarrow> ('m, 'd) world \<Rightarrow>
   ((DeviceError + unit) \<times> 'c \<times> ('m, 'd) world) outcome" where
  "parse_table X M C table ctx p =
     bindR (on_memory (\<lambda>km. map_physical_region X M km (fst table) (snd table)) p) (\<lambda>(mapping, p).
     bindR (on_memory (with_mapper (\<lambda>m km.
       bindR (load_bytes M m (p_mem p) (virtual_start mapping) (region_length mapping)) (\<lambda>bs. Inr (bs, m, km)))) p) (\<lambda>(data, p).
     bindR (aml_parse_table C ctx data p) (\<lambda>((r, ctx), p).
     bindR (drop_mapping X M mapping p) (\<lambda>p.
       Inr (case r of None \<Rightarrow> Inr () | Some e \<Rightarrow> Inl (with_region (device_error_aml e) ''parse_table''), ctx, p)))))"

primrec parse_tables ::
  "x86_64 \<Rightarrow> 'm mapper_ops \<Rightarrow> ('m, 'd, 't, 'c) acpi_crates \<Rightarrow> (nat \<times> nat) list \<Rightarrow> 'c \<Rightarrow> ('m, 'd) world \<Rightarrow>
   ((DeviceError + unit) \<times> 'c \<times> ('m, 'd) world) outcome" where
  "parse_tables X M C [] ctx p = Inr (Inr (), ctx, p)"
| "parse_tables X M C (t # ts) ctx p =
     bindR (parse_table X M C t ctx p) (\<lambda>(r, ctx, p).
       case r of Inl e \<Rightarrow> Inr (Inl e, ctx, p) | Inr _ \<Rightarrow> parse_tables X M C ts ctx p)"

definition load_acpi ::
  "x86_64 \<Rightarrow> 'm mapper_ops \<Rightarrow> ('m, 'd, 't, 'c) acpi_crates \<Rightarrow> 't \<Rightarrow> 'c \<Rightarrow> ('m, 'd) world \<Rightarrow>
   ((DeviceError + unit) \<times> 'c \<times> ('m, 'd) world) outcome" where
  "load_acpi X M C tables ctx p =
     (case dsdt C tables of
        Inl e \<Rightarrow> Inr (Inl (with_region (device_error_acpi e) ''get dsdt''), ctx, p)
      | Inr t \<Rightarrow>
          bindR (parse_table X M C t ctx p) (\<lambda>(r, ctx, p).
            case r of Inl e \<Rightarrow> Inr (Inl e, ctx, p) | Inr _ \<Rightarrow> parse_tables X M C (ssdts C tables) ctx p))"

definition initialize_objects ::
  "('m, 'd, 't, 'c) acpi_crates \<Rightarrow> 'c \<Rightarrow> ('m, 'd) world \<Rightarrow> ((DeviceError + unit) \<times> 'c \<times> ('m, 'd) world) outcome" where
  "initialize_objects C ctx p =
     bindR (aml_initialize_objects C ctx p) (\<lambda>((r, ctx), p).
       Inr (case r of None \<Rightarrow> Inr () | Some e \<Rightarrow> Inl (with_region (device_error_aml e) ''initialize_objects''), ctx, p))"

definition invoke_method1 ::
  "('m, 'd, 't, 'c) acpi_crates \<Rightarrow> string \<Rightarrow> AmlValue \<Rightarrow> 'c \<Rightarrow> ('m, 'd) world \<Rightarrow>
   ((AmlError + AmlValue) \<times> 'c \<times> ('m, 'd) world) outcome" where
  "invoke_method1 C name arg ctx p = aml_invoke_method C ctx name (Some arg # replicate 6 None) p"

text \<open>\<^verbatim>\<open>invoke_prepare_to_sleep\<close> and \<^verbatim>\<open>invoke_system_wake\<close> differ in the name of the method.\<close>

definition invoke_sleep_method ::
  "('m, 'd, 't, 'c) acpi_crates \<Rightarrow> string \<Rightarrow> SystemState \<Rightarrow> 'c \<Rightarrow> ('m, 'd) world \<Rightarrow>
   ((AmlError + unit) \<times> 'c \<times> ('m, 'd) world) outcome" where
  "invoke_sleep_method C name sleeping_state ctx p =
     (case aml_name_from_str C name of
        Inl e \<Rightarrow> Inr (Inl e, ctx, p)
      | Inr method_name \<Rightarrow>
          bindR (invoke_method1 C method_name (AmlInteger (state_value sleeping_state)) ctx p) (\<lambda>(r, ctx, p).
            Inr (case r of Inl e \<Rightarrow> Inl e | Inr _ \<Rightarrow> Inr (), ctx, p)))"

definition invoke_prepare_to_sleep ::
  "('m, 'd, 't, 'c) acpi_crates \<Rightarrow> SystemState \<Rightarrow> 'c \<Rightarrow> ('m, 'd) world \<Rightarrow>
   ((AmlError + unit) \<times> 'c \<times> ('m, 'd) world) outcome" where
  "invoke_prepare_to_sleep C = invoke_sleep_method C (CHR 0x5C # ''_PTS'')"

definition invoke_system_wake ::
  "('m, 'd, 't, 'c) acpi_crates \<Rightarrow> SystemState \<Rightarrow> 'c \<Rightarrow> ('m, 'd) world \<Rightarrow>
   ((AmlError + unit) \<times> 'c \<times> ('m, 'd) world) outcome" where
  "invoke_system_wake C = invoke_sleep_method C (CHR 0x5C # ''_WAK'')"

text \<open>
  \<^verbatim>\<open>debug\<close>: the levels are visited one after the other, the visitor always asking for more, and all their values are
  collected; the result are the records about the devices among them.
\<close>

definition aml_debug :: "('m, 'd, 't, 'c) acpi_crates \<Rightarrow> 'c \<Rightarrow> (string list \<times> 'c) outcome" where
  "aml_debug C ctx =
     (let (r, ctx) = aml_traverse C ctx
      in case r of
           Inl _ \<Rightarrow> Inl (Unwrap_Failed ''Failed to traverse AML namespace'')
         | Inr levels \<Rightarrow>
             let data = concat (map (\<lambda>level. map (\<lambda>(seg, val). (level_name level, seg, val)) (level_values level)) levels)
             in Inr (concat (map (\<lambda>(name, seg, val).
                  if aml_get C ctx val = Inr AmlDevice then [''ACPI Device: '' @ name @ '' '' @ seg] else []) data), ctx))"

definition aml_context_fmt :: string where
  "aml_context_fmt = ''NoccioloAmlContext { .. }''"

lemma aml_debug_lines:
  assumes "aml_traverse C ctx = (Inr levels, ctx')"
  obtains lines where "aml_debug C ctx = Inr (lines, ctx')"
    and "\<And>line. line \<in> set lines \<longleftrightarrow> (\<exists>l \<in> set levels. \<exists>(seg, val) \<in> set (level_values l).
      aml_get C ctx' val = Inr AmlDevice \<and> line = ''ACPI Device: '' @ level_name l @ '' '' @ seg)"
proof -
  have "aml_debug C ctx = Inr (concat (map (\<lambda>(name, seg, val). if aml_get C ctx' val = Inr AmlDevice
      then [''ACPI Device: '' @ name @ '' '' @ seg] else []) (concat (map (\<lambda>level. map (\<lambda>(seg, val). (level_name level, seg, val))
      (level_values level)) levels))), ctx')"
    using assms by (simp add: aml_debug_def)
  then show ?thesis by (rule that) (fastforce split: if_splits)
qed

section \<open>Initialisation\<close>

definition find_rsdp_on_bios ::
  "('m, 'd, 't, 'c) acpi_crates \<Rightarrow> ('m, 'd) world \<Rightarrow> (PhysicalMapping option \<times> ('m, 'd) world) outcome" where
  "find_rsdp_on_bios C p =
     bindR (search_for_on_bios C p) (\<lambda>(r, p). Inr (case r of Inl _ \<Rightarrow> None | Inr rsdp \<Rightarrow> Some rsdp, p))"

definition find_rsdp_on_uefi ::
  "x86_64 \<Rightarrow> 'm mapper_ops \<Rightarrow> ('m, 'd, 't, 'c) acpi_crates \<Rightarrow> nat \<Rightarrow> ('m, 'd) world \<Rightarrow>
   (PhysicalMapping option \<times> ('m, 'd) world) outcome" where
  "find_rsdp_on_uefi X M C addr p =
     bindR (on_memory (\<lambda>km. map_physical_region X M km addr (rsdp_size C)) p) (\<lambda>(mapping, p). Inr (Some mapping, p))"

definition find_rsdp ::
  "x86_64 \<Rightarrow> 'm mapper_ops \<Rightarrow> ('m, 'd, 't, 'c) acpi_crates \<Rightarrow> nat option \<Rightarrow> ('m, 'd) world \<Rightarrow>
   (PhysicalMapping option \<times> ('m, 'd) world) outcome" where
  "find_rsdp X M C rsdp_addr p = (case rsdp_addr of
     Some addr \<Rightarrow> find_rsdp_on_uefi X M C addr p
   | None \<Rightarrow> find_rsdp_on_bios C p)"

text \<open>
  \<^verbatim>\<open>acpi::init\<close>. A root pointer that is not valid is unmapped again when it is dropped. The function keeps the
  two tables it found if a later step is not possible, but panics if the AML tables cannot be loaded.
\<close>

definition acpi_init ::
  "x86_64 \<Rightarrow> 'm mapper_ops \<Rightarrow> ('m, 'd, 't, 'c) acpi_crates \<Rightarrow> nat option \<Rightarrow>
   'c AcpiData \<Rightarrow> ('m, 'd) world \<Rightarrow> ('c AcpiData \<times> ('m, 'd) world) outcome" where
  "acpi_init X M C rsdp_addr acpi_data p =
     bindR (find_rsdp X M C rsdp_addr p) (\<lambda>(rsdp, p).
     case rsdp of None \<Rightarrow> Inr (acpi_data, p) | Some rsdp \<Rightarrow>
     if \<not> rsdp_valid C rsdp p then bindR (drop_mapping X M rsdp p) (\<lambda>p. Inr (acpi_data, p))
     else bindR (from_validated_rsdp C rsdp p) (\<lambda>(tables, p).
     case tables of Inl _ \<Rightarrow> Inr (acpi_data, p) | Inr tables \<Rightarrow>
     bindR (find_fadt C tables p) (\<lambda>(f, p).
     let acpi_data = (case f of Inr f \<Rightarrow> acpi_data\<lparr>fadt := Some f\<rparr> | Inl _ \<Rightarrow> acpi_data)
     in bindR (find_madt C tables p) (\<lambda>(m, p).
     let acpi_data = (case m of Inr m \<Rightarrow> acpi_data\<lparr>madt := Some m\<rparr> | Inl _ \<Rightarrow> acpi_data)
     in bindR (platform_info C tables p) (\<lambda>(_, p).
     bindR (pci_config_regions_new C tables p) (\<lambda>(rs, p).
     let rs = (case rs of Inl _ \<Rightarrow> None | Inr rs \<Rightarrow> Some rs)
     in bindR (load_acpi X M C tables (nocciolo_aml_context_new C rs) p) (\<lambda>(r, ctx, p).
     case r of Inl _ \<Rightarrow> Inl (Unwrap_Failed ''Failed to populate ACPI information'') | Inr _ \<Rightarrow>
     bindR (initialize_objects C ctx p) (\<lambda>(r, ctx, p).
     case r of Inl _ \<Rightarrow> Inl (Unwrap_Failed ''Failed to initialize AML objects'') | Inr _ \<Rightarrow>
       Inr (acpi_data\<lparr>aml := Some ctx\<rparr>, p)))))))))"

section \<open>Lemmas\<close>

lemma load_bytes_ok:
  assumes "\<forall>b < n. phys_byte M m (v + b) = Some (p + b)"
  shows "load_bytes M m mem v n = Inr (map (\<lambda>b. mem (p + b)) [0..<n])"
  using assms
proof (induction n arbitrary: v p)
  case (Suc n)
  have "phys_byte M m v = Some p" using Suc.prems by (metis add_0_right zero_less_Suc)
  moreover have "\<forall>b < n. phys_byte M m (v + 1 + b) = Some (p + 1 + b)"
    using Suc.prems by (metis Suc_eq_plus1 Suc_less_eq add.assoc add.commute)
  note Suc.IH [OF this]
  moreover have "map (\<lambda>b. mem (p + b)) [0..<Suc n] = mem p # map (\<lambda>b. mem (p + 1 + b)) [0..<n]"
    by (simp add: upt_conv_Cons map_Suc_upt [symmetric] del: upt_Suc)
  ultimately show ?case by simp
qed simp

lemma store_bytes_ok:
  assumes "\<forall>b < length bs. phys_byte M m (v + b) = Some (p + b)"
  shows "store_bytes M m v bs mem = Inr (\<lambda>a. if p \<le> a \<and> a < p + length bs then bs ! (a - p) else mem a)"
  using assms
proof (induction bs arbitrary: v p mem)
  case (Cons x bs)
  have "phys_byte M m v = Some p" using Cons.prems by (metis add_0_right length_greater_0_conv list.distinct(1))
  moreover have "\<forall>b < length bs. phys_byte M m (v + 1 + b) = Some (p + 1 + b)"
    using Cons.prems by (metis Suc_eq_plus1 Suc_less_eq add.assoc add.commute length_Cons)
  note Cons.IH [OF this, of "mem(p := x)"]
  moreover have "(\<lambda>a. if p + 1 \<le> a \<and> a < p + 1 + length bs then bs ! (a - (p + 1)) else (mem(p := x)) a) =
      (\<lambda>a. if p \<le> a \<and> a < p + length (x # bs) then (x # bs) ! (a - p) else mem a)"
    by (auto simp: fun_eq_iff nth_Cons' diff_diff_left)
  ultimately show ?case by (simp add: fun_upd_def)
qed (auto simp: fun_eq_iff)

text \<open>A region of physical memory that is mapped, used and unmapped: what the user of the mapping sees.\<close>

lemma mapping_lifecycle:
  assumes "x86_docs X" and "mapper_docs M" and "region_ready M km m pa sz"
  obtains region km1 m1 m2 fa' where "map_physical_region X M km pa sz = Inr (region, km1)"
    and "km_mapper km1 = Some m1" and "\<forall>b < sz. phys_byte M m1 (virtual_start region + b) = Some (pa + b)"
    and "unmap_physical_region X M region km1 = Inr (km\<lparr>km_mapper := Some m2, km_frames := Some fa',
      km_pages := \<lparr>page_addr = page_addr (km_pages km) + 4096 * page_span pa sz\<rparr>\<rparr>)"
    and "mapped M m2 = mapped M m" and "\<forall>q. free_page M m2 q \<longleftrightarrow> free_page M m q"
    and "\<forall>fa. km_frames km = Some fa \<longrightarrow> frames_left fa \<le> frames_left fa' + 3 * page_span pa sz"
proof -
  obtain region km1 m1 where 1: "map_physical_region X M km pa sz = Inr (region, km1)" "km_mapper km1 = Some m1"
    "\<forall>b < sz. phys_byte M m1 (virtual_start region + b) = Some (pa + b)"
    using map_region_translates [OF assms] by blast
  obtain region' km1' m2 fa' where 2: "map_physical_region X M km pa sz = Inr (region', km1')"
    "unmap_physical_region X M region' km1' = Inr (km\<lparr>km_mapper := Some m2, km_frames := Some fa',
      km_pages := \<lparr>page_addr = page_addr (km_pages km) + 4096 * page_span pa sz\<rparr>\<rparr>)"
    "mapped M m2 = mapped M m" "\<forall>q. free_page M m2 q \<longleftrightarrow> free_page M m q"
    "\<forall>fa. km_frames km = Some fa \<longrightarrow> frames_left fa \<le> frames_left fa' + 3 * page_span pa sz"
    using map_unmap_restores [OF assms] by blast
  from 1(1) 2(1) have "region' = region" "km1' = km1" by simp_all
  with 1 2 that show ?thesis by blast
qed

text \<open>One access. The state it leaves is the same for a read and for a write.\<close>

lemma aml_access_ok:
  assumes "x86_docs X" and "mapper_docs M" and "region_ready M km m pa n"
  obtains m2 fa' where
    "aml_read X M mem pa n km = Inr (map (\<lambda>b. mem (pa + b)) [0..<n], km\<lparr>km_mapper := Some m2, km_frames := Some fa',
      km_pages := \<lparr>page_addr = page_addr (km_pages km) + 4096 * page_span pa n\<rparr>\<rparr>)"
    and "\<forall>bs. length bs = n \<longrightarrow> aml_write X M pa bs mem km =
      Inr (\<lambda>a. if pa \<le> a \<and> a < pa + n then bs ! (a - pa) else mem a, km\<lparr>km_mapper := Some m2, km_frames := Some fa',
      km_pages := \<lparr>page_addr = page_addr (km_pages km) + 4096 * page_span pa n\<rparr>\<rparr>)"
    and "mapped M m2 = mapped M m" and "\<forall>q. free_page M m2 q \<longleftrightarrow> free_page M m q"
    and "\<forall>fa. km_frames km = Some fa \<longrightarrow> frames_left fa \<le> frames_left fa' + 3 * page_span pa n"
proof -
  obtain region km1 m1 m2 fa' where r: "map_physical_region X M km pa n = Inr (region, km1)"
    "km_mapper km1 = Some m1" "\<forall>b < n. phys_byte M m1 (virtual_start region + b) = Some (pa + b)"
    "unmap_physical_region X M region km1 = Inr (km\<lparr>km_mapper := Some m2, km_frames := Some fa',
      km_pages := \<lparr>page_addr = page_addr (km_pages km) + 4096 * page_span pa n\<rparr>\<rparr>)"
    "mapped M m2 = mapped M m" "\<forall>q. free_page M m2 q \<longleftrightarrow> free_page M m q"
    "\<forall>fa. km_frames km = Some fa \<longrightarrow> frames_left fa \<le> frames_left fa' + 3 * page_span pa n"
    using mapping_lifecycle [OF assms] .
  have km1: "km1\<lparr>km_mapper := Some m1\<rparr> = km1" using r(2) by (cases km1) simp
  have st: "store_bytes M m1 (virtual_start region) bs mem =
      Inr (\<lambda>a. if pa \<le> a \<and> a < pa + n then bs ! (a - pa) else mem a)" if "length bs = n" for bs
    using store_bytes_ok [of bs M m1 "virtual_start region" pa mem] r(3) that by simp
  show ?thesis
    by (rule that [OF _ _ r(5-7)])
      (simp_all add: aml_read_def aml_write_def r(1,2,4) with_mapper_def load_bytes_ok [OF r(3)] st km1)
qed

section \<open>A reference for the accesses\<close>

text \<open>The value of \<open>n\<close> bytes at an address, lowest byte first, and storing one, in a plain physical memory.\<close>

definition mem_value :: "(nat \<Rightarrow> u8) \<Rightarrow> nat \<Rightarrow> nat \<Rightarrow> nat" where
  "mem_value mem a n = (\<Sum>i<n. unat (mem (a + i)) * 256 ^ i)"

definition mem_store :: "(nat \<Rightarrow> u8) \<Rightarrow> nat \<Rightarrow> nat \<Rightarrow> nat \<Rightarrow> (nat \<Rightarrow> u8)" where
  "mem_store mem a n v = (\<lambda>x. if a \<le> x \<and> x < a + n then word_of_nat (v div 256 ^ (x - a)) else mem x)"

text \<open>Width and address of a memory request, and the value to store if it is a write.\<close>

fun mem_request :: "AmlRequest \<Rightarrow> (nat \<times> nat \<times> nat option) option" where
  "mem_request (Read_u8 a) = Some (1, a, None)"
| "mem_request (Read_u16 a) = Some (2, a, None)"
| "mem_request (Read_u32 a) = Some (4, a, None)"
| "mem_request (Read_u64 a) = Some (8, a, None)"
| "mem_request (Write_u8 a v) = Some (1, a, Some (unat v))"
| "mem_request (Write_u16 a v) = Some (2, a, Some (unat v))"
| "mem_request (Write_u32 a v) = Some (4, a, Some (unat v))"
| "mem_request (Write_u64 a v) = Some (8, a, Some (unat v))"
| "mem_request r = None"

text \<open>The device requests as accesses to ports.\<close>

definition answer :: "'w :: len word \<times> 'd \<Rightarrow> nat \<times> 'd" where
  "answer r = (unat (fst r), snd r)"

fun port_request :: "'d machine \<Rightarrow> AmlRequest \<Rightarrow> 'd \<Rightarrow> nat \<times> 'd" where
  "port_request D (Read_io_u8 port) d = answer (in8 D d port)"
| "port_request D (Read_io_u16 port) d = answer (in16 D d port)"
| "port_request D (Read_io_u32 port) d = answer (in32 D d port)"
| "port_request D (Write_io_u8 port v) d = (0, out8 D d port v)"
| "port_request D (Write_io_u16 port v) d = (0, out16 D d port v)"
| "port_request D (Write_io_u32 port v) d = (0, out32 D d port v)"
| "port_request D (Read_pci_u8 r) d = answer (in8 D (out32 D d 0xCF8 (request_address r)) 0xCF8)"
| "port_request D (Read_pci_u16 r) d = answer (in16 D (out32 D d 0xCF8 (request_address r)) 0xCF8)"
| "port_request D (Read_pci_u32 r) d = answer (in32 D (out32 D d 0xCF8 (request_address r)) 0xCF8)"
| "port_request D r d = (0, d)"

definition direct_access :: "'d machine \<Rightarrow> AmlRequest \<Rightarrow> (nat \<Rightarrow> u8) \<times> 'd \<Rightarrow> nat \<times> (nat \<Rightarrow> u8) \<times> 'd" where
  "direct_access D r s = (case mem_request r of
     Some (n, a, None) \<Rightarrow> (mem_value (fst s) a n, s)
   | Some (n, a, Some v) \<Rightarrow> (0, mem_store (fst s) a n v, snd s)
   | None \<Rightarrow> let (v, d) = port_request D r (snd s) in (v, fst s, d))"

primrec direct_session :: "'d machine \<Rightarrow> AmlRequest list \<Rightarrow> (nat \<Rightarrow> u8) \<times> 'd \<Rightarrow> nat list \<times> (nat \<Rightarrow> u8) \<times> 'd" where
  "direct_session D [] s = ([], s)"
| "direct_session D (r # rs) s =
     (let (v, s) = direct_access D r s; (vs, s) = direct_session D rs s in (v # vs, s))"

lemma from_le_value: "from_le (map (\<lambda>b. mem (a + b)) [0..<n]) = mem_value mem a n"
proof (induction n arbitrary: a)
  case (Suc n)
  have "map (\<lambda>b. mem (a + b)) [0..<Suc n] = mem a # map (\<lambda>b. mem (Suc a + b)) [0..<n]"
    by (simp add: upt_conv_Cons map_Suc_upt [symmetric] del: upt_Suc)
  moreover have "mem_value mem a (Suc n) = unat (mem a) + 256 * mem_value mem (Suc a) n"
    unfolding mem_value_def by (subst sum.lessThan_Suc_shift) (simp add: sum_distrib_left ac_simps)
  ultimately show ?case using Suc [of "Suc a"] by (simp add: from_le_def)
qed (simp add: from_le_def mem_value_def)

lemma store_to_le:
  "(\<lambda>x. if a \<le> x \<and> x < a + n then to_le n v ! (x - a) else mem x) = mem_store mem a n v"
  by (auto simp: fun_eq_iff mem_store_def to_le_def)

text \<open>
  The kernel has pages and frames for \<open>k\<close> pages more. A single access touches at most two pages, and the
  virtual pages are not used again, so a session of \<open>n\<close> accesses needs at most \<open>2 * n\<close>.
\<close>

definition interp_ready :: "'m mapper_ops \<Rightarrow> nat \<Rightarrow> 'm \<Rightarrow> 'm kernel_memory \<Rightarrow> bool" where
  "interp_ready M k m km \<longleftrightarrow>
     km_mapper km = Some m \<and>
     (let v = page_addr (km_pages km)
      in 0 < v \<and> 4096 dvd v \<and> v + 4096 * (k + 1) < 2 ^ 47 \<and> (\<forall>i < k. free_page M m (v + 4096 * i))) \<and>
     (\<exists>fa. km_frames km = Some fa \<and> 3 * k \<le> frames_left fa)"

lemma page_span_le_2:
  assumes "0 < n" and "n \<le> 4096"
  shows "page_span a n \<le> 2"
proof -
  have "aligned_above (a + n) 4096 < a + n + 4096" by (simp add: aligned_above_def)
  then have "4096 * page_span a n < 4096 * 3"
    using page_span_props(2) [OF assms(1), of a] assms(2) mod_less_divisor [of 4096 a] by linarith
  then show ?thesis by simp
qed

lemma interp_access:
  assumes "x86_docs X" and "mapper_docs M" and R: "interp_ready M (k + 2) m km"
    and n: "0 < n" "n \<le> 4096" and a: "a + n \<le> 2 ^ 52 - 4096"
  obtains km2 m2 where "aml_read X M mem a n km = Inr (map (\<lambda>b. mem (a + b)) [0..<n], km2)"
    and "\<And>v. aml_write X M a (to_le n v) mem km = Inr (mem_store mem a n v, km2)"
    and "interp_ready M k m2 km2" and "mapped M m2 = mapped M m"
proof -
  let ?v = "page_addr (km_pages km)" and ?n = "page_span a n"
  obtain fa where r: "km_mapper km = Some m" "0 < ?v" "4096 dvd ?v" "?v + 4096 * (k + 3) < 2 ^ 47"
    "\<forall>i < k + 2. free_page M m (?v + 4096 * i)" "km_frames km = Some fa" "3 * (k + 2) \<le> frames_left fa"
    using R by (auto simp: interp_ready_def Let_def)
  have s: "?n \<le> 2" using page_span_le_2 [OF n] .
  have e: "aligned_above (a + n) 4096 < 2 ^ 52" using aligned_above_props(3) [of 4096 "a + n"] a by simp
  have "\<forall>i < ?n. free_page M m (?v + 4096 * i)" using r(5) s by simp
  then have rr: "region_ready M km m a n"
    using r(1-4,6,7) s e n(1) by (simp add: region_ready_def Let_def)
  obtain m2 fa' where o: "aml_read X M mem a n km = Inr (map (\<lambda>b. mem (a + b)) [0..<n],
      km\<lparr>km_mapper := Some m2, km_frames := Some fa', km_pages := \<lparr>page_addr = ?v + 4096 * ?n\<rparr>\<rparr>)"
    "\<forall>bs. length bs = n \<longrightarrow> aml_write X M a bs mem km =
      Inr (\<lambda>x. if a \<le> x \<and> x < a + n then bs ! (x - a) else mem x,
        km\<lparr>km_mapper := Some m2, km_frames := Some fa', km_pages := \<lparr>page_addr = ?v + 4096 * ?n\<rparr>\<rparr>)"
    "mapped M m2 = mapped M m" "\<forall>q. free_page M m2 q \<longleftrightarrow> free_page M m q"
    "\<forall>fa. km_frames km = Some fa \<longrightarrow> frames_left fa \<le> frames_left fa' + 3 * ?n"
    using aml_access_ok [OF assms(1,2) rr, of mem] .
  have "free_page M m (?v + 4096 * ?n + 4096 * i)" if "i < k" for i
    using r(5) [rule_format, of "?n + i"] s that by (simp add: algebra_simps)
  moreover have "3 * k \<le> frames_left fa'" using o(5) [rule_format, OF r(6)] r(7) s by simp
  ultimately have rd: "interp_ready M k m2
      (km\<lparr>km_mapper := Some m2, km_frames := Some fa', km_pages := \<lparr>page_addr = ?v + 4096 * ?n\<rparr>\<rparr>)"
    using r(2-4) s o(4) by (simp add: interp_ready_def Let_def)
  have w: "aml_write X M a (to_le n v) mem km = Inr (mem_store mem a n v,
      km\<lparr>km_mapper := Some m2, km_frames := Some fa', km_pages := \<lparr>page_addr = ?v + 4096 * ?n\<rparr>\<rparr>)" for v
    using o(2) [rule_format, of "to_le n v"] by (simp add: store_to_le to_le_def [of n v, THEN arg_cong, of length])
  show ?thesis by (rule that [OF o(1) w rd o(3)])
qed

definition in_range :: "AmlRequest \<Rightarrow> bool" where
  "in_range r = (case mem_request r of Some (n, a, _) \<Rightarrow> a + n \<le> 2 ^ 52 - 4096 | None \<Rightarrow> True)"

lemma mem_handler_refines:
  assumes "x86_docs X" and "mapper_docs M" and "interp_ready M (k + 2) m (p_km p)"
    and "0 < n" and "n \<le> 4096" and "a + n \<le> 2 ^ 52 - 4096"
  shows "\<exists>p' m'. read_mem X M n a p = Inr (mem_value (p_mem p) a n, p') \<and> p_mem p' = p_mem p \<and> p_dev p' = p_dev p \<and>
      interp_ready M k m' (p_km p') \<and> mapped M m' = mapped M m"
    and "\<exists>p' m'. write_mem X M n a v p = Inr (0, p') \<and> p_mem p' = mem_store (p_mem p) a n v \<and> p_dev p' = p_dev p \<and>
      interp_ready M k m' (p_km p') \<and> mapped M m' = mapped M m"
proof -
  obtain km2 m2 where r: "aml_read X M (p_mem p) a n (p_km p) = Inr (map (\<lambda>b. p_mem p (a + b)) [0..<n], km2)"
    "\<And>v. aml_write X M a (to_le n v) (p_mem p) (p_km p) = Inr (mem_store (p_mem p) a n v, km2)"
    "interp_ready M k m2 km2" "mapped M m2 = mapped M m"
    using interp_access [OF assms] by blast
  then show "\<exists>p' m'. read_mem X M n a p = Inr (mem_value (p_mem p) a n, p') \<and> p_mem p' = p_mem p \<and> p_dev p' = p_dev p \<and>
      interp_ready M k m' (p_km p') \<and> mapped M m' = mapped M m"
    by (intro exI [of _ "p\<lparr>p_km := km2\<rparr>"] exI [of _ m2]) (simp add: read_mem_def from_le_value)
  show "\<exists>p' m'. write_mem X M n a v p = Inr (0, p') \<and> p_mem p' = mem_store (p_mem p) a n v \<and> p_dev p' = p_dev p \<and>
      interp_ready M k m' (p_km p') \<and> mapped M m' = mapped M m"
    using r by (intro exI [of _ "p\<lparr>p_mem := mem_store (p_mem p) a n v, p_km := km2\<rparr>"] exI [of _ m2]) (simp add: write_mem_def)
qed

lemma interp_ready_mono: "interp_ready M k m km \<Longrightarrow> j \<le> k \<Longrightarrow> interp_ready M j m km"
  by (auto simp: interp_ready_def Let_def)

lemma aml_handler_refines:
  assumes "x86_docs X" and "mapper_docs M" and "interp_ready M (k + 2) m (p_km p)" and "in_range r"
  obtains v p' m' where "aml_handler X M D r p = Inr (v, p')"
    and "direct_access D r (p_mem p, p_dev p) = (v, p_mem p', p_dev p')"
    and "interp_ready M k m' (p_km p')" and "mapped M m' = mapped M m"
proof -
  note dev = port_read_def port_write_def aml_read_port8_def aml_read_port16_def aml_read_port32_def
    aml_write_port8_def aml_write_port16_def aml_write_port32_def aml_read_pci8_def aml_read_pci16_def
    aml_read_pci32_def aml_write_pci_def answer_def direct_access_def Let_def case_prod_beta
  note mem = mem_handler_refines [OF assms(1-3)]
  have k: "interp_ready M k m (p_km p)" using interp_ready_mono [OF assms(3)] by simp
  have "\<exists>v p' m'. aml_handler X M D r p = Inr (v, p') \<and> direct_access D r (p_mem p, p_dev p) = (v, p_mem p', p_dev p') \<and>
      interp_ready M k m' (p_km p') \<and> mapped M m' = mapped M m"
  proof (cases r)
    case (Read_u8 a) then show ?thesis using mem(1) [of 1 a] assms(4) by (auto simp: in_range_def direct_access_def)
  next
    case (Read_u16 a) then show ?thesis using mem(1) [of 2 a] assms(4) by (auto simp: in_range_def direct_access_def)
  next
    case (Read_u32 a) then show ?thesis using mem(1) [of 4 a] assms(4) by (auto simp: in_range_def direct_access_def)
  next
    case (Read_u64 a) then show ?thesis using mem(1) [of 8 a] assms(4) by (auto simp: in_range_def direct_access_def)
  next
    case (Write_u8 a v) then show ?thesis using mem(2) [of 1 a "unat v"] assms(4) by (auto simp: in_range_def direct_access_def)
  next
    case (Write_u16 a v) then show ?thesis using mem(2) [of 2 a "unat v"] assms(4) by (auto simp: in_range_def direct_access_def)
  next
    case (Write_u32 a v) then show ?thesis using mem(2) [of 4 a "unat v"] assms(4) by (auto simp: in_range_def direct_access_def)
  next
    case (Write_u64 a v) then show ?thesis using mem(2) [of 8 a "unat v"] assms(4) by (auto simp: in_range_def direct_access_def)
  qed (use k in \<open>auto simp: dev\<close>)
  with that show ?thesis by blast
qed

section \<open>Properties\<close>


text \<open>
  The two ways to form a configuration address agree: a request of the AML interpreter selects the same
  register as the PCI driver does for the same device and offset.
\<close>

theorem request_address_eq_local_bus:
  "request_address r = create_local_bus_address
     \<lparr>segment = req_segment r, bus = req_bus r, device = req_device r, func = req_function r\<rparr> (req_offset r) True"
  by (simp add: request_address_def create_local_bus_address_def)

text \<open>
  C33: A root pointer that the boot loader passes but that is not valid is given up cleanly: initialisation
  returns with the ACPI data unchanged and every page mapped as before. With a valid root pointer a missing
  main AML table stops the kernel: initialisation panics, although the tables it found would do for the rest
  of the boot.
\<close>

theorem acpi_init_outcomes:
  assumes "x86_docs X" and "mapper_docs M" and "region_ready M (p_km p) m addr (rsdp_size C)"
  shows "\<exists>rsdp p1. find_rsdp X M C (Some addr) p = Inr (Some rsdp, p1) \<and>
    (\<not> rsdp_valid C rsdp p1 \<longrightarrow>
      (\<exists>p' m'. acpi_init X M C (Some addr) data p = Inr (data, p') \<and> p_mem p' = p_mem p \<and> p_dev p' = p_dev p \<and>
        km_mapper (p_km p') = Some m' \<and> mapped M m' = mapped M m)) \<and>
    (\<forall>t f md i rs p2 p3 p4 p5 p6 e. rsdp_valid C rsdp p1 \<and> from_validated_rsdp C rsdp p1 = Inr (Inr t, p2) \<and>
      find_fadt C t p2 = Inr (f, p3) \<and> find_madt C t p3 = Inr (md, p4) \<and> platform_info C t p4 = Inr (i, p5) \<and>
      pci_config_regions_new C t p5 = Inr (rs, p6) \<and> dsdt C t = Inl e \<longrightarrow>
      acpi_init X M C (Some addr) data p = Inl (Unwrap_Failed ''Failed to populate ACPI information''))"
proof -
  obtain region km1 m2 fa' where r: "map_physical_region X M (p_km p) addr (rsdp_size C) = Inr (region, km1)"
    "unmap_physical_region X M region km1 = Inr ((p_km p)\<lparr>km_mapper := Some m2, km_frames := Some fa',
      km_pages := \<lparr>page_addr = page_addr (km_pages (p_km p)) + 4096 * page_span addr (rsdp_size C)\<rparr>\<rparr>)"
    "mapped M m2 = mapped M m"
    using map_unmap_restores [OF assms] by blast
  have f: "find_rsdp X M C (Some addr) p = Inr (Some region, p\<lparr>p_km := km1\<rparr>)"
    by (simp add: find_rsdp_def find_rsdp_on_uefi_def on_memory_def r(1))
  show ?thesis
    by (intro exI [of _ region] exI [of _ "p\<lparr>p_km := km1\<rparr>"])
      (simp add: f acpi_init_def drop_mapping_def r(2,3) load_acpi_def Let_def)
qed

section \<open>Instances\<close>

definition idle_world :: "(nat \<rightharpoonup> nat \<times> PageTableFlag set, recorder) world" where
  "idle_world = \<lparr>p_km = mapped_memory, p_mem = (\<lambda>a. word_of_nat (a mod 251)), p_dev = idle_recorder\<rparr>"

lemma idle_world_ready: "interp_ready map_mapper 4 Map.empty (p_km idle_world)"
  by (simp add: interp_ready_def idle_world_def mapped_memory_def no_memory_def map_mapper_def page_allocator_new_def
      x86_std_def frames_left_def frame_addresses_def small_map_def step_by_4096_def frame_allocator_init_def Let_def)


text \<open>
  Crates that find one pair of tables and whose interpreter remembers the methods that were called. The sleep
  type of state S5 is 5.
\<close>

definition sim_fadt :: Fadt where
  "sim_fadt = \<lparr>pm1a_control_block = Inr \<lparr>address_space = SystemIo, ga_address = 0x604\<rparr>, pm1b_control_block = Inr None\<rparr>"

definition sim_crates ::
  "bool \<Rightarrow> string + (nat \<times> nat) \<Rightarrow> (nat \<rightharpoonup> nat \<times> PageTableFlag set, 'd, unit, string list) acpi_crates" where
  "sim_crates valid table = \<lparr>
     search_for_on_bios = (\<lambda>p. Inr (Inl ''no rsdp'', p)),
     rsdp_size = 36,
     rsdp_valid = (\<lambda>_ _. valid),
     from_validated_rsdp = (\<lambda>_ p. Inr (Inr (), p)),
     find_fadt = (\<lambda>_ p. Inr (Inr sim_fadt, p)),
     find_madt = (\<lambda>_ p. Inr (Inl ''no madt'', p)),
     platform_info = (\<lambda>_ p. Inr (Inr (), p)),
     pci_config_regions_new = (\<lambda>_ p. Inr (Inl ''no mcfg'', p)),
     dsdt = (\<lambda>_. table),
     ssdts = (\<lambda>_. []),
     aml_context_new = (\<lambda>_. []),
     aml_parse_table = (\<lambda>c _ p. Inr ((None, c), p)),
     aml_initialize_objects = (\<lambda>c p. Inr ((None, c), p)),
     aml_name_from_str = Inr,
     aml_invoke_method = (\<lambda>c name _ p. Inr (Inr AmlOther, c @ [name], p)),
     aml_get_by_path = (\<lambda>_ _. Inr (AmlPackage [AmlInteger 5, AmlInteger 5])),
     aml_traverse = (\<lambda>c. (Inr [], c)), aml_get = (\<lambda>_ _. Inl (ValueDoesNotExist ''?''))\<rparr>"

definition no_acpi :: "string list AcpiData" where
  "no_acpi = \<lparr>madt = None, fadt = None, aml = None\<rparr>"

theorem acpi_init_outcomes_witness:
  "(\<exists>p'. acpi_init x86_std map_mapper (sim_crates False (Inl ''no dsdt'')) (Some 0xF0000) no_acpi idle_world = Inr (no_acpi, p')) \<and>
   acpi_init x86_std map_mapper (sim_crates True (Inl ''no dsdt'')) (Some 0xF0000) no_acpi idle_world =
     Inl (Unwrap_Failed ''Failed to populate ACPI information'')"
proof -
  have "region_ready map_mapper (p_km idle_world) Map.empty 0xF0000 (rsdp_size (sim_crates b t))" for b t
    by (simp add: region_ready_def idle_world_def mapped_memory_def no_memory_def map_mapper_def page_allocator_new_def
        sim_crates_def x86_std_def page_span_def aligned_above_def frames_left_def frame_addresses_def small_map_def
        step_by_4096_def frame_allocator_init_def Let_def)
  note r = acpi_init_outcomes [OF x86_std_docs map_mapper_docs this, of _ _ no_acpi]
  show ?thesis using r [of False "Inl ''no dsdt''"] r [of True "Inl ''no dsdt''"] by (auto simp: sim_crates_def)
qed

end
