(* ===== verification/System.thy ===== *)
theory System
  imports Acpi
begin

text \<open>
  \<^verbatim>\<open>kernel/src/meta/system.rs\<close>: switching the machine off. The processor's brand string is an argument, and the
  state is the ACPI data together with the world that the interpreter reaches. The lock of the ACPI
  data is free whenever \<^verbatim>\<open>recover_acpi_shutdown\<close> tries it: both callers have dropped their guards.
\<close>

section \<open>Operations\<close>

definition ACPI_SLP_EN :: u16 where "ACPI_SLP_EN = push_bit 13 1"

datatype HypervisorKind = Bochs | QemuOld | QemuNew | VMWare | VirtualBox

definition detect_hypervisor :: "string option \<Rightarrow> HypervisorKind option" where
  "detect_hypervisor brand_string = (case brand_string of
     None \<Rightarrow> None
   | Some cpu \<Rightarrow>
       if cpu = ''TCGTCGTCGTCG'' then Some QemuOld
       else if cpu = ''QEMU Virtual CPU version 2.5+'' then Some QemuNew
       else if cpu = ''VMwareVMware'' then Some VMWare
       else if cpu = ''VBoxVBoxVBox'' then Some VMWare
       else None)"

datatype AcpiShutdownErrorKind =
    ShutAcpi string
  | ShutAml AmlError
  | NoAml
  | NoFadt
  | PmControlAddressNotInIoPortRange nat
  | PmControlBlockNotInSystemIoSpace AddressSpace
  | S5PathNotPackage
  | S5ValueNotInteger
  | S5ValueOutsideWordSize nat

type_synonym shutdown_result = "AcpiShutdownErrorKind + unit"

definition perform_acpi_sleep ::
  "'d machine \<Rightarrow> AmlValue \<Rightarrow> GenericAddress \<Rightarrow> ('m, 'd) world \<Rightarrow> shutdown_result \<times> ('m, 'd) world" where
  "perform_acpi_sleep D s5_value control_block p = (case s5_value of
     AmlInteger sleep_type \<Rightarrow>
       if sleep_type > 0xFFFF then (Inl (S5ValueOutsideWordSize sleep_type), p)
       else if address_space control_block \<noteq> SystemIo then
         (Inl (PmControlBlockNotInSystemIoSpace (address_space control_block)), p)
       else if ga_address control_block > 0xFFFF then
         (Inl (PmControlAddressNotInIoPortRange (ga_address control_block)), p)
       else (Inr (), p\<lparr>p_dev := out16 D (p_dev p) (word_of_nat (ga_address control_block))
                                  (ACPI_SLP_EN OR word_of_nat sleep_type)\<rparr>)
   | _ \<Rightarrow> (Inl S5ValueNotInteger, p))"

text \<open>Indexing into the package panics if it is too short.\<close>

definition package_nth :: "AmlValue list \<Rightarrow> nat \<Rightarrow> AmlValue outcome" where
  "package_nth vs i = (if i < length vs then Inr (vs ! i) else Inl Index_Out_Of_Bounds)"

definition do_shutdown_using_acpi ::
  "'d machine \<Rightarrow> ('m, 'd, 't, 'c) acpi_crates \<Rightarrow> 'c AcpiData \<Rightarrow> ('m, 'd) world \<Rightarrow>
   (shutdown_result \<times> ('m, 'd) world) outcome" where
  "do_shutdown_using_acpi D C acpi p =
     (case aml acpi of None \<Rightarrow> Inr (Inl NoAml, p) | Some ctx \<Rightarrow>
      case fadt acpi of None \<Rightarrow> Inr (Inl NoFadt, p) | Some fadt' \<Rightarrow>
      case aml_name_from_str C (CHR 0x5C # ''_S5_'') of Inl e \<Rightarrow> Inr (Inl (ShutAml e), p) | Inr s5_path \<Rightarrow>
      case aml_get_by_path C ctx s5_path of Inl e \<Rightarrow> Inr (Inl (ShutAml e), p) | Inr s5_value \<Rightarrow>
      case s5_value of
        AmlPackage s5_pkg \<Rightarrow>
          (case pm1a_control_block fadt' of Inl e \<Rightarrow> Inr (Inl (ShutAcpi e), p) | Inr pm1a \<Rightarrow>
           bindR (package_nth s5_pkg 0) (\<lambda>v.
           case perform_acpi_sleep D v pm1a p of
             (Inl e, p) \<Rightarrow> Inr (Inl e, p)
           | (Inr _, p) \<Rightarrow>
               (case pm1b_control_block fadt' of Inl e \<Rightarrow> Inr (Inl (ShutAcpi e), p)
                | Inr None \<Rightarrow> Inr (Inr (), p)
                | Inr (Some pm1b) \<Rightarrow>
                    bindR (package_nth s5_pkg 1) (\<lambda>v. Inr (perform_acpi_sleep D v pm1b p)))))
      | _ \<Rightarrow> Inr (Inl S5PathNotPackage, p))"

definition before_acpi_shutdown ::
  "('m, 'd, 't, 'c) acpi_crates \<Rightarrow> 'c AcpiData \<Rightarrow> ('m, 'd) world \<Rightarrow>
   (shutdown_result \<times> 'c AcpiData \<times> ('m, 'd) world) outcome" where
  "before_acpi_shutdown C acpi p = (case aml acpi of
     None \<Rightarrow> Inr (Inr (), acpi, p)
   | Some ctx \<Rightarrow>
       bindR (invoke_prepare_to_sleep C S5 ctx p) (\<lambda>(r, ctx, p).
         Inr (case r of
                Inl (ValueDoesNotExist name) \<Rightarrow>
                  if name \<noteq> CHR 0x5C # ''_PTS'' then Inl (ShutAml (ValueDoesNotExist name)) else Inr ()
              | Inl e \<Rightarrow> Inl (ShutAml e)
              | Inr _ \<Rightarrow> Inr (), acpi\<lparr>aml := Some ctx\<rparr>, p)))"

definition recover_acpi_shutdown ::
  "('m, 'd, 't, 'c) acpi_crates \<Rightarrow> 'c AcpiData \<Rightarrow> ('m, 'd) world \<Rightarrow> ('c AcpiData \<times> ('m, 'd) world) outcome" where
  "recover_acpi_shutdown C acpi p = (case aml acpi of
     None \<Rightarrow> Inr (acpi, p)
   | Some ctx \<Rightarrow> bindR (invoke_system_wake C S5 ctx p) (\<lambda>(_, ctx, p). Inr (acpi\<lparr>aml := Some ctx\<rparr>, p)))"

definition shutdown_using_acpi ::
  "'d machine \<Rightarrow> ('m, 'd, 't, 'c) acpi_crates \<Rightarrow> 'c AcpiData \<Rightarrow> ('m, 'd) world \<Rightarrow>
   (shutdown_result \<times> 'c AcpiData \<times> ('m, 'd) world) outcome" where
  "shutdown_using_acpi D C acpi p =
     bindR (before_acpi_shutdown C acpi p) (\<lambda>(r, acpi, p).
     case r of
       Inl err \<Rightarrow> bindR (recover_acpi_shutdown C acpi p) (\<lambda>(acpi, p). Inr (Inl err, acpi, p))
     | Inr _ \<Rightarrow>
         bindR (do_shutdown_using_acpi D C acpi p) (\<lambda>(r, p).
         case r of
           Inl err \<Rightarrow> bindR (recover_acpi_shutdown C acpi p) (\<lambda>(acpi, p). Inr (Inl err, acpi, p))
         | Inr _ \<Rightarrow> Inr (Inr (), acpi, p)))"

definition request_shutdown ::
  "'d machine \<Rightarrow> ('m, 'd, 't, 'c) acpi_crates \<Rightarrow> string option \<Rightarrow> 'c AcpiData \<Rightarrow> ('m, 'd) world \<Rightarrow>
   ('c AcpiData \<times> ('m, 'd) world) outcome" where
  "request_shutdown D C brand_string acpi p = (case detect_hypervisor brand_string of
     Some Bochs \<Rightarrow> Inr (acpi, p\<lparr>p_dev := out16 D (p_dev p) 0xB004 0x2000\<rparr>)
   | Some QemuOld \<Rightarrow> Inr (acpi, p\<lparr>p_dev := out16 D (p_dev p) 0x604 0x2000\<rparr>)
   | Some VirtualBox \<Rightarrow> Inr (acpi, p\<lparr>p_dev := out16 D (p_dev p) 0x4004 0x3400\<rparr>)
   | _ \<Rightarrow>
       bindR (shutdown_using_acpi D C acpi p) (\<lambda>(r, acpi, p).
         case r of Inl _ \<Rightarrow> Inl (Unwrap_Failed ''Failed to shutdown using ACPI'') | Inr _ \<Rightarrow> Inr (acpi, p)))"

section \<open>Properties\<close>

text \<open>The value that \<^verbatim>\<open>perform_acpi_sleep\<close> writes for a sleep type, and a control block it accepts.\<close>

definition sleep_word :: "nat \<Rightarrow> u16" where
  "sleep_word t = ACPI_SLP_EN OR word_of_nat t"

definition io_block :: "GenericAddress \<Rightarrow> bool" where
  "io_block g \<longleftrightarrow> address_space g = SystemIo \<and> ga_address g \<le> 0xFFFF"

definition port_of :: "GenericAddress \<Rightarrow> u16" where
  "port_of g = word_of_nat (ga_address g)"

lemma perform_acpi_sleep_ok:
  assumes "t \<le> 0xFFFF" and "io_block g"
  shows "perform_acpi_sleep D (AmlInteger t) g p = (Inr (), p\<lparr>p_dev := out16 D (p_dev p) (port_of g) (sleep_word t)\<rparr>)"
  using assms by (simp add: perform_acpi_sleep_def io_block_def port_of_def sleep_word_def)

lemma sleep_word_fields:
  assumes "t < 8"
  shows "field 13 1 (sleep_word t) = 1" and "field 10 3 (sleep_word t) = 0" and "field 0 3 (sleep_word t) = word_of_nat t"
proof -
  have f: "fits 3 (word_of_nat t :: u16)" using assms by (simp add: fits_unat unat_of_nat)
  define c :: u16 where "c = 1"
  have c: "fits 1 c" by (simp add: c_def fits_unat)
  have w: "sleep_word t = push_bit 13 c OR push_bit 0 (word_of_nat t)" by (simp add: sleep_word_def ACPI_SLP_EN_def c_def)
  have "field 13 1 (push_bit 13 c) = c" using c by (rule field_same) simp
  moreover have "field 0 3 (push_bit 0 (word_of_nat t :: u16)) = word_of_nat t" using f by (rule field_same) simp
  moreover have "field 13 1 (push_bit 0 (word_of_nat t :: u16)) = 0" "field 10 3 (push_bit 0 (word_of_nat t :: u16)) = 0"
    by (rule field_above [OF f]; simp)+
  moreover have "field 10 3 (push_bit 13 c) = 0" "field 0 3 (push_bit 13 c) = 0" by (simp_all only: field_below)
  ultimately show "field 13 1 (sleep_word t) = 1" and "field 10 3 (sleep_word t) = 0" and "field 0 3 (sleep_word t) = word_of_nat t"
    unfolding w field_or by (simp_all only: or.left_neutral or.right_neutral) (simp add: c_def)
qed

text \<open>
  C28: Switching off through ACPI, with a usable package for state S5 and control registers in I/O space, calls
  the method \<^verbatim>\<open>_PTS\<close>, whether or not it exists, and then writes one word to each control register there is,
  first and only then the second. In each word the bit that starts the transition is set, but the
  sleep type is in bits 0 to 2 and the field for it, bits 10 to 12, is 0.
\<close>

theorem acpi_shutdown_writes:
  assumes "aml acpi = Some ctx" and "fadt acpi = Some f"
    and "invoke_prepare_to_sleep C S5 ctx p = Inr (r, ctx', p')"
    and "r = Inr () \<or> r = Inl (ValueDoesNotExist (CHR 0x5C # ''_PTS''))"
    and "aml_name_from_str C (CHR 0x5C # ''_S5_'') = Inr path"
    and "aml_get_by_path C ctx' path = Inr (AmlPackage (AmlInteger a # AmlInteger b # vs))" and "a < 8" and "b < 8"
    and "pm1a_control_block f = Inr ga" and "io_block ga"
    and "pm1b_control_block f = Inr gb" and "pred_option io_block gb"
  shows "\<exists>wa wb. shutdown_using_acpi D C acpi p = Inr (Inr (), acpi\<lparr>aml := Some ctx'\<rparr>,
      p'\<lparr>p_dev := (let d = out16 D (p_dev p') (port_of ga) wa
         in case gb of None \<Rightarrow> d | Some g \<Rightarrow> out16 D d (port_of g) wb)\<rparr>) \<and>
    field 13 1 wa = 1 \<and> field 10 3 wa = 0 \<and> field 0 3 wa = word_of_nat a \<and>
    field 13 1 wb = 1 \<and> field 10 3 wb = 0 \<and> field 0 3 wb = word_of_nat b"
proof -
  have b: "before_acpi_shutdown C acpi p = Inr (Inr (), acpi\<lparr>aml := Some ctx'\<rparr>, p')"
    using assms(1,3,4) by (auto simp: before_acpi_shutdown_def)
  have d: "do_shutdown_using_acpi D C (acpi\<lparr>aml := Some ctx'\<rparr>) p' = Inr (Inr (), p'\<lparr>p_dev :=
      (let d = out16 D (p_dev p') (port_of ga) (sleep_word a)
       in case gb of None \<Rightarrow> d | Some g \<Rightarrow> out16 D d (port_of g) (sleep_word b))\<rparr>)"
    using assms(2,5-) by (cases gb) (simp_all add: do_shutdown_using_acpi_def package_nth_def perform_acpi_sleep_ok Let_def)
  show ?thesis
    by (rule exI [of _ "sleep_word a"], rule exI [of _ "sleep_word b"])
      (simp add: shutdown_using_acpi_def b d sleep_word_fields [OF assms(7), simplified] sleep_word_fields [OF assms(8), simplified])
qed


text \<open>
  Of the three emulators with a port of their own only the one with brand string \<^verbatim>\<open>TCGTCGTCGTCG\<close> is ever
  recognised, so that a request to switch off is equivalent to one test and ACPI. VirtualBox is taken for
  VMware.
\<close>

theorem request_shutdown_reachable:
  "request_shutdown D C brand acpi p =
     (if brand = Some ''TCGTCGTCGTCG'' then Inr (acpi, p\<lparr>p_dev := out16 D (p_dev p) 0x604 0x2000\<rparr>)
      else bindR (shutdown_using_acpi D C acpi p) (\<lambda>(r, acpi, p).
        case r of Inl _ \<Rightarrow> Inl (Unwrap_Failed ''Failed to shutdown using ACPI'') | Inr _ \<Rightarrow> Inr (acpi, p)))"
  by (auto simp: request_shutdown_def detect_hypervisor_def split: option.split)

section \<open>Instances\<close>

definition sim_acpi :: "string list AcpiData" where
  "sim_acpi = \<lparr>madt = None, fadt = Some sim_fadt, aml = Some []\<rparr>"

theorem acpi_shutdown_writes_witness:
  "\<exists>w acpi' p'. shutdown_using_acpi recording (sim_crates True (Inl ''no dsdt'')) sim_acpi idle_world = Inr (Inr (), acpi', p') \<and>
     rec_writes (p_dev p') = [Port16 0x604 w] \<and> field 10 3 w = 0 \<and> field 0 3 w = 5"
proof -
  let ?C = "sim_crates True (Inl ''no dsdt'')"
  have "invoke_prepare_to_sleep ?C S5 [] idle_world = Inr (Inr (), [CHR 0x5C # ''_PTS''], idle_world)"
    by (simp add: invoke_prepare_to_sleep_def invoke_sleep_method_def invoke_method1_def sim_crates_def)
  from acpi_shutdown_writes [of sim_acpi "[]" sim_fadt, OF _ _ this, where D = recording and a = 5 and b = 5 and vs = "[]"
      and path = "CHR 0x5C # ''_S5_''" and ga = "\<lparr>address_space = SystemIo, ga_address = 0x604\<rparr>" and gb = None]
  show ?thesis by (auto simp: sim_acpi_def sim_fadt_def sim_crates_def io_block_def idle_world_def idle_recorder_def
      recording_def port_of_def Let_def)
qed


end
