(* ===== verification/Symbols.thy ===== *)
theory Symbols
  imports Prelude
begin

text \<open>
  \<^verbatim>\<open>kernel/src/meta/symbols.rs\<close>: the names of addresses from the symbol table of the kernel image, and the walk
  over the chain of stack frames. The ELF parser is a record of parameters; memory is a function from an
  address to the word stored there, with no value where nothing is mapped.
\<close>

section \<open>Symbols\<close>

text \<open>What the kernel reads of an entry of the symbol table. The fields are 32, 64 and 64 bits wide.\<close>

record Symbol =
  st_name :: nat
  st_value :: nat
  st_size :: nat

record 'e elf_crate =
  minimal_parse :: "u8 list \<Rightarrow> string + 'e"
  symbol_table :: "'e \<Rightarrow> string + (Symbol list \<times> (nat \<Rightarrow> string + string)) option"

record BootImage =
  kernel_image_offset :: nat
  kernel_len :: nat

definition get_elf_slice :: "BootImage \<Rightarrow> (nat \<Rightarrow> u8) \<Rightarrow> u8 list" where
  "get_elf_slice boot_info mem = map mem [kernel_image_offset boot_info ..< kernel_image_offset boot_info + kernel_len boot_info]"

text \<open>The static \<^verbatim>\<open>ELF\<close> is a cell that is set at most once.\<close>

definition symbols_init :: "'e elf_crate \<Rightarrow> BootImage \<Rightarrow> (nat \<Rightarrow> u8) \<Rightarrow> 'e option option \<Rightarrow> 'e option option" where
  "symbols_init E boot_info mem ELF = (case minimal_parse E (get_elf_slice boot_info mem) of
     Inl e \<Rightarrow> ELF
   | Inr data \<Rightarrow> (case ELF of None \<Rightarrow> Some (Some data) | Some x \<Rightarrow> Some x))"

primrec resolve_loop :: "(nat \<Rightarrow> string + string) \<Rightarrow> nat \<Rightarrow> Symbol list \<Rightarrow> string option outcome" where
  "resolve_loop str_tab offset [] = Inr None"
| "resolve_loop str_tab offset (entry # sym_tab) =
     (if st_value entry < offset then resolve_loop str_tab offset sym_tab
      else bindR (add_usize (st_value entry) (st_size entry)) (\<lambda>e.
        if e > offset then resolve_loop str_tab offset sym_tab
        else if st_name entry = 0 then Inr None
        else Inr (case str_tab (st_name entry) of Inl _ \<Rightarrow> None | Inr name \<Rightarrow> Some name)))"

definition resolve :: "'e elf_crate \<Rightarrow> 'e option option \<Rightarrow> nat \<Rightarrow> string option outcome" where
  "resolve E ELF offset = (case ELF of
     Some (Some elf) \<Rightarrow>
       (case symbol_table E elf of
          Inr (Some (sym_tab, str_tab)) \<Rightarrow> resolve_loop str_tab offset sym_tab
        | _ \<Rightarrow> Inr None)
   | _ \<Rightarrow> Inr None)"

section \<open>Stack frames\<close>

record BacktraceIterator =
  iter_ptr :: nat

record BacktraceFrame =
  frame_ptr :: nat

definition capture_from :: "nat \<Rightarrow> BacktraceIterator" where
  "capture_from ptr = \<lparr>iter_ptr = ptr\<rparr>"

text \<open>\<^verbatim>\<open>capture\<close> starts at the frame that the base pointer register points to.\<close>

definition capture :: "nat \<Rightarrow> BacktraceIterator" where
  "capture rbp = \<lparr>iter_ptr = rbp\<rparr>"

definition backtrace_next ::
  "(nat \<Rightarrow> nat option) \<Rightarrow> BacktraceIterator \<Rightarrow> (BacktraceFrame option \<times> BacktraceIterator) outcome" where
  "backtrace_next stack self =
     (if iter_ptr self = 0 then Inr (None, self)
      else case stack (iter_ptr self) of
        None \<Rightarrow> Inl Diverges
      | Some next \<Rightarrow> Inr (Some \<lparr>frame_ptr = iter_ptr self\<rparr>, self\<lparr>iter_ptr := next\<rparr>))"

definition frame_symbol :: "'e elf_crate \<Rightarrow> 'e option option \<Rightarrow> BacktraceFrame \<Rightarrow> string option outcome" where
  "frame_symbol E ELF self = resolve E ELF (frame_ptr self)"

text \<open>A loop over all frames, as an iterator is used.\<close>

partial_function (option) backtrace_frames ::
  "(nat \<Rightarrow> nat option) \<Rightarrow> BacktraceIterator \<Rightarrow> BacktraceFrame list \<Rightarrow> BacktraceFrame list outcome option" where
  "backtrace_frames stack it acc =
     (case backtrace_next stack it of
        Inl e \<Rightarrow> Some (Inl e)
      | Inr (None, it) \<Rightarrow> Some (Inr acc)
      | Inr (Some f, it) \<Rightarrow> backtrace_frames stack it (acc @ [f]))"

section \<open>Lemmas\<close>

text \<open>The chain of frames from a pointer: each frame holds the address of the next, and the last one holds 0.\<close>

primrec frame_chain :: "(nat \<Rightarrow> nat option) \<Rightarrow> nat \<Rightarrow> nat list \<Rightarrow> bool" where
  "frame_chain stack ptr [] \<longleftrightarrow> ptr = 0"
| "frame_chain stack ptr (f # fs) \<longleftrightarrow> ptr = f \<and> f \<noteq> 0 \<and> (\<exists>next. stack f = Some next \<and> frame_chain stack next fs)"

lemma backtrace_frames_chain:
  "frame_chain stack ptr fs \<Longrightarrow>
   backtrace_frames stack \<lparr>iter_ptr = ptr\<rparr> acc = Some (Inr (acc @ map (\<lambda>f. \<lparr>frame_ptr = f\<rparr>) fs))"
proof (induction fs arbitrary: ptr acc)
  case Nil then show ?case by (subst backtrace_frames.simps) (simp add: backtrace_next_def)
next
  case (Cons f fs)
  then show ?case by (subst backtrace_frames.simps) (auto simp: backtrace_next_def)
qed

lemma backtrace_frames_returns:
  assumes "backtrace_frames stack it acc = Some (Inr frames)"
  shows "\<exists>fs. frames = acc @ map (\<lambda>f. \<lparr>frame_ptr = f\<rparr>) fs \<and> frame_chain stack (iter_ptr it) fs"
proof -
  let ?R = "\<lambda>it acc frames. \<exists>fs. frames = acc @ map (\<lambda>f. \<lparr>frame_ptr = f\<rparr>) fs \<and> frame_chain stack (iter_ptr it) fs"
  let ?Q = "\<lambda>stack' it acc (r :: _ outcome). stack' = stack \<longrightarrow> (\<forall>frames. r = Inr frames \<longrightarrow> ?R it acc frames)"
  have "?Q stack it acc (Inr frames)"
  proof (rule backtrace_frames.raw_induct [where P = ?Q and stack = stack and it = it and acc = acc, OF _ assms], clarsimp)
    fix loop it acc frames
    assume IH: "\<And>stack' it acc r. loop stack' it acc = Some r \<Longrightarrow>
        stack' = stack \<longrightarrow> (\<forall>frames. r = Inr frames \<longrightarrow> ?R it acc frames)"
      and body: "(case backtrace_next stack it of Inl e \<Rightarrow> Some (Inl e) | Inr (None, it) \<Rightarrow> Some (Inr acc)
        | Inr (Some f, it) \<Rightarrow> loop stack it (acc @ [f])) = Some (Inr frames)"
    show "?R it acc frames"
    proof (cases "iter_ptr it = 0")
      case True
      with body show ?thesis by (intro exI [of _ "[]"]) (simp add: backtrace_next_def)
    next
      case False
      with body obtain next' where n: "stack (iter_ptr it) = Some next'"
        by (auto simp: backtrace_next_def split: option.splits)
      with False body have "loop stack (it\<lparr>iter_ptr := next'\<rparr>) (acc @ [\<lparr>frame_ptr = iter_ptr it\<rparr>]) = Some (Inr frames)"
        by (simp add: backtrace_next_def)
      from IH [OF this] obtain fs where "frames = acc @ [\<lparr>frame_ptr = iter_ptr it\<rparr>] @ map (\<lambda>f. \<lparr>frame_ptr = f\<rparr>) fs"
        "frame_chain stack next' fs" by auto
      with False n show ?thesis by (intro exI [of _ "iter_ptr it # fs"]) simp
    qed
  qed
  then show ?thesis by simp
qed

section \<open>Properties\<close>

text \<open>
  C31: A walk over the stack frames returns exactly if the frames form a chain that ends with a null pointer, and
  then yields the frames of the chain in order. On a chain that is cyclic or leaves mapped memory it never returns.
\<close>

theorem backtrace_exact:
  "backtrace_frames stack (capture_from ptr) [] = Some (Inr frames) \<longleftrightarrow>
     (\<exists>fs. frames = map (\<lambda>f. \<lparr>frame_ptr = f\<rparr>) fs \<and> frame_chain stack ptr fs)"
  using backtrace_frames_returns [of stack "capture_from ptr" "[]" frames] backtrace_frames_chain [of stack ptr _ "[]"]
  by (auto simp: capture_from_def)

text \<open>
  C30: \<^verbatim>\<open>resolve\<close> finds nothing but empty symbols: unless the end of a symbol overflows, it looks up the name of the
  first entry that starts at the address and has size 0. An address inside a function, which is what a
  reader of a symbol table looks for, is never found.
\<close>

theorem resolve_empty_symbols:
  assumes "symbol_table E elf = Inr (Some (sym_tab, str_tab))" and "\<forall>s \<in> set sym_tab. st_value s + st_size s < 2 ^ 64"
  shows "resolve E (Some (Some elf)) offset =
    Inr (case find (\<lambda>s. st_value s = offset \<and> st_size s = 0) sym_tab of
           None \<Rightarrow> None
         | Some s \<Rightarrow> if st_name s = 0 then None
             else case str_tab (st_name s) of Inl _ \<Rightarrow> None | Inr name \<Rightarrow> Some name)"
proof -
  have "resolve_loop str_tab offset sym_tab =
    Inr (case find (\<lambda>s. st_value s = offset \<and> st_size s = 0) sym_tab of
           None \<Rightarrow> None
         | Some s \<Rightarrow> if st_name s = 0 then None
             else case str_tab (st_name s) of Inl _ \<Rightarrow> None | Inr name \<Rightarrow> Some name)"
    using assms(2) by (induction sym_tab) (auto simp: add_usize_def)
  then show ?thesis by (simp add: resolve_def assms(1))
qed

section \<open>Instances\<close>

definition sim_elf :: "(Symbol list \<times> (nat \<Rightarrow> string + string)) elf_crate" where
  "sim_elf = \<lparr>minimal_parse = (\<lambda>_. Inl ''no image''), symbol_table = (\<lambda>e. Inr (Some e))\<rparr>"

definition sim_symbols :: "Symbol list \<times> (nat \<Rightarrow> string + string)" where
  "sim_symbols = ([\<lparr>st_name = 1, st_value = 0x1000, st_size = 0x40\<rparr>, \<lparr>st_name = 2, st_value = 0x1040, st_size = 0\<rparr>],
     (\<lambda>n. if n = 1 then Inr ''kernel_main'' else if n = 2 then Inr ''end'' else Inl ''bad offset''))"

theorem resolve_empty_symbols_witness:
  "resolve sim_elf (Some (Some sim_symbols)) 0x1010 = Inr None \<and>
   resolve sim_elf (Some (Some sim_symbols)) 0x1040 = Inr (Some ''end'')"
proof -
  have "symbol_table sim_elf sim_symbols = Inr (Some (fst sim_symbols, snd sim_symbols))" by (simp add: sim_elf_def)
  note r = resolve_empty_symbols [OF this]
  show ?thesis using r [of "0x1010"] r [of "0x1040"] by (simp add: sim_symbols_def)
qed

text \<open>A symbol whose end overflows stops the search with a panic.\<close>

lemma resolve_overflow:
  "resolve sim_elf (Some (Some ([\<lparr>st_name = 1, st_value = 2 ^ 64 - 1, st_size = 1\<rparr>], snd sim_symbols))) 0 = Inl Overflow"
  by (simp add: resolve_def sim_elf_def add_usize_def)

end
