(* ===== verification/Gdt.thy ===== *)
theory Gdt
  imports Paging
begin

text \<open>
  \<^verbatim>\<open>kernel/src/gdt.rs\<close>: the segment table and the task state segment. Both structures come from the crate
  \<^verbatim>\<open>x86_64\<close>; a table is a state of type \<open>'g\<close>. The registers that are loaded are part of the processor state.
\<close>

section \<open>Tables\<close>

definition DOUBLE_FAULT_IST_INDEX :: nat where "DOUBLE_FAULT_IST_INDEX = 0"

definition STACK_SIZE :: nat where "STACK_SIZE = 4096 * 10"

record TaskStateSegment =
  interrupt_stack_table :: "nat list"

datatype Descriptor = Kernel_code_segment | Kernel_data_segment | Tss_segment TaskStateSegment

record 'g gdt_crate =
  tss_new :: TaskStateSegment
  gdt_new :: 'g
  gdt_append :: "'g \<Rightarrow> Descriptor \<Rightarrow> (u16 \<times> 'g) outcome"

text \<open>\<open>stack\<close> is the address of the static array for the stack.\<close>

definition TSS :: "x86_64 \<Rightarrow> 'g gdt_crate \<Rightarrow> nat \<Rightarrow> TaskStateSegment outcome" where
  "TSS X G stack =
     bindR (virt_new X stack) (\<lambda>stack_start.
     bindR (virt_add X stack_start STACK_SIZE) (\<lambda>stack_end.
       Inr ((tss_new G)\<lparr>interrupt_stack_table :=
         (interrupt_stack_table (tss_new G))[DOUBLE_FAULT_IST_INDEX := stack_end]\<rparr>)))"

record Selectors =
  code_selector :: u16
  data_selector :: u16
  tss_selector :: u16

definition GDT :: "x86_64 \<Rightarrow> 'g gdt_crate \<Rightarrow> nat \<Rightarrow> ('g \<times> Selectors) outcome" where
  "GDT X G stack =
     bindR (gdt_append G (gdt_new G) Kernel_code_segment) (\<lambda>(code_selector, gdt).
     bindR (gdt_append G gdt Kernel_data_segment) (\<lambda>(data_selector, gdt).
     bindR (TSS X G stack) (\<lambda>tss.
     bindR (gdt_append G gdt (Tss_segment tss)) (\<lambda>(tss_selector, gdt).
       Inr (gdt, \<lparr>code_selector = code_selector, data_selector = data_selector, tss_selector = tss_selector\<rparr>)))))"

record 'g cpu =
  gdtr :: "'g option"
  cs_reg :: u16
  task_reg :: "u16 option"
  idt_loaded :: bool
  interrupts_enabled :: bool

definition gdt_init :: "x86_64 \<Rightarrow> 'g gdt_crate \<Rightarrow> nat \<Rightarrow> 'g cpu \<Rightarrow> 'g cpu outcome" where
  "gdt_init X G stack c =
     bindR (GDT X G stack) (\<lambda>(gdt, sel).
       Inr (c\<lparr>gdtr := Some gdt, cs_reg := code_selector sel, task_reg := Some (tss_selector sel)\<rparr>))"

section \<open>Properties\<close>

text \<open>
  What the crate documents: a table has room for seven entries after the first, a task state segment takes two,
  and appending gives a selector for the new entry without changing the others. A new task state segment has
  seven stacks.
\<close>

fun slots :: "Descriptor \<Rightarrow> nat" where
  "slots (Tss_segment _) = 2"
| "slots _ = 1"

definition gdt_docs :: "'g gdt_crate \<Rightarrow> ('g \<Rightarrow> u16 \<rightharpoonup> Descriptor) \<Rightarrow> ('g \<Rightarrow> nat) \<Rightarrow> bool" where
  "gdt_docs G ent room \<longleftrightarrow> room (gdt_new G) = 7 \<and> length (interrupt_stack_table (tss_new G)) = 7 \<and>
     (\<forall>g d. slots d \<le> room g \<longrightarrow> (\<exists>sel g'. gdt_append G g d = Inr (sel, g') \<and> ent g sel = None \<and>
        ent g' = (ent g)(sel \<mapsto> d) \<and> room g' = room g - slots d))"

lemma gdt_append_ok:
  assumes "gdt_docs G ent room" and "slots d \<le> room g"
  shows "\<exists>sel g'. gdt_append G g d = Inr (sel, g') \<and> ent g sel = None \<and> ent g' = (ent g)(sel \<mapsto> d) \<and>
    room g' = room g - slots d"
  using assms unfolding gdt_docs_def by blast

lemma gdt_init_ok:
  assumes "gdt_docs G ent room" and "x86_docs X" and "stack + STACK_SIZE < 2 ^ 47"
  shows "\<exists>c' gdt tss r. gdt_init X G stack c = Inr c' \<and> gdtr c' = Some gdt \<and>
    ent gdt (cs_reg c') = Some Kernel_code_segment \<and> task_reg c' = Some r \<and> ent gdt r = Some (Tss_segment tss) \<and>
    interrupt_stack_table tss ! DOUBLE_FAULT_IST_INDEX = stack + STACK_SIZE \<and>
    interrupts_enabled c' = interrupts_enabled c"
proof -
  have room: "room (gdt_new G) = 7" "length (interrupt_stack_table (tss_new G)) = 7"
    using assms(1) by (simp_all add: gdt_docs_def)
  obtain s1 g1 where 1: "gdt_append G (gdt_new G) Kernel_code_segment = Inr (s1, g1)"
    "ent g1 = (ent (gdt_new G))(s1 \<mapsto> Kernel_code_segment)" "room g1 = 6"
    using gdt_append_ok [OF assms(1), of Kernel_code_segment "gdt_new G"] room(1) by auto
  obtain s2 g2 where 2: "gdt_append G g1 Kernel_data_segment = Inr (s2, g2)" "ent g1 s2 = None"
    "ent g2 = (ent g1)(s2 \<mapsto> Kernel_data_segment)" "room g2 = 5"
    using gdt_append_ok [OF assms(1), of Kernel_data_segment g1] 1(3) by auto
  let ?tss = "(tss_new G)\<lparr>interrupt_stack_table := (interrupt_stack_table (tss_new G))[0 := stack + STACK_SIZE]\<rparr>"
  obtain s3 g3 where 3: "gdt_append G g2 (Tss_segment ?tss) = Inr (s3, g3)" "ent g2 s3 = None"
    "ent g3 = (ent g2)(s3 \<mapsto> Tss_segment ?tss)"
    using gdt_append_ok [OF assms(1), of "Tss_segment ?tss" g2] 2(4) by auto
  have tss: "TSS X G stack = Inr ?tss"
    using assms(3) by (simp add: TSS_def x86_virt_new [OF assms(2)] x86_virt_add [OF assms(2)] DOUBLE_FAULT_IST_INDEX_def)
  have "ent g3 s1 = Some Kernel_code_segment" using 1(2) 2(2,3) 3(2,3) by auto
  moreover have "interrupt_stack_table ?tss ! DOUBLE_FAULT_IST_INDEX = stack + STACK_SIZE"
    using room(2) by (simp add: DOUBLE_FAULT_IST_INDEX_def)
  ultimately show ?thesis using 3(3) by (simp add: gdt_init_def GDT_def 1(1) 2(1) 3(1) tss)
qed

text \<open>
  After \<^verbatim>\<open>gdt::init\<close> the code segment register selects the kernel's code segment in the loaded table, and the
  task register selects a task state segment whose first interrupt stack starts at the end of the
  array reserved for it.
\<close>

theorem gdt_init_selects:
  assumes "gdt_docs G ent room" and "x86_docs X" and "stack + STACK_SIZE < 2 ^ 47"
  shows "\<exists>c' gdt tss r. gdt_init X G stack c = Inr c' \<and> gdtr c' = Some gdt \<and>
    ent gdt (cs_reg c') = Some Kernel_code_segment \<and> task_reg c' = Some r \<and> ent gdt r = Some (Tss_segment tss) \<and>
    interrupt_stack_table tss ! DOUBLE_FAULT_IST_INDEX = stack + STACK_SIZE \<and>
    interrupts_enabled c' = interrupts_enabled c"
  by (rule gdt_init_ok [OF assms])

section \<open>An instance\<close>

text \<open>A table as the number of used slots and a map from selectors; a selector is an index times eight.\<close>

definition table_entries :: "nat \<times> (u16 \<rightharpoonup> Descriptor) \<Rightarrow> u16 \<rightharpoonup> Descriptor" where
  "table_entries g = (\<lambda>sel. if unat sel < 8 * (fst g + 1) then snd g sel else None)"

definition table_gdt :: "(nat \<times> (u16 \<rightharpoonup> Descriptor)) gdt_crate" where
  "table_gdt = \<lparr>tss_new = \<lparr>interrupt_stack_table = replicate 7 0\<rparr>, gdt_new = (0, Map.empty),
     gdt_append = (\<lambda>g d. if fst g + slots d \<le> 7
       then Inr (word_of_nat (8 * (fst g + 1)), fst g + slots d, (table_entries g)(word_of_nat (8 * (fst g + 1)) \<mapsto> d))
       else Inl (Panicked ''GDT full''))\<rparr>"

lemma table_gdt_docs: "gdt_docs table_gdt table_entries (\<lambda>g. 7 - fst g)"
proof -
  have "\<exists>sel g'. gdt_append table_gdt g d = Inr (sel, g') \<and> table_entries g sel = None \<and>
      table_entries g' = (table_entries g)(sel \<mapsto> d) \<and> 7 - fst g' = 7 - fst g - slots d"
    if "slots d \<le> 7 - fst g" for g d
  proof -
    let ?sel = "word_of_nat (8 * (fst g + 1)) :: u16"
    have p: "0 < slots d" by (cases d) simp_all
    then have u: "unat ?sel = 8 * (fst g + 1)" using that unfolding unat_of_nat by (subst mod_less) simp_all
    have "table_entries (fst g + slots d, (table_entries g)(?sel \<mapsto> d)) = (table_entries g)(?sel \<mapsto> d)"
      using p u by (auto simp: table_entries_def [of "(_, _)"] fun_eq_iff) (auto simp: table_entries_def)
    with that p u show ?thesis by (auto simp: table_gdt_def table_entries_def)
  qed
  then show ?thesis by (simp add: gdt_docs_def) (simp add: table_gdt_def)
qed

theorem gdt_init_selects_witness:
  "\<exists>c' gdt r. gdt_init x86_std table_gdt 0x9000 \<lparr>gdtr = None, cs_reg = 0, task_reg = None, idt_loaded = False,
     interrupts_enabled = False\<rparr> = Inr c' \<and> gdtr c' = Some gdt \<and> task_reg c' = Some r \<and>
     table_entries gdt (cs_reg c') = Some Kernel_code_segment \<and> \<not> interrupts_enabled c'"
  using gdt_init_selects [OF table_gdt_docs x86_std_docs, of "0x9000"
      "\<lparr>gdtr = None, cs_reg = 0, task_reg = None, idt_loaded = False, interrupts_enabled = False\<rparr>"]
  by (auto simp: STACK_SIZE_def)

end
