(* ===== verification/Pci_Config.thy ===== *)
theory Pci_Config
  imports Pci_Types Hardware
begin

text \<open>
  \<^verbatim>\<open>kernel/src/device/pci/config.rs\<close>, \<^verbatim>\<open>pci/mod.rs\<close> and \<^verbatim>\<open>device/net/intel_8254x.rs\<close>: access to the
  configuration space. The trait \<^verbatim>\<open>ConfigurationSpaceMechanism\<close> is a record of its three required methods, its
  other methods are functions of such a record, and its contract is the locale \<open>configuration_space\<close>. The
  mechanism of the kernel, through two I/O ports, is an instance of it.
\<close>

section \<open>The trait\<close>

record 'd mechanism =
  read_word :: "PciAddress \<Rightarrow> u16 \<Rightarrow> 'd \<Rightarrow> u16 \<times> 'd"
  read_dword :: "PciAddress \<Rightarrow> u16 \<Rightarrow> 'd \<Rightarrow> u32 \<times> 'd"
  write_word :: "PciAddress \<Rightarrow> u16 \<Rightarrow> u16 \<Rightarrow> 'd \<Rightarrow> 'd"

definition vendor_id :: "'d mechanism \<Rightarrow> PciAddress \<Rightarrow> 'd \<Rightarrow> PciVendorId \<times> 'd" where
  "vendor_id M addr d = (let (v, d) = read_word M addr 0x0 d in (PciVendorId v, d))"

definition device_id :: "'d mechanism \<Rightarrow> PciAddress \<Rightarrow> 'd \<Rightarrow> PciDeviceId \<times> 'd" where
  "device_id M addr d = (let (v, d) = read_word M addr 0x2 d in (PciDeviceId v, d))"

definition command :: "'d mechanism \<Rightarrow> PciAddress \<Rightarrow> 'd \<Rightarrow> u16 \<times> 'd" where
  "command M addr d = read_word M addr 0x4 d"

definition write_command :: "'d mechanism \<Rightarrow> PciAddress \<Rightarrow> u16 \<Rightarrow> 'd \<Rightarrow> 'd" where
  "write_command M addr v d = write_word M addr 0x4 v d"

definition status :: "'d mechanism \<Rightarrow> PciAddress \<Rightarrow> 'd \<Rightarrow> u16 \<times> 'd" where
  "status M addr d = read_word M addr 0x6 d"

definition revision_id :: "'d mechanism \<Rightarrow> PciAddress \<Rightarrow> 'd \<Rightarrow> u8 \<times> 'd" where
  "revision_id M addr d = (let (v, d) = read_word M addr 0x8 d in (ucast (v AND 0xFF), d))"

definition prog_if :: "'d mechanism \<Rightarrow> PciAddress \<Rightarrow> 'd \<Rightarrow> u8 \<times> 'd" where
  "prog_if M addr d = (let (v, d) = read_word M addr 0x8 d in (ucast (drop_bit 8 v), d))"

definition pci_subclass :: "'d mechanism \<Rightarrow> PciAddress \<Rightarrow> 'd \<Rightarrow> PciSubclass \<times> 'd" where
  "pci_subclass M addr d = (let (v, d) = read_word M addr 0xA d in (PciSubclass (ucast (v AND 0xFF)), d))"

definition class_code :: "'d mechanism \<Rightarrow> PciAddress \<Rightarrow> 'd \<Rightarrow> PciClassCode \<times> 'd" where
  "class_code M addr d = (let (v, d) = read_word M addr 0xA d in (class_new (ucast (drop_bit 8 v)), d))"

definition enable_bus_mastering :: "'d mechanism \<Rightarrow> PciAddress \<Rightarrow> 'd \<Rightarrow> 'd" where
  "enable_bus_mastering M addr d =
     (let (c, d) = command M addr d in write_command M addr (c OR push_bit 2 1) d)"

definition header_type :: "'d mechanism \<Rightarrow> PciAddress \<Rightarrow> 'd \<Rightarrow> PciHeaderType \<times> 'd" where
  "header_type M addr d = (let (v, d) = read_word M addr 0xE d in (header_new (ucast v), d))"

definition base_address :: "'d mechanism \<Rightarrow> PciAddress \<Rightarrow> nat \<Rightarrow> 'd \<Rightarrow> u32 option \<times> 'd" where
  "base_address M addr idx d =
     (let (h, d) = header_type M addr d
      in if bar_count h > idx then
           let (v, d) = read_dword M addr (0x10 + word_of_nat (idx * 4)) d in (Some v, d)
         else (None, d))"

section \<open>Enumeration\<close>

record DeviceEnumerator =
  enum_bus :: nat
  enum_device :: nat

definition enum_addr :: "DeviceEnumerator \<Rightarrow> PciAddress" where
  "enum_addr e = \<lparr>segment = 0, bus = word_of_nat (enum_bus e), device = word_of_nat (enum_device e), func = 0\<rparr>"

definition enum_left :: "DeviceEnumerator \<Rightarrow> nat" where
  "enum_left e = (256 - enum_bus e) + (32 - enum_device e)"

function enum_next :: "'d mechanism \<Rightarrow> DeviceEnumerator \<Rightarrow> 'd \<Rightarrow>
   (PciAddress \<times> PciVendorId \<times> PciDeviceId) option \<times> DeviceEnumerator \<times> 'd" where
  "enum_next M e d =
     (if enum_bus e < 256 then
        if enum_device e < 32 then
          let addr = enum_addr e;
              e = e\<lparr>enum_device := enum_device e + 1\<rparr>;
              (v, d) = vendor_id M addr d
          in if v \<noteq> INVALID then
               let (i, d) = device_id M addr d in (Some (addr, v, i), e, d)
             else enum_next M e d
        else enum_next M (e\<lparr>enum_bus := enum_bus e + 1\<rparr>) d
      else (None, e, d))"
  by pat_completeness auto
termination by (relation "measure (\<lambda>(M, e, d). enum_left e)") (auto simp: enum_left_def)

declare enum_next.simps [simp del]

lemma enum_next_left: "enum_next M e d = (Some x, e', d') \<Longrightarrow> enum_left e' < enum_left e"
proof (induction M e d rule: enum_next.induct)
  case (1 M e d)
  show ?case
  proof (cases "enum_bus e < 256 \<and> enum_device e < 32")
    case True
    obtain v d1 where v: "vendor_id M (enum_addr e) d = (v, d1)" by (rule prod.exhaust)
    show ?thesis
    proof (cases "v = INVALID")
      case False
      with 1(3) True v show ?thesis
        by (subst (asm) enum_next.simps) (auto simp: enum_left_def Let_def split: prod.splits)
    next
      case inv: True
      then have "enum_next M (e\<lparr>enum_device := enum_device e + 1\<rparr>) d1 = (Some x, e', d')"
        using 1(3) True v by (subst (asm) enum_next.simps) simp
      with 1(1) [of "enum_addr e" "e\<lparr>enum_device := enum_device e + 1\<rparr>" "(v, d1)" v d1] True v inv
      show ?thesis by (simp add: enum_left_def)
    qed
  next
    case False
    note eq = 1(3) [unfolded enum_next.simps [of M e d]]
    from False eq have b: "enum_bus e < 256" "\<not> enum_device e < 32" by (auto split: if_splits)
    with eq have "enum_next M (e\<lparr>enum_bus := enum_bus e + 1\<rparr>) d = (Some x, e', d')" by simp
    from 1(2) [OF b this] b show ?thesis by (simp add: enum_left_def)
  qed
qed

text \<open>What \<^verbatim>\<open>pci::init\<close> reports for a device.\<close>

record PciReport =
  rep_addr :: PciAddress
  rep_vendor :: PciVendorId
  rep_device :: PciDeviceId
  rep_class :: PciClassCode
  rep_subclass :: "string option"
  rep_names :: "(string \<times> string option) option"

definition report_device ::
  "'d mechanism \<Rightarrow> PciAddress \<times> PciVendorId \<times> PciDeviceId \<Rightarrow> PciReport list \<times> 'd \<Rightarrow> PciReport list \<times> 'd" where
  "report_device M dev acc =
     (let (addr, v, i) = dev; (reports, d) = acc;
          (c, d) = class_code M addr d;
          (s, d) = pci_subclass M addr d
      in (reports @ [\<lparr>rep_addr = addr, rep_vendor = v, rep_device = i, rep_class = c,
            rep_subclass = subclass_name s c,
            rep_names = (case vendor_name v of None \<Rightarrow> None | Some n \<Rightarrow> Some (n, device_name i v))\<rparr>], d))"

text \<open>The loop of \<^verbatim>\<open>pci::init\<close>, which takes the devices from the iterator one by one.\<close>

function pci_loop :: "'d mechanism \<Rightarrow> DeviceEnumerator \<Rightarrow> PciReport list \<times> 'd \<Rightarrow> PciReport list \<times> 'd" where
  "pci_loop M e acc =
     (case enum_next M e (snd acc) of
        (None, e, d) \<Rightarrow> (fst acc, d)
      | (Some dev, e, d) \<Rightarrow> pci_loop M e (report_device M dev (fst acc, d)))"
  by pat_completeness auto
termination
  by (relation "measure (\<lambda>(M, e, acc). enum_left e)") (auto dest!: sym [of _ "enum_next _ _ _"] enum_next_left)

declare pci_loop.simps [simp del]

definition enumerate_start :: DeviceEnumerator where
  "enumerate_start = \<lparr>enum_bus = 0, enum_device = 0\<rparr>"

section \<open>The mechanism with two I/O ports\<close>

definition CONFIG_ADDRESS :: u16 where "CONFIG_ADDRESS = 0xCF8"
definition CONFIG_DATA :: u16 where "CONFIG_DATA = 0xCFC"

definition local_bus_read_dword :: "'d machine \<Rightarrow> PciAddress \<Rightarrow> u16 \<Rightarrow> 'd \<Rightarrow> u32 \<times> 'd" where
  "local_bus_read_dword D addr offset d =
     (let d = out32 D d CONFIG_ADDRESS (create_local_bus_address addr offset True)
      in in32 D d CONFIG_DATA)"

definition local_bus_read_word :: "'d machine \<Rightarrow> PciAddress \<Rightarrow> u16 \<Rightarrow> 'd \<Rightarrow> u16 \<times> 'd" where
  "local_bus_read_word D addr offset d =
     (let (data, d) = local_bus_read_dword D addr offset d
      in (ucast (drop_bit (unat ((offset AND 2) * 8)) data AND 0xFFFF), d))"

definition local_bus_write_word :: "'d machine \<Rightarrow> PciAddress \<Rightarrow> u16 \<Rightarrow> u16 \<Rightarrow> 'd \<Rightarrow> 'd" where
  "local_bus_write_word D addr offset val d =
     (let d = out32 D d CONFIG_ADDRESS (create_local_bus_address addr offset False);
          (data, d) = in32 D d CONFIG_DATA;
          val = ucast val;
          data = (if offset AND 2 = 0 then val OR (data AND 0xFFFF0000) else push_bit 16 val OR (data AND 0xFFFF))
      in out32 D d CONFIG_DATA data)"

definition PciLocalBusConfigurationSpace :: "'d machine \<Rightarrow> 'd mechanism" where
  "PciLocalBusConfigurationSpace D =
     \<lparr>read_word = local_bus_read_word D, read_dword = local_bus_read_dword D, write_word = local_bus_write_word D\<rparr>"

definition pci_init :: "'d machine \<Rightarrow> 'd \<Rightarrow> PciReport list \<times> 'd" where
  "pci_init D d = pci_loop (PciLocalBusConfigurationSpace D) enumerate_start ([], d)"

section \<open>The network card\<close>

definition intel8254x_initialize :: "'d mechanism \<Rightarrow> PciAddress \<Rightarrow> 'd \<Rightarrow> 'd outcome" where
  "intel8254x_initialize M pci_addr d =
     (let d = enable_bus_mastering M pci_addr d;
          (bar0, d) = base_address M pci_addr 0 d
      in bindR (unwrapR ''Should have BAR0'' bar0) (\<lambda>_. Inr d))"

section \<open>The contract of the trait\<close>

text \<open>The word at an offset is the half of the double word that the offset selects.\<close>

definition half :: "u16 \<Rightarrow> u32 \<Rightarrow> u16" where
  "half offset data = ucast (drop_bit (unat ((offset AND 2) * 8)) data AND 0xFFFF)"

lemma half_cases:
  "offset AND 2 = 0 \<Longrightarrow> half offset data = ucast data"
  "offset AND 2 \<noteq> 0 \<Longrightarrow> half offset data = ucast (drop_bit 16 data)"
proof -
  have m: "(0xFFFF :: u32) = mask 16" by (simp add: mask_eq_exp_minus_1)
  have c: "ucast (w AND 0xFFFF) = (ucast w :: u16)" for w :: u32
    unfolding m by (rule bit_word_eqI) (auto simp: bit_simps)
  show "offset AND 2 = 0 \<Longrightarrow> half offset data = ucast data" by (simp add: half_def c)
  assume "offset AND 2 \<noteq> 0"
  moreover have "offset AND 2 = push_bit 1 (of_bool (bit offset 1))"
    by (rule bit_word_eqI) (auto simp: bit_simps)
  ultimately have "offset AND 2 = 2" by (cases "bit offset 1") auto
  then show "half offset data = ucast (drop_bit 16 data)" by (simp add: half_def c)
qed

text \<open>Reading has no effect on the registers, and a double word is the register that its offset names.\<close>

definition stable :: "'d mechanism \<Rightarrow> ('d \<Rightarrow> PciAddress \<Rightarrow> u16 \<Rightarrow> u32) \<Rightarrow> bool" where
  "stable M regs \<longleftrightarrow> (\<forall>a offset d.
     fst (read_dword M a offset d) = regs d a (offset AND 0xFC) \<and> regs (snd (read_dword M a offset d)) = regs d)"

text \<open>A device at an address, what is reported of it, and that part of a report.\<close>

definition present :: "(PciAddress \<Rightarrow> u16 \<Rightarrow> u32) \<Rightarrow> PciAddress \<Rightarrow> bool" where
  "present rd a \<longleftrightarrow> PciVendorId (ucast (rd a 0)) \<noteq> INVALID"

definition found :: "(PciAddress \<Rightarrow> u16 \<Rightarrow> u32) \<Rightarrow> PciAddress \<Rightarrow> PciAddress \<times> PciVendorId \<times> PciDeviceId \<times> PciClassCode" where
  "found rd a = (a, PciVendorId (ucast (rd a 0)), PciDeviceId (ucast (drop_bit 16 (rd a 0))),
     class_new (ucast (drop_bit 24 (rd a 8))))"

definition summary :: "PciReport \<Rightarrow> PciAddress \<times> PciVendorId \<times> PciDeviceId \<times> PciClassCode" where
  "summary r = (rep_addr r, rep_vendor r, rep_device r, rep_class r)"

locale configuration_space =
  fixes M :: "'d mechanism"
  assumes word_of_dword: "read_word M a offset d = (half offset (fst (read_dword M a offset d)), snd (read_dword M a offset d))"
begin

lemma read_word_stable:
  assumes "stable M regs"
  obtains d' where "read_word M a offset d = (half offset (regs d a (offset AND 0xFC)), d')" and "regs d' = regs d"
  using assms word_of_dword [of a offset d] that unfolding stable_def by metis

lemma vendor_id_stable:
  assumes "stable M regs"
  obtains d' where "vendor_id M a d = (PciVendorId (ucast (regs d a 0)), d')" and "regs d' = regs d"
proof -
  obtain d' where "read_word M a 0 d = (half 0 (regs d a (0 AND 0xFC)), d')" "regs d' = regs d"
    using read_word_stable [OF assms] .
  then show ?thesis using that by (simp add: vendor_id_def half_cases)
qed

lemma device_id_stable:
  assumes "stable M regs"
  obtains d' where "device_id M a d = (PciDeviceId (ucast (drop_bit 16 (regs d a 0))), d')" and "regs d' = regs d"
proof -
  obtain d' where "read_word M a 2 d = (half 2 (regs d a (2 AND 0xFC)), d')" "regs d' = regs d"
    using read_word_stable [OF assms] .
  then show ?thesis using that by (simp add: device_id_def half_cases)
qed

lemma report_device_stable:
  assumes "stable M regs"
  obtains r d' where "report_device M (a, v, i) (rs, d) = (rs @ [r], d')" and "regs d' = regs d"
    and "rep_addr r = a" and "rep_vendor r = v" and "rep_device r = i"
    and "rep_class r = class_new (ucast (drop_bit 24 (regs d a 8)))"
proof -
  have ucast: "ucast (drop_bit 8 (ucast (drop_bit 16 w) :: u16)) = (ucast (drop_bit 24 w) :: u8)" for w :: u32
    by (rule bit_word_eqI) (auto simp: bit_simps ac_simps)
  obtain d1 where d1: "read_word M a 0xA d = (half 0xA (regs d a (0xA AND 0xFC)), d1)" "regs d1 = regs d"
    using read_word_stable [OF assms] .
  obtain d2 where d2: "read_word M a 0xA d1 = (half 0xA (regs d1 a (0xA AND 0xFC)), d2)" "regs d2 = regs d1"
    using read_word_stable [OF assms] .
  let ?c = "class_new (ucast (drop_bit 24 (regs d a 8)))"
    and ?s = "PciSubclass (ucast ((ucast (drop_bit 16 (regs d a 8)) :: u16) AND 255))"
  show ?thesis
    by (rule that [of "\<lparr>rep_addr = a, rep_vendor = v, rep_device = i, rep_class = ?c, rep_subclass = subclass_name ?s ?c,
          rep_names = (case vendor_name v of None \<Rightarrow> None | Some n \<Rightarrow> Some (n, device_name i v))\<rparr>" d2])
      (use d1 d2 in \<open>simp_all add: report_device_def class_code_def pci_subclass_def half_cases ucast\<close>)
qed

text \<open>One turn of the loop, over the registers \<open>rd\<close> of the devices.\<close>

lemma pci_loop_turn:
  assumes "stable M regs" and "enum_bus e < 256" and "enum_device e < 32"
  obtains rs' d' where "pci_loop M e (rs, d) = pci_loop M (e\<lparr>enum_device := Suc (enum_device e)\<rparr>) (rs', d')"
    and "regs d' = regs d"
    and "map summary rs' = map summary rs @ (if present (regs d) (enum_addr e) then [found (regs d) (enum_addr e)] else [])"
proof -
  let ?a = "enum_addr e" and ?e = "e\<lparr>enum_device := Suc (enum_device e)\<rparr>"
  obtain d1 where d1: "vendor_id M ?a d = (PciVendorId (ucast (regs d ?a 0)), d1)" "regs d1 = regs d"
    using vendor_id_stable [OF assms(1)] .
  show ?thesis
  proof (cases "present (regs d) ?a")
    case False
    then have inv: "PciVendorId (ucast (regs d ?a 0)) = INVALID" by (simp add: present_def)
    have "enum_next M e d = enum_next M ?e d1"
      using assms(2,3) d1(1) inv by (subst enum_next.simps) (simp add: Let_def)
    then have "pci_loop M e (rs, d) = pci_loop M ?e (rs, d1)"
      by (simp only: pci_loop.simps [of M e] pci_loop.simps [of M ?e] fst_conv snd_conv)
    with d1(2) False that show ?thesis by simp
  next
    case True
    obtain d2 where d2: "device_id M ?a d1 = (PciDeviceId (ucast (drop_bit 16 (regs d1 ?a 0))), d2)" "regs d2 = regs d1"
      using device_id_stable [OF assms(1)] .
    obtain r d3 where r: "report_device M (?a, PciVendorId (ucast (regs d ?a 0)), PciDeviceId (ucast (drop_bit 16 (regs d ?a 0)))) (rs, d2)
        = (rs @ [r], d3)" "regs d3 = regs d2" "summary r = found (regs d) ?a"
      using report_device_stable [OF assms(1), of ?a "PciVendorId (ucast (regs d ?a 0))"
          "PciDeviceId (ucast (drop_bit 16 (regs d ?a 0)))" rs d2] d1(2) d2(2)
      by (metis (no_types, lifting) found_def summary_def)
    have "PciVendorId (ucast (regs d ?a 0)) \<noteq> INVALID" using True by (simp add: present_def)
    then have "enum_next M e d = (Some (?a, PciVendorId (ucast (regs d ?a 0)), PciDeviceId (ucast (drop_bit 16 (regs d ?a 0)))), ?e, d2)"
      using assms(2,3) d1 d2(1) by (subst enum_next.simps) (simp add: Let_def)
    then have "pci_loop M e (rs, d) = pci_loop M ?e (rs @ [r], d3)"
      by (subst pci_loop.simps) (simp add: r(1))
    with d1(2) d2(2) r(2,3) True that [of "rs @ [r]" d3] show ?thesis by simp
  qed
qed

lemma enum_next_rest: "32 \<le> enum_device e \<Longrightarrow> fst (enum_next M e d) = None \<and> snd (snd (enum_next M e d)) = d"
  by (induction M e d rule: enum_next.induct) (subst (1 2) enum_next.simps, simp)

lemma pci_loop_bus:
  assumes "stable M regs" and "enum_bus e < 256"
  shows "map summary (fst (pci_loop M e (rs, d))) = map summary rs @
    map (found (regs d)) (filter (present (regs d)) (map (\<lambda>k. enum_addr (e\<lparr>enum_device := k\<rparr>)) [enum_device e..<32]))"
  using assms(2)
proof (induction "32 - enum_device e" arbitrary: e rs d)
  case 0
  then have "enum_next M e d = (None, fst (snd (enum_next M e d)), d)"
    using enum_next_rest [of e d] by (metis diff_is_0_eq prod.collapse)
  then have "fst (pci_loop M e (rs, d)) = rs"
    by (subst pci_loop.simps) (metis (no_types, lifting) fst_conv old.prod.case option.simps(4) snd_conv)
  with 0 show ?case by simp
next
  case (Suc n)
  then have lt: "enum_device e < 32" by simp
  let ?e = "e\<lparr>enum_device := Suc (enum_device e)\<rparr>"
  obtain rs' d' where t: "pci_loop M e (rs, d) = pci_loop M ?e (rs', d')" "regs d' = regs d"
    "map summary rs' = map summary rs @ (if present (regs d) (enum_addr e) then [found (regs d) (enum_addr e)] else [])"
    using pci_loop_turn [OF assms(1) Suc.prems lt] .
  have "[enum_device e..<32] = enum_device e # [Suc (enum_device e)..<32]" using lt by (simp add: upt_conv_Cons)
  with Suc(1) [of ?e rs' d'] Suc(2,3) t show ?case by (simp add: lt)
qed

end

interpretation local_bus: configuration_space "PciLocalBusConfigurationSpace D" for D
  by unfold_locales
    (simp add: PciLocalBusConfigurationSpace_def local_bus_read_word_def half_def Let_def case_prod_beta)

section \<open>The ports\<close>

text \<open>
  The specification of configuration mechanism 1: the address port holds what was written last; if its top bit
  is set, the data port is the register with that address, and otherwise accesses to it do not
  reach the configuration space.
\<close>

definition pci_docs :: "'d machine \<Rightarrow> ('d \<Rightarrow> u32) \<Rightarrow> ('d \<Rightarrow> u32 \<Rightarrow> u32) \<Rightarrow> bool" where
  "pci_docs D latch space \<longleftrightarrow>
     (\<forall>d v. latch (out32 D d 0xCF8 v) = v \<and> space (out32 D d 0xCF8 v) = space d) \<and>
     (\<forall>d. latch (snd (in32 D d 0xCFC)) = latch d \<and> space (snd (in32 D d 0xCFC)) = space d) \<and>
     (\<forall>d. bit (latch d) 31 \<longrightarrow> fst (in32 D d 0xCFC) = space d (latch d)) \<and>
     (\<forall>d v. bit (latch d) 31 \<longrightarrow> space (out32 D d 0xCFC v) = (space d)(latch d := v)) \<and>
     (\<forall>d v. \<not> bit (latch d) 31 \<longrightarrow> space (out32 D d 0xCFC v) = space d)"

lemma local_bus_address_simps:
  "bit (create_local_bus_address a offset True) 31"
  "\<not> bit (create_local_bus_address a offset False) 31"
  "create_local_bus_address a (offset AND 0xFC) enabled = create_local_bus_address a offset enabled"
proof -
  have m: "(0xFC :: u32) = push_bit 2 (mask 6)" "(0xFC :: u16) = push_bit 2 (mask 6)"
    by (simp_all add: mask_eq_exp_minus_1)
  show "bit (create_local_bus_address a offset True) 31"
    by (simp add: create_local_bus_address_def bit_simps)
  show "\<not> bit (create_local_bus_address a offset False) 31"
    by (auto simp: create_local_bus_address_def bit_simps m dest: bit_imp_le_length)
  have "(ucast (offset AND 0xFC) :: u32) AND 0xFC = ucast offset AND 0xFC"
    unfolding m by (rule bit_word_eqI) (auto simp: bit_simps)
  then show "create_local_bus_address a (offset AND 0xFC) enabled = create_local_bus_address a offset enabled"
    by (simp add: create_local_bus_address_def)
qed

lemma local_bus_stable:
  assumes "pci_docs D latch space"
  shows "stable (PciLocalBusConfigurationSpace D) (\<lambda>d a offset. space d (create_local_bus_address a offset True))"
  using assms unfolding stable_def pci_docs_def
  by (simp add: PciLocalBusConfigurationSpace_def local_bus_read_dword_def CONFIG_ADDRESS_def CONFIG_DATA_def
      local_bus_address_simps Let_def)

text \<open>
  C19: \<^verbatim>\<open>pci::init\<close> reports exactly the devices of bus 0 whose vendor is valid, in the order of their numbers,
  with vendor, device and class as in their registers. Devices on other buses are never found: the
  enumerator does not start again at device 0 on the next bus.
\<close>

theorem pci_init_reports_bus_0:
  assumes "pci_docs D latch space"
  shows "map summary (fst (pci_init D d)) =
    (let rd = (\<lambda>a offset. space d (create_local_bus_address a offset True))
     in map (found rd) (filter (present rd) (map (\<lambda>k. \<lparr>segment = 0, bus = 0, device = word_of_nat k, func = 0\<rparr>) [0..<32])))"
  using local_bus.pci_loop_bus [OF local_bus_stable [OF assms], of enumerate_start "[]" d]
  by (simp add: pci_init_def enumerate_start_def enum_addr_def Let_def)

text \<open>
  C40: Writing to the configuration space has no effect. \<^verbatim>\<open>write_word\<close> selects the register without the enable
  bit, so bus mastering, which the network driver asks for, is never switched on.
\<close>

theorem enable_bus_mastering_no_effect:
  assumes "pci_docs D latch space"
  shows "space (enable_bus_mastering (PciLocalBusConfigurationSpace D) a d) = space d"
proof -
  have w: "space (local_bus_write_word D a offset v d) = space d" for offset v d
    using assms unfolding pci_docs_def
    by (simp add: local_bus_write_word_def CONFIG_ADDRESS_def CONFIG_DATA_def local_bus_address_simps Let_def case_prod_beta)
  obtain d' v where "read_word (PciLocalBusConfigurationSpace D) a 0x4 d = (v, d')" "space d' = space d"
    using assms unfolding pci_docs_def
    by (simp add: PciLocalBusConfigurationSpace_def local_bus_read_word_def local_bus_read_dword_def
        CONFIG_ADDRESS_def CONFIG_DATA_def Let_def case_prod_beta)
  then show ?thesis
    by (simp add: enable_bus_mastering_def command_def write_command_def w PciLocalBusConfigurationSpace_def)
qed

section \<open>Instances\<close>

text \<open>A host bridge whose configuration space is a function.\<close>

definition sim_pci :: "(u32 \<times> (u32 \<Rightarrow> u32)) machine" where
  "sim_pci = \<lparr>
     mmio_read = (\<lambda>d a. (0, d)), mmio_write = (\<lambda>d a v. d),
     in8 = (\<lambda>d p. (0, d)), in16 = (\<lambda>d p. (0, d)),
     in32 = (\<lambda>d p. (if bit (fst d) 31 then snd d (fst d) else 0xFFFFFFFF, d)),
     out8 = (\<lambda>d p v. d), out16 = (\<lambda>d p v. d),
     out32 = (\<lambda>d p v. if p = 0xCF8 then (v, snd d)
        else if bit (fst d) 31 then (fst d, (snd d)(fst d := v)) else d),
     rdmsr = (\<lambda>d r. 0), wrmsr = (\<lambda>d r v. d)\<rparr>"

lemma sim_pci_docs: "pci_docs sim_pci fst snd"
  by (simp add: pci_docs_def sim_pci_def)

text \<open>One device on bus 0 and one on bus 1.\<close>

definition two_devices :: "u32 \<Rightarrow> u32" where
  "two_devices r = (if r = 0x80001800 \<or> r = 0x80010000 then 0x100E8086
     else if r = 0x80001808 then 0x02000000 else 0xFFFFFFFF)"

theorem pci_init_reports_bus_0_witness:
  "map summary (fst (pci_init sim_pci (0, two_devices))) =
     [(\<lparr>segment = 0, bus = 0, device = 3, func = 0\<rparr>, INTEL_CORPORATION, PciDeviceId 0x100E, NetworkController)]"
proof -
  have "[0..<32] = [0, 1, 2, 3, 4, 5, 6, 7, 8, 9, 10, 11, 12, 13, 14, 15, 16, 17, 18, 19, 20, 21, 22, 23,
      24, 25, 26, 27, 28, 29, 30, 31]" by (simp add: upt_rec)
  with pci_init_reports_bus_0 [OF sim_pci_docs, of "(0, two_devices)"] show ?thesis
    by (simp add: present_def INVALID_def found_def two_devices_def create_local_bus_address_def
        INTEL_CORPORATION_def class_new_def class_codes_def)
qed

theorem enable_bus_mastering_no_effect_witness:
  "snd (enable_bus_mastering (PciLocalBusConfigurationSpace sim_pci)
     \<lparr>segment = 0, bus = 0, device = 3, func = 0\<rparr> (0, two_devices)) = two_devices"
  using enable_bus_mastering_no_effect [OF sim_pci_docs, of _ "(0, two_devices)"] by simp

end
