(* ===== verification/Boot.thy ===== *)
theory Boot
  imports Pit Logging System Symbols Gdt Pci_Config
begin

text \<open>
  \<^verbatim>\<open>kernel/src/main.rs\<close>, with \<^verbatim>\<open>logging::init\<close>, \<^verbatim>\<open>meta::init\<close> and \<^verbatim>\<open>device::init\<close>: the start of the kernel as one
  sequence of steps on its whole state, the countdown, and the way into the executor. Every record above the
  level of a trace is drawn on the screen and may panic, so these are kept wherever they come from, interrupt handlers
  included. Trace
  records go to the serial port only; those inside the steps are left out, as are the two error
  records of a shutdown that fails, after which the kernel panics in any case.
\<close>

section \<open>State\<close>

text \<open>Everything outside the repository that the start of the kernel uses.\<close>

record ('m, 'f, 'd, 's, 'a, 'q, 't, 'c, 'e, 'g, 'u) env =
  e_x86 :: x86_64
  e_mapper :: "'m mapper_ops"
  e_new_table :: "nat \<Rightarrow> nat \<Rightarrow> 'm"
  e_fallback_init :: "'f \<Rightarrow> nat \<Rightarrow> nat \<Rightarrow> 'f outcome"
  e_cr3 :: nat
  e_gdt :: "'g gdt_crate"
  e_stack :: nat
  e_acpi :: "('m, 'd, 't, 'c) acpi_crates"
  e_elf :: "'e elf_crate"
  e_image :: "nat \<Rightarrow> u8"
  e_platform :: "('d, 's, 'a, 'q) platform"
  e_frame_texts :: frame_texts
  e_font :: font
  e_level_str :: "Level \<Rightarrow> nat list"
  e_report_lines :: "PciReport \<Rightarrow> nat list list"
  e_brand_string :: "string option"
  e_print_keypresses :: 'u

text \<open>What the boot loader passes to the kernel.\<close>

record BootInfo =
  bi_framebuffer :: "(u8 list \<times> FrameBufferInfo) option"
  bi_physical_memory_offset :: "nat option"
  bi_memory_regions :: "MemoryRegion list"
  bi_rsdp_addr :: "nat option"
  bi_image :: BootImage

text \<open>The static state of the kernel and the processor.\<close>

record ('m, 'f, 'd, 's, 'a, 'q, 'c, 'e, 'g) kernel =
  k_logger :: bool
  k_out :: outputs
  k_cpu :: "'g cpu"
  k_irq :: "('d, 's, 'a, 'q) irq_state"
  k_mem :: "'m kernel_memory"
  k_ram :: "nat \<Rightarrow> u8"
  k_heap :: "'f FixedSizeBlockAllocator"
  k_acpi :: "'c AcpiData"
  k_elf :: "'e option option"
  k_next_id :: u64

section \<open>Steps\<close>

type_synonym ('m, 'f, 'd, 's, 'a, 'q, 'c, 'e, 'g) step =
  "('m, 'f, 'd, 's, 'a, 'q, 'c, 'e, 'g) kernel \<Rightarrow> ('m, 'f, 'd, 's, 'a, 'q, 'c, 'e, 'g) kernel outcome"

definition logging_init :: "('m, 'f, 'd, 's, 'a, 'q, 'c, 'e, 'g) step" where
  "logging_init k = (if k_logger k then Inl (Unwrap_Failed ''Failed to set logger'') else Inr (k\<lparr>k_logger := True\<rparr>))"

definition log_at :: "('m, 'f, 'd, 's, 'a, 'q, 't, 'c, 'e, 'g, 'u) env \<Rightarrow> string \<Rightarrow> Level \<Rightarrow> nat list \<Rightarrow>
   ('m, 'f, 'd, 's, 'a, 'q, 'c, 'e, 'g) step" where
  "log_at E target level args k =
     (if k_logger k then
        bindR (logger_log (e_font E) (e_level_str E) \<lparr>rec_target = codes target, rec_level = level, rec_args = args\<rparr> (k_out k))
          (\<lambda>out. Inr (k\<lparr>k_out := out\<rparr>))
      else Inr k)"

abbreviation log_main where "log_main E level text \<equiv> log_at E ''nocciolo_kernel'' level (codes text)"

definition set_framebuffer :: "BootInfo \<Rightarrow> ('m, 'f, 'd, 's, 'a, 'q, 'c, 'e, 'g) step" where
  "set_framebuffer bi k = (case bi_framebuffer bi of
     None \<Rightarrow> Inr k
   | Some (buf, info) \<Rightarrow> Inr (k\<lparr>k_out := (k_out k)\<lparr>screen := set_fb (screen (k_out k)) buf info\<rparr>\<rparr>))"

definition gdt_step :: "('m, 'f, 'd, 's, 'a, 'q, 't, 'c, 'e, 'g, 'u) env \<Rightarrow>
   ('m, 'f, 'd, 's, 'a, 'q, 'c, 'e, 'g) step" where
  "gdt_step E k = bindR (gdt_init (e_x86 E) (e_gdt E) (e_stack E) (k_cpu k)) (\<lambda>c. Inr (k\<lparr>k_cpu := c\<rparr>))"

definition init_idt :: "('m, 'f, 'd, 's, 'a, 'q, 'c, 'e, 'g) step" where
  "init_idt k = Inr (k\<lparr>k_cpu := (k_cpu k)\<lparr>idt_loaded := True\<rparr>\<rparr>)"

definition on_hw :: "('d \<Rightarrow> 'd outcome) \<Rightarrow> ('m, 'f, 'd, 's, 'a, 'q, 'c, 'e, 'g) step" where
  "on_hw f k = bindR (f (hw (k_irq k))) (\<lambda>d. Inr (k\<lparr>k_irq := (k_irq k)\<lparr>hw := d\<rparr>\<rparr>))"

definition heap_step :: "('m, 'f, 'd, 's, 'a, 'q, 't, 'c, 'e, 'g, 'u) env \<Rightarrow> BootInfo \<Rightarrow>
   ('m, 'f, 'd, 's, 'a, 'q, 'c, 'e, 'g) step" where
  "heap_step E bi k =
     bindR (kernel_init_heap (e_x86 E) (e_mapper E) (e_new_table E) (e_fallback_init E) (e_cr3 E)
       (bi_physical_memory_offset bi) (bi_memory_regions bi) (k_mem k) (k_heap k)) (\<lambda>(km, heap).
       Inr (k\<lparr>k_mem := km, k_heap := heap\<rparr>))"

text \<open>The part of the state that the AML interpreter reaches, taken out and put back.\<close>

definition world_of :: "('m, 'f, 'd, 's, 'a, 'q, 'c, 'e, 'g) kernel \<Rightarrow> ('m, 'd) world" where
  "world_of k = \<lparr>p_km = k_mem k, p_mem = k_ram k, p_dev = hw (k_irq k)\<rparr>"

definition set_world :: "('m, 'd) world \<Rightarrow> ('m, 'f, 'd, 's, 'a, 'q, 'c, 'e, 'g) kernel \<Rightarrow> ('m, 'f, 'd, 's, 'a, 'q, 'c, 'e, 'g) kernel" where
  "set_world p k = k\<lparr>k_mem := p_km p, k_ram := p_mem p, k_irq := (k_irq k)\<lparr>hw := p_dev p\<rparr>\<rparr>"

definition acpi_step :: "('m, 'f, 'd, 's, 'a, 'q, 't, 'c, 'e, 'g, 'u) env \<Rightarrow> BootInfo \<Rightarrow>
   ('m, 'f, 'd, 's, 'a, 'q, 'c, 'e, 'g) step" where
  "acpi_step E bi k =
     bindR (acpi_init (e_x86 E) (e_mapper E) (e_acpi E) (bi_rsdp_addr bi) (k_acpi k) (world_of k)) (\<lambda>(acpi, p).
       Inr ((set_world p k)\<lparr>k_acpi := acpi\<rparr>))"

text \<open>
  \<^verbatim>\<open>apic::init\<close> has no error values, so the legacy controllers are always disabled after it. The one record
  that it draws on the screen comes before it changes anything: a warning if the local APIC is not in a known region.
\<close>

definition region_warning :: "('m, 'f, 'd, 's, 'a, 'q, 't, 'c, 'e, 'g, 'u) env \<Rightarrow> BootInfo \<Rightarrow> nat \<Rightarrow>
   ('m, 'f, 'd, 's, 'a, 'q, 'c, 'e, 'g) step" where
  "region_warning E bi addr k = (case verify_in_correct_region addr (bi_memory_regions bi) of
     Some region \<Rightarrow> Inr k
   | None \<Rightarrow> log_at E ''nocciolo_kernel::interrupts::apic::local'' Warn
       (codes ''APIC address '' @ colored_fmt (red (upper_hex addr)) @ codes '' was not found in any known MemoryRegion!'') k)"

definition apic_step :: "('m, 'f, 'd, 's, 'a, 'q, 't, 'c, 'e, 'g, 'u) env \<Rightarrow> BootInfo \<Rightarrow>
   ('m, 'f, 'd, 's, 'a, 'q, 'c, 'e, 'g) step" where
  "apic_step E bi k =
     bindR (find_local_apic_base (e_x86 E) (pf_machine (e_platform E)) (madt (k_acpi k)) (hw (k_irq k))) (\<lambda>addr.
     bindR (region_warning E bi addr k) (\<lambda>k.
     bindR (apic_init (e_x86 E) (e_mapper E) (pf_machine (e_platform E)) (madt (k_acpi k)) (bi_memory_regions bi)
       (hw (k_irq k)) (k_mem k) (apics (k_irq k))) (\<lambda>(d, km, s).
       Inr (k\<lparr>k_mem := km, k_irq := (k_irq k)\<lparr>hw := pics_disable (pf_pics (e_platform E)) d, apics := s\<rparr>\<rparr>))))"

definition enable_interrupts :: "('m, 'f, 'd, 's, 'a, 'q, 'c, 'e, 'g) step" where
  "enable_interrupts k = Inr (k\<lparr>k_cpu := (k_cpu k)\<lparr>interrupts_enabled := True\<rparr>\<rparr>)"

definition meta_init :: "('m, 'f, 'd, 's, 'a, 'q, 't, 'c, 'e, 'g, 'u) env \<Rightarrow> BootInfo \<Rightarrow>
   ('m, 'f, 'd, 's, 'a, 'q, 'c, 'e, 'g) step" where
  "meta_init E bi k =
     bindR (case minimal_parse (e_elf E) (get_elf_slice (bi_image bi) (e_image E)) of
        Inl e \<Rightarrow> log_at E ''nocciolo_kernel::meta::symbols'' Warn (codes ''Failed to parse ELF: '' @ codes e) k
      | Inr data \<Rightarrow> Inr k) (\<lambda>k.
       Inr (k\<lparr>k_elf := symbols_init (e_elf E) (bi_image bi) (e_image E) (k_elf k)\<rparr>))"

definition device_init :: "('m, 'f, 'd, 's, 'a, 'q, 't, 'c, 'e, 'g, 'u) env \<Rightarrow>
   ('m, 'f, 'd, 's, 'a, 'q, 'c, 'e, 'g) step" where
  "device_init E k =
     (let (reports, d) = pci_init (pf_machine (e_platform E)) (hw (k_irq k));
          lines = concat (map (e_report_lines E) reports) @
            [codes ''Found '' @ decimal (length reports) @ codes '' PCI devices'']
      in forR (\<lambda>line. log_at E ''nocciolo_kernel::device::pci'' Info line) lines
           (k\<lparr>k_irq := (k_irq k)\<lparr>hw := d\<rparr>\<rparr>))"

section \<open>The sequence\<close>

text \<open>\<^verbatim>\<open>init\<close>, up to and from the point where interrupts are enabled.\<close>

definition steps_before_interrupts :: "('m, 'f, 'd, 's, 'a, 'q, 't, 'c, 'e, 'g, 'u) env \<Rightarrow> BootInfo \<Rightarrow>
   ('m, 'f, 'd, 's, 'a, 'q, 'c, 'e, 'g) step list" where
  "steps_before_interrupts E bi = [
     logging_init,
     set_framebuffer bi,
     log_main E Info ''----<[ nocciolo ]>----'',
     gdt_step E,
     init_idt,
     log_main E Trace ''Enabling Interrupts'',
     log_main E Trace ''Initializing the PIC'',
     on_hw (\<lambda>d. Inr (pics_initialize (pf_pics (e_platform E)) d)),
     log_main E Trace ''Initializing PIT'',
     on_hw (pit_init (pf_machine (e_platform E))),
     log_main E Trace ''Initializing Heap'',
     heap_step E bi,
     log_main E Trace ''Initializing ACPI'',
     acpi_step E bi,
     apic_step E bi]"

definition steps_after_interrupts :: "('m, 'f, 'd, 's, 'a, 'q, 't, 'c, 'e, 'g, 'u) env \<Rightarrow> BootInfo \<Rightarrow>
   ('m, 'f, 'd, 's, 'a, 'q, 'c, 'e, 'g) step list" where
  "steps_after_interrupts E bi = [
     log_main E Trace ''Interrupts enabled'',
     log_main E Trace ''Initializing Kernel Runtime'',
     meta_init E bi,
     log_main E Trace ''Initializing Devices'',
     device_init E,
     log_main E Info ''Finished Initializing'']"

definition boot_steps :: "('m, 'f, 'd, 's, 'a, 'q, 't, 'c, 'e, 'g, 'u) env \<Rightarrow> BootInfo \<Rightarrow>
   ('m, 'f, 'd, 's, 'a, 'q, 'c, 'e, 'g) step list" where
  "boot_steps E bi = steps_before_interrupts E bi @ [enable_interrupts] @ steps_after_interrupts E bi"

definition run_steps :: "('s \<Rightarrow> 's outcome) list \<Rightarrow> 's \<Rightarrow> 's outcome" where
  "run_steps steps k = forR (\<lambda>step. step) steps k"

definition kernel_init :: "('m, 'f, 'd, 's, 'a, 'q, 't, 'c, 'e, 'g, 'u) env \<Rightarrow> BootInfo \<Rightarrow>
   ('m, 'f, 'd, 's, 'a, 'q, 'c, 'e, 'g) step" where
  "kernel_init E bi k = run_steps (boot_steps E bi) k"

section \<open>The rest of \<^verbatim>\<open>kernel_main\<close>\<close>

text \<open>
  Interrupts around one sleep of the countdown: those before it, and those during its turns. One second is
  1000 milliseconds.
\<close>

record interval =
  before_sleep :: "u8 list"
  during_sleep :: "nat \<Rightarrow> arrivals"

text \<open>Draw the records that interrupt handlers logged since the last time.\<close>

definition draw_warnings :: "('m, 'f, 'd, 's, 'a, 'q, 't, 'c, 'e, 'g, 'u) env \<Rightarrow> ('m, 'f, 'd, 's, 'a, 'q, 'c, 'e, 'g) step" where
  "draw_warnings E k =
     bindR (if k_logger k then forR (logger_log (e_font E) (e_level_str E)) (irq_log (k_irq k)) (k_out k) else Inr (k_out k)) (\<lambda>out.
       Inr (k\<lparr>k_out := out, k_irq := (k_irq k)\<lparr>irq_log := []\<rparr>\<rparr>))"

definition countdown_step :: "('m, 'f, 'd, 's, 'a, 'q, 't, 'c, 'e, 'g, 'u) env \<Rightarrow> (nat \<Rightarrow> interval) \<Rightarrow> nat \<Rightarrow>
   ('m, 'f, 'd, 's, 'a, 'q, 'c, 'e, 'g) step" where
  "countdown_step E iv i k =
     bindR (log_at E ''nocciolo_kernel'' Info (codes ''See you in '' @ decimal i @ codes '' seconds!'') k) (\<lambda>k.
     bindR (deliver (e_platform E) (e_frame_texts E) (before_sleep (iv i)) (k_irq k)) (\<lambda>st.
     bindR (draw_warnings E (k\<lparr>k_irq := st\<rparr>)) (\<lambda>k.
     bindR (sleep (e_platform E) (e_frame_texts E) 1000 (during_sleep (iv i)) (k_irq k)) (\<lambda>st.
       draw_warnings E (k\<lparr>k_irq := st\<rparr>)))))"

definition countdown :: "('m, 'f, 'd, 's, 'a, 'q, 't, 'c, 'e, 'g, 'u) env \<Rightarrow> (nat \<Rightarrow> interval) \<Rightarrow>
   ('m, 'f, 'd, 's, 'a, 'q, 'c, 'e, 'g) step" where
  "countdown E iv k = forR (countdown_step E iv) (rev [0..<10]) k"

text \<open>
  \<^verbatim>\<open>System::request_shutdown\<close> with its records: one before anything is done, and one if the way through ACPI
  has come back.
\<close>

fun hypervisor_debug :: "HypervisorKind option \<Rightarrow> string" where
  "hypervisor_debug None = ''None''"
| "hypervisor_debug (Some Bochs) = ''Some(Bochs)''"
| "hypervisor_debug (Some QemuOld) = ''Some(QemuOld)''"
| "hypervisor_debug (Some QemuNew) = ''Some(QemuNew)''"
| "hypervisor_debug (Some VMWare) = ''Some(VMWare)''"
| "hypervisor_debug (Some VirtualBox) = ''Some(VirtualBox)''"

definition has_port :: "HypervisorKind option \<Rightarrow> bool" where
  "has_port h \<longleftrightarrow> h = Some Bochs \<or> h = Some QemuOld \<or> h = Some VirtualBox"

definition shutdown_step :: "('m, 'f, 'd, 's, 'a, 'q, 't, 'c, 'e, 'g, 'u) env \<Rightarrow> ('m, 'f, 'd, 's, 'a, 'q, 'c, 'e, 'g) step" where
  "shutdown_step E k =
     (let hypervisor = detect_hypervisor (e_brand_string E)
      in bindR (log_at E ''nocciolo_kernel::meta::system'' Info
           (codes ''Requesting shutdown (hypervisor='' @ codes (hypervisor_debug hypervisor) @ codes '')'') k) (\<lambda>k.
         bindR (request_shutdown (pf_machine (e_platform E)) (e_acpi E) (e_brand_string E) (k_acpi k) (world_of k)) (\<lambda>(acpi, p).
         let k = (set_world p k)\<lparr>k_acpi := acpi\<rparr>
         in if has_port hypervisor then Inr k
            else log_at E ''nocciolo_kernel::meta::system'' Error (codes ''We failed to sleep since you can see this'') k)))"

definition spawn_keyboard :: "('m, 'f, 'd, 's, 'a, 'q, 't, 'c, 'e, 'g, 'u) env \<Rightarrow> ('m, 'f, 'd, 's, 'a, 'q, 'c, 'e, 'g) kernel \<Rightarrow>
   (('m, 'f, 'd, 's, 'a, 'q, 'c, 'e, 'g) kernel \<times> ('u, 'q) Executor) outcome" where
  "spawn_keyboard E k =
     (let (task, next_id) = task_new (e_print_keypresses E) (k_next_id k);
          A = pf_task_queue (e_platform E)
      in bindR (spawn A task (executor_new A)) (\<lambda>executor. Inr (k\<lparr>k_next_id := next_id\<rparr>, executor)))"

definition after_init :: "('m, 'f, 'd, 's, 'a, 'q, 't, 'c, 'e, 'g, 'u) env \<Rightarrow> (nat \<Rightarrow> interval) \<Rightarrow>
   ('m, 'f, 'd, 's, 'a, 'q, 'c, 'e, 'g) kernel \<Rightarrow> (('m, 'f, 'd, 's, 'a, 'q, 'c, 'e, 'g) kernel \<times> ('u, 'q) Executor) outcome" where
  "after_init E iv k =
     bindR (countdown E iv k) (\<lambda>k.
     bindR (shutdown_step E k) (spawn_keyboard E))"

text \<open>\<^verbatim>\<open>kernel_main\<close> as far as the call of \<^verbatim>\<open>executor.run()\<close>, which never returns.\<close>

definition kernel_main :: "('m, 'f, 'd, 's, 'a, 'q, 't, 'c, 'e, 'g, 'u) env \<Rightarrow> BootInfo \<Rightarrow> (nat \<Rightarrow> interval) \<Rightarrow>
   ('m, 'f, 'd, 's, 'a, 'q, 'c, 'e, 'g) kernel \<Rightarrow> (('m, 'f, 'd, 's, 'a, 'q, 'c, 'e, 'g) kernel \<times> ('u, 'q) Executor) outcome" where
  "kernel_main E bi iv k =
     (let k = k\<lparr>k_out := serial_println (codes ''----<[ nocciolo ]>----'') (k_out k)\<rparr>
      in bindR (kernel_init E bi k) (\<lambda>k.
         after_init E iv k))"

section \<open>Ends\<close>

datatype QemuExitCode = Qemu_Success | Qemu_Failed

fun qemu_exit_value :: "QemuExitCode \<Rightarrow> u32" where
  "qemu_exit_value Qemu_Success = 0x10"
| "qemu_exit_value Qemu_Failed = 0x11"

definition exit_qemu :: "'d machine \<Rightarrow> QemuExitCode \<Rightarrow> 'd \<Rightarrow> 'd" where
  "exit_qemu D exit_code d = out32 D d 0xf4 (qemu_exit_value exit_code)"

text \<open>The panic handler: a panic while it logs is a panic again.\<close>

definition panic_handler :: "('m, 'f, 'd, 's, 'a, 'q, 't, 'c, 'e, 'g, 'u) env \<Rightarrow> nat list \<Rightarrow> ('m, 'f, 'd, 's, 'a, 'q, 'c, 'e, 'g) step" where
  "panic_handler E info k =
     bindR (log_at E ''nocciolo_kernel'' Error (codes ''[PANIC] '' @ info) k) (\<lambda>k. hlt_loop)"

text \<open>What the kernel asks of the boot loader, starting from the loader's own defaults, of which only the fields that are set are kept.\<close>

datatype Mapping = Dynamic | FixedAddress nat

record BootloaderConfig =
  map_physical_memory :: "Mapping option"
  kernel_stack_size :: nat

definition BOOTLOADER_CONFIG :: "BootloaderConfig \<Rightarrow> BootloaderConfig" where
  "BOOTLOADER_CONFIG new_default =
     (let config = new_default\<lparr>map_physical_memory := Some Dynamic\<rparr> in config\<lparr>kernel_stack_size := 1024 * 1024\<rparr>)"

text \<open>\<^verbatim>\<open>println!\<close> on the screen, the runner of the tests, and the function that crashes on purpose by a write through a null pointer.\<close>

definition print_line :: "('m, 'f, 'd, 's, 'a, 'q, 't, 'c, 'e, 'g, 'u) env \<Rightarrow> nat list \<Rightarrow> ('m, 'f, 'd, 's, 'a, 'q, 'c, 'e, 'g) step" where
  "print_line E text k = bindR (vga_println (e_font E) text (k_out k)) (\<lambda>out. Inr (k\<lparr>k_out := out\<rparr>))"

definition test_runner :: "('m, 'f, 'd, 's, 'a, 'q, 't, 'c, 'e, 'g, 'u) env \<Rightarrow> ('m, 'f, 'd, 's, 'a, 'q, 'c, 'e, 'g) step list \<Rightarrow>
   ('m, 'f, 'd, 's, 'a, 'q, 'c, 'e, 'g) step" where
  "test_runner E tests k =
     bindR (print_line E (codes ''Running '' @ decimal (length tests) @ codes '' tests'') k) (forR (\<lambda>test. test) tests)"

definition crash_test :: "('m, 'f, 'd, 's, 'a, 'q, 't, 'c, 'e, 'g, 'u) env \<Rightarrow> ('m, 'f, 'd, 's, 'a, 'q, 'c, 'e, 'g) step" where
  "crash_test E k =
     bindR (print_line E (codes ''Crashing...'') k) (\<lambda>k.
     bindR (Inl Undefined_Behaviour) (\<lambda>k.
       print_line E (codes ''Crashed!'') k))"

definition eh_personality :: "'s outcome" where
  "eh_personality = Inl Diverges"

definition alloc_error_handler :: "'s outcome" where
  "alloc_error_handler = Inl (Panicked ''allocation error'')"

section \<open>What the steps keep\<close>

lemma run_steps_append: "run_steps (xs @ ys) k = bindR (run_steps xs k) (run_steps ys)"
  by (simp add: run_steps_def forR_append) (simp add: run_steps_def [abs_def])

lemma run_steps_Cons [simp]: "run_steps (f # fs) k = bindR (f k) (run_steps fs)"
  by (simp add: run_steps_def) (simp add: run_steps_def [abs_def])

lemma run_steps_keeps:
  assumes "run_steps fs k = Inr k'" and "\<forall>f \<in> set fs. \<forall>k k'. f k = Inr k' \<longrightarrow> P k \<longrightarrow> P k'" and "P k"
  shows "P k'"
  using assms by (induction fs arbitrary: k) (auto simp: run_steps_def bindR_Inr_iff)

text \<open>A step that establishes a property which the later ones keep.\<close>

lemma run_steps_through:
  assumes "run_steps fs k = Inr k'" and "n < length fs" and "\<And>k k'. (fs ! n) k = Inr k' \<Longrightarrow> P k'"
    and "\<forall>f \<in> set (drop (Suc n) fs). \<forall>k k'. f k = Inr k' \<longrightarrow> P k \<longrightarrow> P k'"
  shows "P k'"
proof -
  have "run_steps (take n fs @ [fs ! n] @ drop (Suc n) fs) k = Inr k'"
    using assms(1) id_take_nth_drop [OF assms(2)] by simp
  then obtain k1 k2 where "(fs ! n) k1 = Inr k2" "run_steps (drop (Suc n) fs) k2 = Inr k'"
    by (auto simp: run_steps_append bindR_Inr_iff)
  with assms(3,4) show ?thesis by (blast intro: run_steps_keeps)
qed

lemma log_at_keeps:
  assumes "log_at E t l a k = Inr k'"
  shows "k_cpu k' = k_cpu k \<and> k_irq k' = k_irq k"
  using assms by (auto simp: log_at_def bindR_Inr_iff split: if_splits)

text \<open>Room on the screen for the records with so many characters.\<close>

definition can_log :: "('m, 'f, 'd, 's, 'a, 'q, 't, 'c, 'e, 'g, 'u) env \<Rightarrow> nat \<Rightarrow> ('m, 'f, 'd, 's, 'a, 'q, 'c, 'e, 'g) kernel \<Rightarrow> bool" where
  "can_log E n k \<longleftrightarrow> k_logger k \<and> writer_ok (e_font E) (screen (k_out k)) \<and> y_pos (screen (k_out k)) + 18 * n < 2 ^ 63"

definition log_docs :: "('m, 'f, 'd, 's, 'a, 'q, 't, 'c, 'e, 'g, 'u) env \<Rightarrow> bool" where
  "log_docs E \<longleftrightarrow> font_docs (e_font E) \<and> (\<forall>l. length (e_level_str E l) \<le> 5)"

lemma log_line_length:
  assumes "length (level_str (rec_level r)) \<le> 5"
  shows "length (log_line level_str r) < 40 + length (rec_target r) + length (rec_args r)"
  using assms
  by (cases "rec_level r") (simp_all add: log_line_def colored_fmt_def color_fmt_def with_color_def codes_def RESET_def)

lemma log_at_ok:
  assumes "log_docs E" and "can_log E (40 + length target + length args + n) k"
  shows "\<exists>out. log_at E target level args k = Inr (k\<lparr>k_out := out\<rparr>) \<and> can_log E n (k\<lparr>k_out := out\<rparr>)"
proof -
  let ?r = "\<lparr>rec_target = codes target, rec_level = level, rec_args = args\<rparr>"
  have "length (log_line (e_level_str E) ?r) + 1 \<le> 40 + length target + length args"
    using log_line_length [of "e_level_str E" ?r] assms(1) by (simp add: log_docs_def codes_def)
  with logger_log_ok [of "e_font E" "k_out k" "e_level_str E" ?r] assms
  show ?thesis by (fastforce simp: log_at_def can_log_def log_docs_def)
qed

lemma device_init_keeps:
  assumes "device_init E k = Inr k'"
  shows "k_cpu k' = k_cpu k \<and> apics (k_irq k') = apics (k_irq k)"
proof -
  obtain rs d where pci: "pci_init (pf_machine (e_platform E)) (hw (k_irq k)) = (rs, d)" by (rule prod.exhaust)
  let ?f = "\<lambda>k. (k_cpu k, apics (k_irq k))"
  from assms have "?f k' = ?f (k\<lparr>k_irq := (k_irq k)\<lparr>hw := d\<rparr>\<rparr>)"
    unfolding device_init_def pci Let_def prod.case
    by (rule forR_keeps [rotated]) (auto dest: log_at_keeps)
  then show ?thesis by simp
qed

lemma cpu_steps:
  "gdt_step E k = Inr k' \<Longrightarrow> task_reg (k_cpu k') \<noteq> None \<and> idt_loaded (k_cpu k') = idt_loaded (k_cpu k) \<and>
     interrupts_enabled (k_cpu k') = interrupts_enabled (k_cpu k) \<and> k_irq k' = k_irq k"
  "init_idt k = Inr k' \<Longrightarrow> idt_loaded (k_cpu k') \<and> task_reg (k_cpu k') = task_reg (k_cpu k) \<and>
     interrupts_enabled (k_cpu k') = interrupts_enabled (k_cpu k) \<and> k_irq k' = k_irq k"
  "enable_interrupts k = Inr k' \<Longrightarrow> idt_loaded (k_cpu k') = idt_loaded (k_cpu k) \<and>
     task_reg (k_cpu k') = task_reg (k_cpu k) \<and> k_irq k' = k_irq k"
  by (auto simp: gdt_step_def gdt_init_def init_idt_def enable_interrupts_def bindR_Inr_iff)

lemma region_warning_keeps:
  "region_warning E bi addr k = Inr k' \<Longrightarrow> k_cpu k' = k_cpu k \<and> k_irq k' = k_irq k"
  by (auto simp: region_warning_def dest: log_at_keeps split: option.splits)

lemma meta_init_keeps:
  "meta_init E bi k = Inr k' \<Longrightarrow> k_cpu k' = k_cpu k \<and> k_irq k' = k_irq k"
  by (auto simp: meta_init_def bindR_Inr_iff dest: log_at_keeps split: sum.splits)

lemma other_steps:
  "logging_init k = Inr k' \<Longrightarrow> k_cpu k' = k_cpu k \<and> k_irq k' = k_irq k"
  "set_framebuffer bi k = Inr k' \<Longrightarrow> k_cpu k' = k_cpu k \<and> k_irq k' = k_irq k"
  "on_hw f k = Inr k' \<Longrightarrow> k_cpu k' = k_cpu k"
  "heap_step E bi k = Inr k' \<Longrightarrow> k_cpu k' = k_cpu k \<and> k_irq k' = k_irq k"
  "acpi_step E bi k = Inr k' \<Longrightarrow> k_cpu k' = k_cpu k"
  by (auto simp: logging_init_def set_framebuffer_def on_hw_def heap_step_def acpi_step_def set_world_def
      bindR_Inr_iff split: if_splits option.splits)

lemma apic_step_publishes:
  assumes "apic_step E bi k = Inr k'"
  shows "k_cpu k' = k_cpu k \<and> io_instance (apics (k_irq k')) \<noteq> None \<and> local_instance (apics (k_irq k')) \<noteq> None"
  using assms by (auto simp: apic_step_def apic_init_def io_publish_def local_publish_def bindR_Inr_iff dest: region_warning_keeps)

section \<open>Properties\<close>

definition handlers_ready :: "('m, 'f, 'd, 's, 'a, 'q, 'c, 'e, 'g) kernel \<Rightarrow> bool" where
  "handlers_ready k \<longleftrightarrow> idt_loaded (k_cpu k) \<and> task_reg (k_cpu k) \<noteq> None \<and>
     io_instance (apics (k_irq k)) \<noteq> None \<and> local_instance (apics (k_irq k)) \<noteq> None"

lemmas step_facts = log_at_keeps device_init_keeps cpu_steps other_steps meta_init_keeps apic_step_publishes

lemma before_interrupts_ready:
  assumes "run_steps (steps_before_interrupts E bi) k = Inr k'"
  shows "handlers_ready k'"
proof -
  note through = run_steps_through [OF assms]
  have "task_reg (k_cpu k') \<noteq> None"
    by (rule through [of 3]) (auto simp: steps_before_interrupts_def dest: step_facts)
  moreover have "idt_loaded (k_cpu k')"
    by (rule through [of 4]) (auto simp: steps_before_interrupts_def dest: step_facts)
  moreover have "io_instance (apics (k_irq k')) \<noteq> None \<and> local_instance (apics (k_irq k')) \<noteq> None"
    by (rule through [of 14]) (auto simp: steps_before_interrupts_def dest: step_facts)
  ultimately show ?thesis by (simp add: handlers_ready_def)
qed



text \<open>No key is pressed around a sleep.\<close>

definition no_keys :: "interval \<Rightarrow> bool" where
  "no_keys iv \<longleftrightarrow> 33 \<notin> set (before_sleep iv) \<and> (\<forall>n. 33 \<notin> set (in_lock (during_sleep iv n)) \<and> 33 \<notin> set (in_halt (during_sleep iv n)))"

text \<open>The countdown over some of its seconds.\<close>

lemma countdown_list:
  assumes "log_docs E" and "\<And>i. i \<in> set is \<Longrightarrow> i < 10"
    and ord: "\<And>i. i \<in> set is \<Longrightarrow> orderly (e_platform E) (e_frame_texts E) (during_sleep (iv i))"
    and har: "\<And>i. i \<in> set is \<Longrightarrow> \<forall>v \<in> set (before_sleep (iv i)). v \<noteq> 32 \<longrightarrow> harmless (e_platform E) (e_frame_texts E) v"
    and keys: "\<And>i. i \<in> set is \<Longrightarrow> no_keys (iv i)"
    and "can_log E (80 * length is + n) k" and "\<not> timer_locked (k_irq k)"
    and "timer (k_irq k) + 1000 * length is + sum_list (map (\<lambda>i. count_list (before_sleep (iv i)) 32) is) < 2 ^ 64"
    and "irq_log (k_irq k) = []"
  shows "\<exists>k'. forR (countdown_step E iv) is k = Inr k' \<and>
    timer (k_irq k') = timer (k_irq k) + 1000 * length is + sum_list (map (\<lambda>i. count_list (before_sleep (iv i)) 32) is) \<and>
    k_next_id k' = k_next_id k \<and> k_acpi k' = k_acpi k \<and> \<not> timer_locked (k_irq k') \<and> can_log E n k' \<and>
    irq_log (k_irq k') = [] \<and> kbd_state (k_irq k') = kbd_state (k_irq k)"
  using assms(2-)
proof (induction "is" arbitrary: k)
  case (Cons i "is")
  let ?c = "count_list (before_sleep (iv i)) 32" and ?args = "codes ''See you in '' @ decimal i @ codes '' seconds!''"
  have "length ?args = 21" using Cons.prems(1) [of i] by (simp add: codes_def digits.simps)
  moreover have "can_log E m k \<Longrightarrow> j \<le> m \<Longrightarrow> can_log E j k" for m j by (auto simp: can_log_def)
  ultimately obtain out where out: "log_at E ''nocciolo_kernel'' Info ?args k = Inr (k\<lparr>k_out := out\<rparr>)"
    "can_log E (80 * length is + n) (k\<lparr>k_out := out\<rparr>)"
    using log_at_ok [OF assms(1), of "''nocciolo_kernel''" ?args "80 * length is + n" k Info] Cons.prems(5) by auto
  obtain st1 where st1: "deliver (e_platform E) (e_frame_texts E) (before_sleep (iv i)) (k_irq k) = Inr st1"
    "timer st1 = timer (k_irq k) + ?c" "\<not> timer_locked st1"
    using deliver_ok [of "before_sleep (iv i)" "e_platform E" "e_frame_texts E" "k_irq k"] Cons.prems(3,6,7) by auto
  have quiet: "no_keys (iv i)" using Cons.prems(4) by simp
  have q1: "kbd_state st1 = kbd_state (k_irq k) \<and> irq_log st1 = []"
    using deliver_no_key [OF st1(1)] quiet Cons.prems(8) by (simp add: no_keys_def)
  obtain st2 where st2: "sleep (e_platform E) (e_frame_texts E) 1000 (during_sleep (iv i)) st1 = Inr st2"
    "timer st2 = timer st1 + 1000" "\<not> timer_locked st2"
    using sleep_ok [of "e_platform E" "e_frame_texts E" "during_sleep (iv i)" st1 1000] Cons.prems(2,7) st1(2,3) by auto
  have q2: "kbd_state st2 = kbd_state (k_irq k) \<and> irq_log st2 = []"
    using sleep_no_key [OF st2(1)] quiet q1 by (simp add: no_keys_def)
  have e: "st1\<lparr>irq_log := []\<rparr> = st1" "st2\<lparr>irq_log := []\<rparr> = st2" using q1 q2 by (cases st1, simp, cases st2, simp)
  let ?k = "k\<lparr>k_out := out, k_irq := st2\<rparr>"
  have step: "countdown_step E iv i k = Inr ?k"
    using q1 q2 by (simp add: countdown_step_def out(1) st1(1) st2(1) draw_warnings_def e)
  have "\<exists>k'. forR (countdown_step E iv) is ?k = Inr k' \<and>
    timer (k_irq k') = timer (k_irq ?k) + 1000 * length is + sum_list (map (\<lambda>i. count_list (before_sleep (iv i)) 32) is) \<and>
    k_next_id k' = k_next_id ?k \<and> k_acpi k' = k_acpi ?k \<and> \<not> timer_locked (k_irq k') \<and> can_log E n k' \<and>
    irq_log (k_irq k') = [] \<and> kbd_state (k_irq k') = kbd_state (k_irq ?k)"
    by (intro Cons.IH) (use Cons.prems(1-4,7) out(2) st1(2) st2(2,3) q2 in \<open>auto simp: can_log_def\<close>)
  then show ?case using step st1(2) st2(2) q2 by auto
qed auto

lemma after_init_runs:
  assumes "log_docs E" and "can_log E 1000 k"
    and "\<forall>i < 10. orderly (e_platform E) (e_frame_texts E) (during_sleep (iv i))"
    and "\<forall>i < 10. \<forall>v \<in> set (before_sleep (iv i)). v \<noteq> 32 \<longrightarrow> harmless (e_platform E) (e_frame_texts E) v"
    and "\<not> timer_locked (k_irq k)"
    and "timer (k_irq k) + 10000 + (\<Sum>i\<leftarrow>[0..<10]. count_list (before_sleep (iv i)) 32) < 2 ^ 64"
    and "aq_docs (pf_task_queue (e_platform E)) items cap" and "e_brand_string E = Some ''TCGTCGTCGTCG''"
    and "\<forall>i < 10. no_keys (iv i)" and "irq_log (k_irq k) = []"
  shows "\<exists>k1 k' ex. countdown E iv k = Inr k1 \<and>
    timer (k_irq k1) = timer (k_irq k) + 10000 + (\<Sum>i\<leftarrow>[0..<10]. count_list (before_sleep (iv i)) 32) \<and>
    after_init E iv k = Inr (k', ex) \<and> hw (k_irq k') = out16 (pf_machine (e_platform E)) (hw (k_irq k1)) 0x604 0x2000 \<and>
    items (task_queue ex) = [TaskId (k_next_id k)] \<and>
    tasks ex = [TaskId (k_next_id k) \<mapsto> \<lparr>task_id = TaskId (k_next_id k), future = e_print_keypresses E\<rparr>] \<and>
    cap (task_queue ex) = 100 \<and> waker_cache ex = Map.empty \<and> kbd_state (k_irq k') = kbd_state (k_irq k) \<and> irq_log (k_irq k') = [] \<and>
    can_log E 0 k'"
proof -
  let ?A = "pf_task_queue (e_platform E)" and ?i = "TaskId (k_next_id k)"
  have "sum_list (map f (rev [0..<10])) = sum_list (map f [0..<10])" for f :: "nat \<Rightarrow> nat"
    by (simp add: rev_map [symmetric])
  with countdown_list [OF assms(1), of "rev [0..<10]" iv 200 k] assms(2-6,9,10)
  obtain k1 where k1: "countdown E iv k = Inr k1"
    "timer (k_irq k1) = timer (k_irq k) + 10000 + (\<Sum>i\<leftarrow>[0..<10]. count_list (before_sleep (iv i)) 32)"
    "k_next_id k1 = k_next_id k" "k_acpi k1 = k_acpi k" "can_log E 200 k1"
    "irq_log (k_irq k1) = []" "kbd_state (k_irq k1) = kbd_state (k_irq k)"
    unfolding countdown_def by (auto simp: mult.commute)
  have hyp: "detect_hypervisor (e_brand_string E) = Some QemuOld" using assms(8) by (simp add: detect_hypervisor_def)
  have "can_log E (40 + length ''nocciolo_kernel::meta::system'' +
      length (codes ''Requesting shutdown (hypervisor='' @ codes ''Some(QemuOld)'' @ codes '')'') + 0) k1"
    using k1(5) by (simp add: can_log_def codes_def)
  from log_at_ok [OF assms(1) this, of Info] obtain out where out: "log_at E ''nocciolo_kernel::meta::system'' Info
      (codes ''Requesting shutdown (hypervisor='' @ codes ''Some(QemuOld)'' @ codes '')'') k1 = Inr (k1\<lparr>k_out := out\<rparr>)"
    "can_log E 0 (k1\<lparr>k_out := out\<rparr>)" by blast
  note new = aq_newD [OF assms(7), of 100, simplified]
  obtain q where q: "aq_push ?A (aq_new ?A 100) ?i = Some q" "items q = items (aq_new ?A 100) @ [?i]" "cap q = 100"
    by (rule aq_pushE [OF assms(7), of "aq_new ?A 100" ?i]) (use new in auto)
  show ?thesis
    using k1 q new out
    by (simp add: after_init_def shutdown_step_def request_shutdown_def hyp has_port_def spawn_keyboard_def
        task_new_def task_id_new_def spawn_def executor_new_def set_world_def world_of_def can_log_def Let_def)
qed


section \<open>Instances\<close>

definition sim_env ::
  "(nat \<rightharpoonup> nat \<times> PageTableFlag set, unit, u8 \<times> (u8 \<Rightarrow> u32), nat \<times> u8 list, TaskWaker option, nat \<times> TaskId list, unit,
    string list, Symbol list \<times> (nat \<Rightarrow> string + string), nat \<times> (u16 \<rightharpoonup> Descriptor), unit) env" where
  "sim_env = \<lparr>
     e_x86 = x86_std, e_mapper = map_mapper, e_new_table = (\<lambda>_ _. Map.empty), e_fallback_init = (\<lambda>_ _ _. Inr ()),
     e_cr3 = 0x1000, e_gdt = table_gdt, e_stack = 0x9000, e_acpi = sim_crates True (Inl ''no dsdt''), e_elf = sim_elf,
     e_image = (\<lambda>_. 0), e_platform = sim_platform, e_frame_texts = no_texts, e_font = block_font,
     e_level_str = level_names, e_report_lines = (\<lambda>_. []),
     e_brand_string = Some ''TCGTCGTCGTCG'', e_print_keypresses = ()\<rparr>"

definition sim_kernel ::
  "Writer \<Rightarrow> bool \<Rightarrow> (nat \<rightharpoonup> nat \<times> PageTableFlag set, unit, u8 \<times> (u8 \<Rightarrow> u32), nat \<times> u8 list, TaskWaker option,
    nat \<times> TaskId list, string list, Symbol list \<times> (nat \<Rightarrow> string + string), nat \<times> (u16 \<rightharpoonup> Descriptor)) kernel" where
  "sim_kernel w logging = \<lparr>
     k_logger = logging, k_out = \<lparr>serial_out = [], screen = w\<rparr>,
     k_cpu = \<lparr>gdtr = None, cs_reg = 0, task_reg = None, idt_loaded = False, interrupts_enabled = False\<rparr>,
     k_irq = sim_irq_state, k_mem = no_memory, k_ram = (\<lambda>_. 0), k_heap = fsb_new () Map.empty, k_acpi = no_acpi,
     k_elf = None, k_next_id = 0\<rparr>"

definition sim_boot_info :: BootInfo where
  "sim_boot_info = \<lparr>bi_framebuffer = None, bi_physical_memory_offset = Some 0, bi_memory_regions = small_map,
     bi_rsdp_addr = None, bi_image = \<lparr>kernel_image_offset = 0, kernel_len = 0\<rparr>\<rparr>"

definition steady :: "nat \<Rightarrow> interval" where
  "steady i = \<lparr>before_sleep = [40], during_sleep = (\<lambda>n. \<lparr>in_lock = [], in_halt = (if even n then [40, 32] else [40])\<rparr>)\<rparr>"



end
