(* ===== verification/Acpi_Tables.thy ===== *)
theory Acpi_Tables
  imports Acpi
begin

text \<open>
  \<^verbatim>\<open>acpi::init\<close> on a machine whose tables are in order: what it needs of the crates \<^verbatim>\<open>acpi\<close> and \<^verbatim>\<open>aml\<close>, which call
  back into the kernel to map their tables, and how many pages it uses.
\<close>

section \<open>Computations that use pages\<close>

text \<open>A world with the next \<open>r\<close> pages from \<open>v\<close> on free, and frames for the page tables of each.\<close>

definition world_room :: "'m mapper_ops \<Rightarrow> nat \<Rightarrow> nat \<Rightarrow> 'm \<Rightarrow> ('m, 'd) world \<Rightarrow> bool" where
  "world_room M v r m p \<longleftrightarrow> km_mapper (p_km p) = Some m \<and> page_addr (km_pages (p_km p)) = v \<and>
     0 < v \<and> 4096 dvd v \<and> v + 4096 * (r + 1) < 2 ^ 47 \<and> (\<forall>i < r. free_page M m (v + 4096 * i)) \<and>
     (\<exists>fa. km_frames (p_km p) = Some fa \<and> 3 * r \<le> frames_left fa)"

text \<open>
  A computation that takes exactly \<open>c\<close> pages from the page allocator, keeps the mappings below them and the
  property \<open>G\<close> of the devices, and has a result with the property \<open>res\<close>.
\<close>

definition uses :: "'m mapper_ops \<Rightarrow> ('d \<Rightarrow> bool) \<Rightarrow> nat \<Rightarrow> (('m, 'd) world \<Rightarrow> ('r \<times> ('m, 'd) world) outcome) \<Rightarrow> ('r \<Rightarrow> bool) \<Rightarrow> bool" where
  "uses M G c f res \<longleftrightarrow> (\<forall>v r m p. world_room M v (c + r) m p \<and> G (p_dev p) \<longrightarrow>
     (\<exists>x m' p'. f p = Inr (x, p') \<and> res x \<and> world_room M (v + 4096 * c) r m' p' \<and> G (p_dev p') \<and>
        (\<forall>q < v. mapped M m q \<noteq> None \<longrightarrow> mapped M m' q = mapped M m q)))"

lemma usesE:
  assumes "uses M G c f res" and "world_room M v (c + r) m p" and "G (p_dev p)"
  obtains x m' p' where "f p = Inr (x, p')" and "res x" and "world_room M (v + 4096 * c) r m' p'" and "G (p_dev p')"
    and "\<forall>q < v. mapped M m q \<noteq> None \<longrightarrow> mapped M m' q = mapped M m q"
  using assms unfolding uses_def by blast

lemma uses_bind:
  assumes "uses M G c f res" and "\<And>x. res x \<Longrightarrow> uses M G e (g x) res'"
  shows "uses M G (c + e) (\<lambda>p. bindR (f p) (\<lambda>(x, p). g x p)) res'"
  unfolding uses_def
proof (intro allI impI, elim conjE)
  fix v r m p assume w: "world_room M v (c + e + r) m p" "G (p_dev p)"
  from w(1) have "world_room M v (c + (e + r)) m p" by (simp only: add.assoc)
  from usesE [OF assms(1) this w(2)] obtain x m1 p1 where 1: "f p = Inr (x, p1)" "res x" "world_room M (v + 4096 * c) (e + r) m1 p1" "G (p_dev p1)"
    "\<forall>q < v. mapped M m q \<noteq> None \<longrightarrow> mapped M m1 q = mapped M m q" .
  from usesE [OF assms(2) [OF 1(2)] 1(3,4)] obtain y m2 p2 where "g x p1 = Inr (y, p2)" "res' y"
    "world_room M (v + 4096 * c + 4096 * e) r m2 p2" "G (p_dev p2)"
    "\<forall>q < v + 4096 * c. mapped M m1 q \<noteq> None \<longrightarrow> mapped M m2 q = mapped M m1 q" .
  with 1 show "\<exists>x m' p'. bindR (f p) (\<lambda>(x, p). g x p) = Inr (x, p') \<and> res' x \<and> world_room M (v + 4096 * (c + e)) r m' p' \<and>
      G (p_dev p') \<and> (\<forall>q < v. mapped M m q \<noteq> None \<longrightarrow> mapped M m' q = mapped M m q)"
    by (intro exI [of _ y] exI [of _ m2] exI [of _ p2]) (auto simp: algebra_simps)
qed

lemma uses_return: "res x \<Longrightarrow> uses M G 0 (\<lambda>p. Inr (x, p)) res"
  by (auto simp: uses_def)

text \<open>Functions with two results besides the world.\<close>

definition paired :: "('a \<times> 'b \<times> 'w) outcome \<Rightarrow> (('a \<times> 'b) \<times> 'w) outcome" where
  "paired r = bindR r (\<lambda>(x, y, p). Inr ((x, y), p))"

lemma paired_bind: "paired (bindR r (\<lambda>(x, y, p). f x y p)) = bindR (paired r) (\<lambda>((x, y), p). paired (f x y p))"
  by (cases r) (auto simp: paired_def)

lemma bind_paired: "bindR r (\<lambda>(x, y, p). f x y p) = bindR (paired r) (\<lambda>((x, y), p). f x y p)"
  by (cases r) (auto simp: paired_def)

section \<open>Mappings\<close>

text \<open>A physical region that \<^verbatim>\<open>map_physical_region\<close> accepts.\<close>

definition region_ok :: "nat \<Rightarrow> nat \<Rightarrow> bool" where
  "region_ok pa sz \<longleftrightarrow> 0 < sz \<and> aligned_above (pa + sz) 4096 < 2 ^ 52"

lemma world_room_region:
  "world_room M v (page_span pa sz + r) m p \<Longrightarrow> region_ok pa sz \<Longrightarrow> region_ready M (p_km p) m pa sz"
  by (auto simp: world_room_def region_ok_def region_ready_def Let_def)

lemma map_world:
  assumes X: "x86_docs X" and M: "mapper_docs M" and w: "world_room M v (page_span pa sz + r) m p" and R: "region_ok pa sz"
  obtains km1 m1 where "map_physical_region X M (p_km p) pa sz =
      Inr (\<lparr>physical_start = pa, virtual_start = v + pa mod 4096, region_length = sz, mapped_length = 4096 * page_span pa sz\<rparr>, km1)"
    and "world_room M (v + 4096 * page_span pa sz) r m1 (p\<lparr>p_km := km1\<rparr>)" and "km_mapper km1 = Some m1"
    and "mapped M m1 = map_range v (page_span pa sz) (pa - pa mod 4096) {PRESENT, WRITABLE, NO_CACHE} (mapped M m)"
proof -
  let ?n = "page_span pa sz"
  have v: "page_addr (km_pages (p_km p)) = v" using w by (simp add: world_room_def)
  obtain m1 fa1 where 1: "map_physical_region X M (p_km p) pa sz =
      Inr (\<lparr>physical_start = pa, virtual_start = v + pa mod 4096, region_length = sz, mapped_length = 4096 * ?n\<rparr>,
        (p_km p)\<lparr>km_mapper := Some m1, km_frames := Some fa1, km_pages := \<lparr>page_addr = v + 4096 * ?n\<rparr>\<rparr>)"
    "mapped M m1 = map_range v ?n (pa - pa mod 4096) {PRESENT, WRITABLE, NO_CACHE} (mapped M m)"
    "\<forall>q. free_page M m1 q \<longleftrightarrow> free_page M m q \<and> q \<notin> page_range v ?n"
    "\<forall>fa. km_frames (p_km p) = Some fa \<longrightarrow> frames_left fa \<le> frames_left fa1 + 3 * ?n"
    using map_physical_region_ok [OF X M world_room_region [OF w R]] unfolding v by blast
  have "free_page M m1 (v + 4096 * ?n + 4096 * i)" if "i < r" for i
  proof -
    have "?n + i < ?n + r" using that by simp
    then have "free_page M m (v + 4096 * (?n + i))" using w unfolding world_room_def by blast
    then show ?thesis using 1(3) by (auto simp: page_range_def algebra_simps)
  qed
  then have "world_room M (v + 4096 * ?n) r m1 (p\<lparr>p_km := (p_km p)\<lparr>km_mapper := Some m1, km_frames := Some fa1,
      km_pages := \<lparr>page_addr = v + 4096 * ?n\<rparr>\<rparr>\<rparr>)"
    using w 1(4) by (auto simp: world_room_def algebra_simps)
  then show thesis by (rule that [OF 1(1)]) (simp_all add: 1(2))
qed

text \<open>The region of a table: mapped, read, parsed, and unmapped again.\<close>

definition parse_ok :: "'m mapper_ops \<Rightarrow> ('d \<Rightarrow> bool) \<Rightarrow> ('m, 'd, 't, 'c) acpi_crates \<Rightarrow> nat \<Rightarrow> bool" where
  "parse_ok M G C c \<longleftrightarrow> (\<forall>ctx bs. uses M G c (aml_parse_table C ctx bs) (\<lambda>x. fst x = None))"

lemma drop_world:
  assumes X: "x86_docs X" and M: "mapper_docs M" and w: "world_room M u r m p" and v: "4096 dvd v" "v + 4096 * (n + 1) < 2 ^ 47"
    and n: "\<forall>q \<in> page_range v n. mapped M m q \<noteq> None"
  obtains m' p' where "drop_mapping X M \<lparr>physical_start = pa, virtual_start = v + pa mod 4096, region_length = sz, mapped_length = 4096 * n\<rparr> p = Inr p'"
    and "world_room M u r m' p'" and "p_dev p' = p_dev p" and "\<forall>q. q \<notin> page_range v n \<longrightarrow> mapped M m' q = mapped M m q"
proof -
  have d: "pa mod 4096 < 4096" "v + pa mod 4096 + 4096 * n < 2 ^ 47" using v(2) by auto
  have "\<exists>m'. unmap_pages X M n (v + pa mod 4096) (p_km p) = Inr ((p_km p)\<lparr>km_mapper := Some m'\<rparr>) \<and>
      mapped M m' = (\<lambda>q. if q \<in> page_range v n then None else mapped M m q) \<and>
      (\<forall>q. free_page M m' q \<longleftrightarrow> free_page M m q \<or> q \<in> page_range v n)"
    by (rule unmap_pages_ok [OF X M _ v(1) d]) (use w n in \<open>auto simp: world_room_def\<close>)
  then obtain m' where u: "unmap_pages X M n (v + pa mod 4096) (p_km p) = Inr ((p_km p)\<lparr>km_mapper := Some m'\<rparr>)"
    "mapped M m' = (\<lambda>q. if q \<in> page_range v n then None else mapped M m q)"
    "\<forall>q. free_page M m' q \<longleftrightarrow> free_page M m q \<or> q \<in> page_range v n" by blast
  have "virt_new X (v + pa mod 4096) = Inr (v + pa mod 4096)"
    by (rule x86_virt_new [OF X]) (use d in simp)
  then have "drop_mapping X M \<lparr>physical_start = pa, virtual_start = v + pa mod 4096, region_length = sz, mapped_length = 4096 * n\<rparr> p =
      Inr (p\<lparr>p_km := (p_km p)\<lparr>km_mapper := Some m'\<rparr>\<rparr>)"
    by (simp add: drop_mapping_def unmap_physical_region_def u(1) Let_def)
  then show thesis by (rule that [where m' = m']) (use w u in \<open>auto simp: world_room_def\<close>)
qed

lemma parse_table_uses:
  assumes X: "x86_docs X" and M: "mapper_docs M" and R: "region_ok pa sz" and P: "parse_ok M G C c"
  shows "uses M G (page_span pa sz + c) (\<lambda>p. paired (parse_table X M C (pa, sz) ctx p)) (\<lambda>x. fst x = Inr ())"
  unfolding uses_def
proof (intro allI impI, elim conjE)
  let ?n = "page_span pa sz"
  let ?reg = "\<lambda>v. \<lparr>physical_start = pa, virtual_start = v + pa mod 4096, region_length = sz, mapped_length = 4096 * ?n\<rparr>"
  fix v r m p assume w: "world_room M v (?n + c + r) m p" and G: "G (p_dev p)"
  have w': "world_room M v (?n + (c + r)) m p" using w by (simp only: add.assoc)
  have v: "4096 dvd v" "v + 4096 * (?n + 1) < 2 ^ 47" using w by (auto simp: world_room_def)
  obtain km1 m1 where 1: "map_physical_region X M (p_km p) pa sz = Inr (?reg v, km1)"
    "world_room M (v + 4096 * ?n) (c + r) m1 (p\<lparr>p_km := km1\<rparr>)" "km_mapper km1 = Some m1"
    "mapped M m1 = map_range v ?n (pa - pa mod 4096) {PRESENT, WRITABLE, NO_CACHE} (mapped M m)"
    using map_world [OF X M w' R] .
  have "phys_byte M m1 (v + pa mod 4096 + b) = Some (pa + b)" if "b < sz" for b
    using map_range_byte [OF v(1) 1(4), of "pa mod 4096 + b"] page_span_props(3) [of sz pa] R that
    by (simp add: region_ok_def add.assoc)
  then have "load_bytes M m1 (p_mem p) (v + pa mod 4096) sz = Inr (map (\<lambda>b. p_mem p (pa + b)) [0..<sz])"
    by (intro load_bytes_ok) simp
  then obtain bs where bs: "load_bytes M m1 (p_mem p) (v + pa mod 4096) sz = Inr bs" ..
  let ?p1 = "p\<lparr>p_km := km1\<rparr>"
  have "uses M G c (aml_parse_table C ctx bs) (\<lambda>x. fst x = None)" "G (p_dev ?p1)" using P G by (simp_all add: parse_ok_def)
  from usesE [OF this(1) 1(2) this(2)] obtain x m2 p2 where 2: "aml_parse_table C ctx bs ?p1 = Inr (x, p2)" "fst x = None"
    "world_room M (v + 4096 * ?n + 4096 * c) r m2 p2" "G (p_dev p2)"
    "\<forall>q < v + 4096 * ?n. mapped M m1 q \<noteq> None \<longrightarrow> mapped M m2 q = mapped M m1 q" .
  have "\<forall>q \<in> page_range v ?n. mapped M m2 q \<noteq> None" 
  proof
    fix q assume q: "q \<in> page_range v ?n"
    then have "q < v + 4096 * ?n" by (auto simp: page_range_def)
    moreover have "mapped M m1 q \<noteq> None" using q by (simp add: 1(4) map_range_def)
    ultimately show "mapped M m2 q \<noteq> None" using 2(5) by simp
  qed
  from drop_world [OF X M 2(3) v this, of pa sz] obtain m3 p3 where 3: "drop_mapping X M (?reg v) p2 = Inr p3"
    "world_room M (v + 4096 * ?n + 4096 * c) r m3 p3" "p_dev p3 = p_dev p2"
    "\<forall>q. q \<notin> page_range v ?n \<longrightarrow> mapped M m3 q = mapped M m2 q" .
  have km: "km1\<lparr>km_mapper := Some m1\<rparr> = km1" using 1(3) by simp
  have "paired (parse_table X M C (pa, sz) ctx p) = Inr ((Inr (), snd x), p3)"
    using 2(1,2) by (cases x) (simp add: paired_def parse_table_def on_memory_def with_mapper_def 1(1,3) bs 3(1) km)
  moreover have "mapped M m3 q = mapped M m q" if "q < v" "mapped M m q \<noteq> None" for q
  proof -
    have "q \<notin> page_range v ?n" using that(1) by (auto simp: page_range_def)
    then show ?thesis using 3(4) 2(5) 1(4) that by (auto simp: map_range_def)
  qed
  ultimately show "\<exists>x m' p'. paired (parse_table X M C (pa, sz) ctx p) = Inr (x, p') \<and> fst x = Inr () \<and>
      world_room M (v + 4096 * (?n + c)) r m' p' \<and> G (p_dev p') \<and> (\<forall>q < v. mapped M m q \<noteq> None \<longrightarrow> mapped M m' q = mapped M m q)"
    using 2(4) 3(2,3) by (intro exI [of _ "(Inr (), snd x)"] exI [of _ m3] exI [of _ p3]) (auto simp: algebra_simps)
qed

section \<open>Initialisation\<close>

definition table_pages :: "nat \<Rightarrow> (nat \<times> nat) list \<Rightarrow> nat" where
  "table_pages c ts = sum_list (map (\<lambda>(pa, sz). page_span pa sz + c) ts)"

lemma uses_paired_bind:
  assumes "uses M G c (\<lambda>p. paired (f p)) res" and "\<And>x y. res (x, y) \<Longrightarrow> uses M G e (g x y) res'"
  shows "uses M G (c + e) (\<lambda>p. bindR (f p) (\<lambda>(x, y, p). g x y p)) res'"
proof -
  have "uses M G (c + e) (\<lambda>p. bindR (paired (f p)) (\<lambda>(z, p). case z of (x, y) \<Rightarrow> g x y p)) res'"
    using uses_bind [OF assms(1), of e "\<lambda>z p. case z of (x, y) \<Rightarrow> g x y p" res'] assms(2) by auto
  moreover have "bindR (f p) (\<lambda>(x, y, p). g x y p) = bindR (paired (f p)) (\<lambda>(z, p). case z of (x, y) \<Rightarrow> g x y p)" for p
    by (subst bind_paired) (rule arg_cong [where f = "bindR _"], auto)
  ultimately show ?thesis by simp
qed

lemma parse_tables_uses:
  assumes "x86_docs X" and "mapper_docs M" and "\<forall>(pa, sz) \<in> set ts. region_ok pa sz" and "parse_ok M G C c"
  shows "uses M G (table_pages c ts) (\<lambda>p. paired (parse_tables X M C ts ctx p)) (\<lambda>x. fst x = Inr ())"
  using assms(3)
proof (induction ts arbitrary: ctx)
  case Nil
  show ?case using uses_return [of "\<lambda>x. fst x = Inr ()" "(Inr (), ctx)" M G] by (simp add: table_pages_def paired_def)
next
  case (Cons t ts)
  obtain pa sz where t: "t = (pa, sz)" by (rule prod.exhaust)
  have "uses M G ((page_span pa sz + c) + table_pages c ts)
      (\<lambda>p. bindR (parse_table X M C (pa, sz) ctx p) (\<lambda>(r, ctx, p). paired (case r of Inl e \<Rightarrow> Inr (Inl e, ctx, p)
         | Inr _ \<Rightarrow> parse_tables X M C ts ctx p))) (\<lambda>x. fst x = Inr ())"
    by (rule uses_paired_bind [OF parse_table_uses [OF assms(1,2) _ assms(4)]]) (use Cons t in auto)
  then show ?case by (simp add: t table_pages_def paired_bind bind_paired [of _ "\<lambda>r ctx p. paired (f r ctx p)" for f] add.assoc)
qed

text \<open>
  What the crates have to do: the root pointer is valid, the tables and the table of interrupt controllers are found,
  and every table is parsed and every object initialised without an error. Each call uses a fixed number of pages.
\<close>

definition tables_docs :: "'m mapper_ops \<Rightarrow> ('d \<Rightarrow> bool) \<Rightarrow> ('m, 'd, 't, 'c) acpi_crates \<Rightarrow> nat \<Rightarrow> 't \<Rightarrow> MadtEntry list \<Rightarrow> (nat \<Rightarrow> nat) \<Rightarrow> bool" where
  "tables_docs M G C addr t es c \<longleftrightarrow>
     (\<forall>mapping p. physical_start mapping = addr \<longrightarrow> rsdp_valid C mapping p) \<and>
     (\<forall>mapping. uses M G (c 0) (from_validated_rsdp C mapping) (\<lambda>x. x = Inr t)) \<and>
     uses M G (c 1) (find_fadt C t) (\<lambda>_. True) \<and> uses M G (c 2) (find_madt C t) (\<lambda>x. x = Inr es) \<and>
     uses M G (c 3) (platform_info C t) (\<lambda>_. True) \<and> uses M G (c 4) (pci_config_regions_new C t) (\<lambda>_. True) \<and>
     parse_ok M G C (c 5) \<and> (\<forall>ctx. uses M G (c 6) (aml_initialize_objects C ctx) (\<lambda>x. fst x = None))"

definition acpi_pages :: "('m, 'd, 't, 'c) acpi_crates \<Rightarrow> nat \<Rightarrow> (nat \<times> nat) list \<Rightarrow> (nat \<Rightarrow> nat) \<Rightarrow> nat" where
  "acpi_pages C addr ts c = page_span addr (rsdp_size C) + (c 0 + (c 1 + (c 2 + (c 3 + (c 4 + (table_pages (c 5) ts + (c 6 + 0)))))))"

lemma load_acpi_uses:
  assumes "x86_docs X" and "mapper_docs M" and "dsdt C t = Inr t0" and "\<forall>(pa, sz) \<in> set (t0 # ssdts C t). region_ok pa sz"
    and "parse_ok M G C c"
  shows "uses M G (table_pages c (t0 # ssdts C t)) (\<lambda>p. paired (load_acpi X M C t ctx p)) (\<lambda>x. fst x = Inr ())"
  using parse_tables_uses [OF assms(1,2,4,5), of ctx] assms(3) by (simp add: load_acpi_def)

lemma find_rsdp_uses:
  assumes "x86_docs X" and "mapper_docs M" and "region_ok addr (rsdp_size C)"
  shows "uses M G (page_span addr (rsdp_size C)) (find_rsdp X M C (Some addr)) (\<lambda>x. \<exists>mp. x = Some mp \<and> physical_start mp = addr)"
  unfolding uses_def
proof (intro allI impI, elim conjE)
  let ?n = "page_span addr (rsdp_size C)"
  let ?reg = "\<lambda>v. \<lparr>physical_start = addr, virtual_start = v + addr mod 4096, region_length = rsdp_size C, mapped_length = 4096 * ?n\<rparr>"
  fix v r m p assume w: "world_room M v (?n + r) m p" and G: "G (p_dev p)"
  from map_world [OF assms(1,2) w assms(3)] obtain km1 m1 where 1: "map_physical_region X M (p_km p) addr (rsdp_size C) = Inr (?reg v, km1)"
    "world_room M (v + 4096 * ?n) r m1 (p\<lparr>p_km := km1\<rparr>)" "km_mapper km1 = Some m1"
    "mapped M m1 = map_range v ?n (addr - addr mod 4096) {PRESENT, WRITABLE, NO_CACHE} (mapped M m)" .
  have "mapped M m1 q = mapped M m q" if "q < v" for q
    using that by (auto simp: 1(4) map_range_def page_range_def)
  then show "\<exists>x m' p'. find_rsdp X M C (Some addr) p = Inr (x, p') \<and> (\<exists>mp. x = Some mp \<and> physical_start mp = addr) \<and>
      world_room M (v + 4096 * ?n) r m' p' \<and> G (p_dev p') \<and> (\<forall>q < v. mapped M m q \<noteq> None \<longrightarrow> mapped M m' q = mapped M m q)"
    using G 1(2)
    by (intro exI [of _ "Some (?reg v)"] exI [of _ m1] exI [of _ "p\<lparr>p_km := km1\<rparr>"])
      (simp add: find_rsdp_def find_rsdp_on_uefi_def on_memory_def 1(1))
qed

lemma initialize_objects_uses:
  assumes "\<forall>ctx. uses M G c (aml_initialize_objects C ctx) (\<lambda>x. fst x = None)" and "madt data = Some es"
  shows "uses M G (c + 0) (\<lambda>p. bindR (initialize_objects C ctx p) (\<lambda>(r, ctx, p).
    case r of Inl _ \<Rightarrow> Inl (Unwrap_Failed ''Failed to initialize AML objects'') | Inr _ \<Rightarrow> Inr (data\<lparr>aml := Some ctx\<rparr>, p)))
    (\<lambda>acpi. madt acpi = Some es \<and> aml acpi \<noteq> None)"
proof -
  have "uses M G (c + 0) (\<lambda>p. bindR (aml_initialize_objects C ctx p) (\<lambda>(x, p). case fst x of
      None \<Rightarrow> Inr (data\<lparr>aml := Some (snd x)\<rparr>, p) | Some _ \<Rightarrow> Inl (Unwrap_Failed ''Failed to initialize AML objects'')))
      (\<lambda>acpi. madt acpi = Some es \<and> aml acpi \<noteq> None)"
    by (rule uses_bind [where res = "\<lambda>x. fst x = None"]) (use assms in \<open>auto intro!: uses_return\<close>)
  moreover have "bindR (initialize_objects C ctx p) (\<lambda>(r, ctx, p).
      case r of Inl _ \<Rightarrow> Inl (Unwrap_Failed ''Failed to initialize AML objects'') | Inr _ \<Rightarrow> Inr (data\<lparr>aml := Some ctx\<rparr>, p)) =
    bindR (aml_initialize_objects C ctx p) (\<lambda>(x, p). case fst x of
      None \<Rightarrow> Inr (data\<lparr>aml := Some (snd x)\<rparr>, p) | Some _ \<Rightarrow> Inl (Unwrap_Failed ''Failed to initialize AML objects''))" for p
    by (cases "aml_initialize_objects C ctx p") (auto simp: initialize_objects_def split: option.split)
  ultimately show ?thesis by simp
qed

lemma acpi_init_uses:
  fixes C :: "('m, 'd, 't, 'c) acpi_crates"
  assumes X: "x86_docs X" and M: "mapper_docs M" and T: "tables_docs M G C addr t es c"
    and tb: "region_ok addr (rsdp_size C)" "dsdt C t = Inr t0" "\<forall>(pa, sz) \<in> set (t0 # ssdts C t). region_ok pa sz"
  shows "uses M G (acpi_pages C addr (t0 # ssdts C t) c) (acpi_init X M C (Some addr) data) (\<lambda>acpi. madt acpi = Some es \<and> aml acpi \<noteq> None)"
proof -
  let ?res = "\<lambda>acpi. madt acpi = Some es \<and> aml acpi \<noteq> None"
  define load where "load rs data p = bindR (load_acpi X M C t (nocciolo_aml_context_new C rs) p) (\<lambda>(r, ctx, p).
      case r of Inl _ \<Rightarrow> Inl (Unwrap_Failed ''Failed to populate ACPI information'') | Inr _ \<Rightarrow>
      bindR (initialize_objects C ctx p) (\<lambda>(r, ctx, p).
      case r of Inl _ \<Rightarrow> Inl (Unwrap_Failed ''Failed to initialize AML objects'') | Inr _ \<Rightarrow> Inr (data\<lparr>aml := Some ctx\<rparr>, p)))" for rs and data :: "'c AcpiData" and p
  define conf where "conf data p = bindR (pci_config_regions_new C t p) (\<lambda>(rs, p). load (case rs of Inl _ \<Rightarrow> None | Inr rs \<Rightarrow> Some rs) data p)"
    for data :: "'c AcpiData" and p
  define info where "info data p = bindR (platform_info C t p) (\<lambda>(_, p). conf data p)" for data :: "'c AcpiData" and p
  define find_m where "find_m data p = bindR (find_madt C t p) (\<lambda>(m, p).
      info (case m of Inr m \<Rightarrow> data\<lparr>madt := Some m\<rparr> | Inl _ \<Rightarrow> data) p)" for data :: "'c AcpiData" and p
  define find_f where "find_f data p = bindR (find_fadt C t p) (\<lambda>(f, p).
      find_m (case f of Inr f \<Rightarrow> data\<lparr>fadt := Some f\<rparr> | Inl _ \<Rightarrow> data) p)" for data :: "'c AcpiData" and p
  have load: "uses M G (table_pages (c 5) (t0 # ssdts C t) + (c 6 + 0)) (load rs data) ?res" if "madt data = Some es" for rs data
    unfolding load_def [abs_def]
    by (rule uses_paired_bind [OF load_acpi_uses [OF X M tb(2,3)]])
      (use T that in \<open>auto simp: tables_docs_def intro!: initialize_objects_uses [simplified]\<close>)
  have conf: "uses M G (c 4 + (table_pages (c 5) (t0 # ssdts C t) + (c 6 + 0))) (conf data) ?res" if "madt data = Some es" for data
    unfolding conf_def [abs_def]
    by (rule uses_bind [where res = "\<lambda>_. True"]) (use T load [OF that] in \<open>auto simp: tables_docs_def\<close>)
  have info: "uses M G (c 3 + (c 4 + (table_pages (c 5) (t0 # ssdts C t) + (c 6 + 0)))) (info data) ?res" if "madt data = Some es" for data
    unfolding info_def [abs_def]
    by (rule uses_bind [where res = "\<lambda>_. True"]) (use T conf [OF that] in \<open>auto simp: tables_docs_def\<close>)
  have find_m: "uses M G (c 2 + (c 3 + (c 4 + (table_pages (c 5) (t0 # ssdts C t) + (c 6 + 0))))) (find_m data) ?res" for data
    unfolding find_m_def [abs_def]
    by (rule uses_bind [where res = "\<lambda>x. x = Inr es"]) (use T info in \<open>auto simp: tables_docs_def\<close>)
  have find_f: "uses M G (c 1 + (c 2 + (c 3 + (c 4 + (table_pages (c 5) (t0 # ssdts C t) + (c 6 + 0)))))) (find_f data) ?res" for data
    unfolding find_f_def [abs_def]
    by (rule uses_bind [where res = "\<lambda>_. True"]) (use T find_m in \<open>auto simp: tables_docs_def\<close>)
  have "rsdp_valid C mp p" if "physical_start mp = addr" for mp p using T that by (simp add: tables_docs_def)
  note valid = this
  show ?thesis
    unfolding acpi_pages_def acpi_init_def [abs_def]
  proof (rule uses_bind [OF find_rsdp_uses [OF X M tb(1)]], elim exE conjE, goal_cases)
    case (1 rsdp mp)
    note mp = this
    have "uses M G (c 0 + (c 1 + (c 2 + (c 3 + (c 4 + (table_pages (c 5) (t0 # ssdts C t) + (c 6 + 0)))))))
      (\<lambda>p. bindR (from_validated_rsdp C mp p) (\<lambda>(tables, p). case tables of Inl _ \<Rightarrow> Inr (data, p) | Inr t' \<Rightarrow>
        bindR (find_fadt C t' p) (\<lambda>(f, p).
        let data = (case f of Inr f \<Rightarrow> data\<lparr>fadt := Some f\<rparr> | Inl _ \<Rightarrow> data)
        in bindR (find_madt C t' p) (\<lambda>(m, p).
        let data = (case m of Inr m \<Rightarrow> data\<lparr>madt := Some m\<rparr> | Inl _ \<Rightarrow> data)
        in bindR (platform_info C t' p) (\<lambda>(_, p).
        bindR (pci_config_regions_new C t' p) (\<lambda>(rs, p).
        let rs = (case rs of Inl _ \<Rightarrow> None | Inr rs \<Rightarrow> Some rs)
        in bindR (load_acpi X M C t' (nocciolo_aml_context_new C rs) p) (\<lambda>(r, ctx, p).
        case r of Inl _ \<Rightarrow> Inl (Unwrap_Failed ''Failed to populate ACPI information'') | Inr _ \<Rightarrow>
        bindR (initialize_objects C ctx p) (\<lambda>(r, ctx, p).
        case r of Inl _ \<Rightarrow> Inl (Unwrap_Failed ''Failed to initialize AML objects'') | Inr _ \<Rightarrow> Inr (data\<lparr>aml := Some ctx\<rparr>, p))))))))) ?res"
    proof (rule uses_bind [where res = "\<lambda>x. x = Inr t"], goal_cases)
      case 1
      show ?case using T by (simp add: tables_docs_def)
    next
      case (2 x)
      with find_f [of data] show ?case
        by (simp add: find_f_def [abs_def] find_m_def [abs_def] info_def [abs_def] conf_def [abs_def] load_def [abs_def] Let_def)
    qed
    then show ?case by (simp add: mp valid)
  qed
qed

end
