(* ===== verification/Startup.thy ===== *)
theory Startup
  imports Boot Acpi_Tables
begin

text \<open>
  The start of the kernel returns: what each step of \<^verbatim>\<open>init\<close> in \<^verbatim>\<open>kernel/src/main.rs\<close> needs and leaves behind, as total
  correctness triples over the whole state, and the conditions on the machine under which they fit
  together.
\<close>

section \<open>Total steps\<close>

definition total :: "('s \<Rightarrow> bool) \<Rightarrow> ('s \<Rightarrow> 's outcome) \<Rightarrow> ('s \<Rightarrow> bool) \<Rightarrow> bool" where
  "total P f Q \<longleftrightarrow> (\<forall>k. P k \<longrightarrow> (\<exists>k'. f k = Inr k' \<and> Q k'))"

lemma totalI: "(\<And>k. P k \<Longrightarrow> \<exists>k'. f k = Inr k' \<and> Q k') \<Longrightarrow> total P f Q"
  by (simp add: total_def)

lemma total_Nil: "total P (run_steps []) P"
  by (simp add: total_def run_steps_def)

lemma total_Cons: "total P f R \<Longrightarrow> total R (run_steps fs) Q \<Longrightarrow> total P (run_steps (f # fs)) Q"
  by (fastforce simp: total_def)

lemma total_forR:
  assumes "\<And>x m. x \<in> set xs \<Longrightarrow> total (P (c x + m)) (f x) (P m)"
  shows "total (P (sum_list (map c xs) + m)) (forR f xs) (P m)"
  using assms
proof (induction xs)
  case (Cons x xs)
  have "total (P (c x + (sum_list (map c xs) + m))) (f x) (P (sum_list (map c xs) + m))" using Cons.prems by simp
  moreover have "total (P (sum_list (map c xs) + m)) (forR f xs) (P m)" using Cons by simp
  ultimately show ?case by (fastforce simp: total_def ac_simps)
qed (simp add: total_def)

section \<open>Records\<close>

text \<open>Room for so many characters, and a property that drawing does not change.\<close>

definition roomy :: "('m, 'f, 'd, 's, 'a, 'q, 't, 'c, 'e, 'g, 'u) env \<Rightarrow>
   (('m, 'f, 'd, 's, 'a, 'q, 'c, 'e, 'g) kernel \<Rightarrow> bool) \<Rightarrow> nat \<Rightarrow> ('m, 'f, 'd, 's, 'a, 'q, 'c, 'e, 'g) kernel \<Rightarrow> bool" where
  "roomy E R n k \<longleftrightarrow> can_log E n k \<and> R k"

definition drawn_on :: "(('m, 'f, 'd, 's, 'a, 'q, 'c, 'e, 'g) kernel \<Rightarrow> bool) \<Rightarrow> bool" where
  "drawn_on R \<longleftrightarrow> (\<forall>k out. R k \<longrightarrow> R (k\<lparr>k_out := out\<rparr>))"

lemma can_log_mono: "can_log E m k \<Longrightarrow> n \<le> m \<Longrightarrow> can_log E n k"
  by (auto simp: can_log_def)

lemma can_log_out: "k_out k' = k_out k \<Longrightarrow> k_logger k' = k_logger k \<Longrightarrow> can_log E n k' = can_log E n k"
  by (simp add: can_log_def)

lemma log_total:
  assumes "log_docs E" and "drawn_on R" and "40 + length t + length a \<le> c"
  shows "total (roomy E R (c + n)) (log_at E t l a) (roomy E R n)"
proof (rule totalI)
  fix k assume k: "roomy E R (c + n) k"
  then have "can_log E (40 + length t + length a + n) k" using assms(3) by (auto simp: roomy_def intro: can_log_mono)
  with log_at_ok [OF assms(1) this, of l] k assms(2)
  show "\<exists>k'. log_at E t l a k = Inr k' \<and> roomy E R n k'" by (auto simp: roomy_def drawn_on_def)
qed

text \<open>A record of \<^verbatim>\<open>main.rs\<close>.\<close>

lemma log_main_total:
  assumes "log_docs E" and "drawn_on R" and "length s \<le> 45" and "m = 100 + n"
  shows "total (roomy E R m) (log_main E l s) (roomy E R n)"
  unfolding assms(4) by (rule log_total [OF assms(1,2)]) (use assms(3) in \<open>simp add: codes_def\<close>)

section \<open>Stages\<close>

text \<open>What the interrupt controllers have to be like: the tables lead to the local APIC, and every entry of the I/O APIC has a delivery mode that exists.\<close>

definition apics_sane :: "x86_64 \<Rightarrow> 'd machine \<Rightarrow> MadtEntry list \<Rightarrow> nat \<Rightarrow> u8 \<Rightarrow> ('d \<Rightarrow> u8 \<Rightarrow> u32) \<Rightarrow> 'd \<Rightarrow> bool" where
  "apics_sane X D es pa n ent d \<longleftrightarrow> find_local_apic_base X D (Some es) d = Inr pa \<and>
     (\<forall>i \<le> unat n. legal_mode (ent d (redir_lo i)))"

text \<open>No access of the start-up code through ports changes this.\<close>

definition ports_keep :: "('d, 's, 'a, 'q) platform \<Rightarrow> ('d \<Rightarrow> bool) \<Rightarrow> bool" where
  "ports_keep P G \<longleftrightarrow> (\<forall>d. G d \<longrightarrow> (\<forall>port x. G (out8 (pf_machine P) d port x)) \<and> G (pics_initialize (pf_pics P) d))"

text \<open>Memory after the heap has been mapped, starting from the page tables \<open>m0\<close>.\<close>

definition heap_mapped :: "'m mapper_ops \<Rightarrow> 'm \<Rightarrow> MemoryRegion list \<Rightarrow> 'm kernel_memory \<Rightarrow> 'm kernel_memory \<Rightarrow> bool" where
  "heap_mapped M m0 regions km0 km \<longleftrightarrow> (\<exists>m fa. km = km0\<lparr>km_mapper := Some m, km_frames := Some fa\<rparr> \<and>
     (\<forall>q. free_page M m q \<longleftrightarrow> free_page M m0 q \<and> q \<notin> set heap_page_list) \<and>
     length (frame_addresses regions) \<le> frames_left fa + 1024)"

text \<open>The stages between the steps that change more than the screen.\<close>

definition stage_start where
  "stage_start G k0 k \<longleftrightarrow> k_mem k = k_mem k0 \<and> k_heap k = k_heap k0 \<and> k_acpi k = k_acpi k0 \<and> G (hw (k_irq k))"

definition stage_heap where
  "stage_heap G mem_ok heap k0 k \<longleftrightarrow> mem_ok (k_mem k) \<and> k_heap k = heap \<and> k_acpi k = k_acpi k0 \<and> G (hw (k_irq k))"

definition stage_acpi where
  "stage_acpi M G es v heap k \<longleftrightarrow> k_heap k = heap \<and> madt (k_acpi k) = Some es \<and> G (hw (k_irq k)) \<and>
     (\<exists>m. world_room M v 3 m (world_of k))"

definition stage_done where
  "stage_done heap k \<longleftrightarrow> k_heap k = heap"

lemma stages_drawn_on [simp]:
  "drawn_on (stage_start G k0)" "drawn_on (stage_heap G mem_ok heap k0)" "drawn_on (stage_acpi M G es v heap)"
  "drawn_on (stage_done heap)"
  by (simp_all add: drawn_on_def stage_start_def stage_heap_def stage_acpi_def stage_done_def world_of_def)

section \<open>The steps\<close>

lemma gdt_step_total:
  assumes "gdt_docs (e_gdt E) gent groom" and "x86_docs (e_x86 E)" and "e_stack E + STACK_SIZE < 2 ^ 47"
  shows "total (roomy E (stage_start G k0) m) (gdt_step E) (roomy E (stage_start G k0) m)"
proof (rule totalI)
  fix k assume k: "roomy E (stage_start G k0) m k"
  obtain c where "gdt_init (e_x86 E) (e_gdt E) (e_stack E) (k_cpu k) = Inr c"
    using gdt_init_ok [OF assms] by blast
  with k show "\<exists>k'. gdt_step E k = Inr k' \<and> roomy E (stage_start G k0) m k'"
    by (simp add: gdt_step_def roomy_def stage_start_def can_log_def)
qed

lemma hw_steps_total:
  assumes "ports_keep (e_platform E) G"
  shows "total (roomy E (stage_start G k0) m) (on_hw (\<lambda>d. Inr (pics_initialize (pf_pics (e_platform E)) d))) (roomy E (stage_start G k0) m)"
    and "total (roomy E (stage_start G k0) m) (on_hw (pit_init (pf_machine (e_platform E)))) (roomy E (stage_start G k0) m)"
  using assms
  by (auto simp: total_def on_hw_def roomy_def stage_start_def can_log_def ports_keep_def pit_init_def
      set_frequency_def div_usize_def BASE_FREQUENCY_def assertR_def write_reload_count_def write_mode_command_def Let_def)

lemma heap_step_total:
  assumes "\<exists>m' fa'. kernel_init_heap (e_x86 E) (e_mapper E) (e_new_table E) (e_fallback_init E) (e_cr3 E)
      (bi_physical_memory_offset bi) (bi_memory_regions bi) (k_mem k0) (k_heap k0) =
      Inr ((k_mem k0)\<lparr>km_mapper := Some m', km_frames := Some fa'\<rparr>, heap) \<and>
    (\<forall>q. free_page (e_mapper E) m' q \<longleftrightarrow> free_page (e_mapper E) m0 q \<and> q \<notin> set heap_page_list) \<and>
    length (frame_addresses (bi_memory_regions bi)) \<le> frames_left fa' + 1024"
  shows "total (roomy E (stage_start G k0) m) (heap_step E bi)
    (roomy E (stage_heap G (heap_mapped (e_mapper E) m0 (bi_memory_regions bi) (k_mem k0)) heap k0) m)"
  using assms by (fastforce simp: total_def heap_step_def roomy_def stage_start_def stage_heap_def heap_mapped_def can_log_def)

text \<open>After the heap the page allocator still has the pages that were free before, outside the heap.\<close>

lemma heap_mapped_room:
  assumes "heap_mapped M m0 regions km0 (p_km p)" and "page_addr (km_pages km0) = v"
    and "0 < v" "4096 dvd v" "v + 4096 * (r + 1) < 2 ^ 47"
    and "\<forall>i < r. free_page M m0 (v + 4096 * i) \<and> v + 4096 * i \<notin> set heap_page_list"
    and "1024 + 3 * r \<le> length (frame_addresses regions)"
  shows "\<exists>m. world_room M v r m p"
  using assms by (auto simp: heap_mapped_def world_room_def)

lemma acpi_step_total:
  assumes "bi_rsdp_addr bi = Some addr"
    and u: "uses (e_mapper E) G c (acpi_init (e_x86 E) (e_mapper E) (e_acpi E) (Some addr) (k_acpi k0)) (\<lambda>acpi. madt acpi = Some es \<and> aml acpi \<noteq> None)"
    and room: "\<And>p :: ('m, 'd) world. mem_ok (p_km p) \<Longrightarrow> \<exists>m. world_room (e_mapper E) v (c + 3) m p"
  shows "total (roomy E (stage_heap G mem_ok heap k0) n) (acpi_step (E :: ('m, 'f, 'd, 's, 'a, 'q, 't, 'c, 'e, 'g, 'u) env) bi)
    (roomy E (stage_acpi (e_mapper E) G es (v + 4096 * c) heap) n)"
proof (rule totalI)
  fix k :: "('m, 'f, 'd, 's, 'a, 'q, 'c, 'e, 'g) kernel" assume k: "roomy E (stage_heap G mem_ok heap k0) n k"
  then have "mem_ok (p_km (world_of k))" "G (p_dev (world_of k))" "k_acpi k = k_acpi k0"
    by (auto simp: roomy_def stage_heap_def world_of_def)
  with room obtain m where "world_room (e_mapper E) v (c + 3) m (world_of k)" by blast
  from usesE [OF u this \<open>G (p_dev (world_of k))\<close>] obtain acpi m' p' where
    1: "acpi_init (e_x86 E) (e_mapper E) (e_acpi E) (Some addr) (k_acpi k0) (world_of k) = Inr (acpi, p')" "madt acpi = Some es \<and> aml acpi \<noteq> None"
      "world_room (e_mapper E) (v + 4096 * c) 3 m' p'" "G (p_dev p')" .
  have "world_of ((set_world p' k)\<lparr>k_acpi := acpi\<rparr>) = p'" by (simp add: world_of_def set_world_def)
  with k 1 assms(1) show "\<exists>k'. acpi_step E bi k = Inr k' \<and> roomy E (stage_acpi (e_mapper E) G es (v + 4096 * c) heap) n k'"
    by (auto simp: acpi_step_def roomy_def stage_acpi_def stage_heap_def can_log_def) (auto simp: set_world_def)
qed

lemma digits_length:
  assumes "2 \<le> b" and "n < b ^ k" and "0 < k"
  shows "length (digits b n) \<le> k"
  using assms(2,3)
proof (induction k arbitrary: n)
  case (Suc k)
  show ?case
  proof (cases "n < b")
    case True
    then show ?thesis by (simp add: digits.simps [of b n])
  next
    case False
    then have "n div b < b ^ k" "0 < k" using Suc.prems(1) assms(1) by (auto simp: less_mult_imp_div_less mult.commute intro: ccontr)
    from Suc.IH [OF this] False assms(1) show ?thesis by (simp add: digits.simps [of b n])
  qed
qed simp

lemma region_warning_total:
  assumes "log_docs E" and "drawn_on R" and "addr < 2 ^ 52"
  shows "total (roomy E R (200 + m)) (region_warning E bi addr) (roomy E R m)"
proof -
  let ?args = "codes ''APIC address '' @ colored_fmt (red (upper_hex addr)) @ codes '' was not found in any known MemoryRegion!''"
  have "length (upper_hex addr) \<le> 13" by (rule digits_length) (use assms(3) in simp_all)
  then have "40 + length ''nocciolo_kernel::interrupts::apic::local'' + length ?args \<le> 200"
    by (simp add: codes_def colored_fmt_def color_fmt_def with_color_def RESET_def)
  from log_total [OF assms(1,2) this, of m Warn] show ?thesis
    by (fastforce simp: total_def region_warning_def roomy_def intro: can_log_mono split: option.split)
qed

lemma room_apic_ready:
  assumes "world_room M v 3 m p" and "pa mod 4096 = 0x900" and "pa + 0x2000 < 2 ^ 52"
  shows "apic_ready M pa (p_km p)" and "page_addr (km_pages (p_km p)) = v"
  using assms by (auto simp: world_room_def apic_ready_def)

lemma apic_step_total:
  assumes L: "log_docs E" and X: "x86_docs (e_x86 E)" and M: "mapper_docs (e_mapper E)"
    and pa: "pa mod 4096 = 0x900" "pa + 0x2000 < 2 ^ 52" and io: "find_io_apic es = Some a" "4096 dvd unat a"
    and at: "ioapic_at (pf_machine (e_platform E)) (v + 8192) n sel ent" and n: "2 \<le> unat n" "unat n < 120"
    and G: "\<And>d. G d \<Longrightarrow> apics_sane (e_x86 E) (pf_machine (e_platform E)) es pa n ent d"
  shows "total (roomy E (stage_acpi (e_mapper E) G es v heap) (200 + m)) (apic_step E bi) (roomy E (stage_done heap) m)"
proof (rule totalI)
  let ?D = "pf_machine (e_platform E)" and ?S = "stage_acpi (e_mapper E) G es v heap"
  fix k assume k: "roomy E ?S (200 + m) k"
  then have f: "find_local_apic_base (e_x86 E) ?D (madt (k_acpi k)) (hw (k_irq k)) = Inr pa" "pa < 2 ^ 52"
    using G pa(2) by (auto simp: roomy_def stage_acpi_def apics_sane_def)
  from k region_warning_total [OF L stages_drawn_on(3) f(2), of "e_mapper E" G es v heap m bi]
  obtain k1 where k1: "region_warning E bi pa k = Inr k1" "roomy E ?S m k1" by (auto simp: total_def)
  then obtain m1 where m1: "world_room (e_mapper E) v 3 m1 (world_of k1)" and g: "G (hw (k_irq k1))" "madt (k_acpi k1) = Some es"
    by (auto simp: roomy_def stage_acpi_def)
  note ready = room_apic_ready [OF m1 pa]
  have "find_local_apic_base (e_x86 E) ?D (Some es) (hw (k_irq k1)) = Inr pa" "\<forall>i \<le> unat n. legal_mode (ent (hw (k_irq k1)) (redir_lo i))"
    using G [OF g(1)] by (simp_all add: apics_sane_def)
  then obtain d km s where "apic_init (e_x86 E) (e_mapper E) ?D (madt (k_acpi k1)) (bi_memory_regions bi)
      (hw (k_irq k1)) (k_mem k1) (apics (k_irq k1)) = Inr (d, km, s)"
    using apic_init_ok [OF X M _ _ io, of ?D "hw (k_irq k1)" pa "k_mem k1" n sel ent "bi_memory_regions bi" "apics (k_irq k1)"] at n ready g(2)
    by (auto simp: world_of_def)
  with f(1) k1 show "\<exists>k'. apic_step E bi k = Inr k' \<and> roomy E (stage_done heap) m k'"
    by (auto simp: apic_step_def roomy_def stage_acpi_def stage_done_def can_log_def)
qed

lemma meta_init_total:
  assumes "log_docs E" and "\<forall>e. minimal_parse (e_elf E) (get_elf_slice (bi_image bi) (e_image E)) = Inl e \<longrightarrow> length e \<le> 1000"
  shows "total (roomy E (stage_done heap) (1100 + m)) (meta_init E bi) (roomy E (stage_done heap) m)"
proof -
  have "total (roomy E (stage_done heap) (1100 + m))
      (log_at E ''nocciolo_kernel::meta::symbols'' Warn (codes ''Failed to parse ELF: '' @ codes e)) (roomy E (stage_done heap) m)"
    if "length e \<le> 1000" for e
    by (rule log_total [OF assms(1) stages_drawn_on(4)]) (use that in \<open>simp add: codes_def\<close>)
  with assms(2) show ?thesis
    by (fastforce simp: total_def meta_init_def roomy_def stage_done_def can_log_def split: sum.split)
qed

lemma pci_loop_length: "length (fst (pci_loop M e acc)) \<le> length (fst acc) + enum_left e"
proof (induction M e acc rule: pci_loop.induct)
  case (1 M e acc)
  obtain r e' d where n: "enum_next M e (snd acc) = (r, e', d)" by (metis prod.exhaust)
  show ?case
  proof (cases r)
    case None
    then show ?thesis using n by (subst pci_loop.simps) simp
  next
    case (Some dev)
    have "length (fst (report_device M dev (fst acc, d))) = Suc (length (fst acc))"
      by (simp add: report_device_def Let_def split: prod.split)
    moreover have "enum_left e' < enum_left e" using enum_next_left [of M e "snd acc" dev e' d] n Some by simp
    moreover have "pci_loop M e acc = pci_loop M e' (report_device M dev (fst acc, d))"
      using n Some by (subst pci_loop.simps) simp
    ultimately show ?thesis using 1 n Some by fastforce
  qed
qed

lemma device_init_total:
  assumes "log_docs E" and "\<forall>r. sum_list (map (\<lambda>line. 70 + length line) (e_report_lines E r)) \<le> B"
  shows "total (roomy E (stage_done heap) (288 * B + 100 + m)) (device_init E) (roomy E (stage_done heap) m)"
proof (rule totalI)
  fix k assume k: "roomy E (stage_done heap) (288 * B + 100 + m) k"
  obtain rs d where pci: "pci_init (pf_machine (e_platform E)) (hw (k_irq k)) = (rs, d)" by (rule prod.exhaust)
  have len: "length rs \<le> 288"
    using pci_loop_length [of "PciLocalBusConfigurationSpace (pf_machine (e_platform E))" enumerate_start "([], hw (k_irq k))"] pci
    by (simp add: pci_init_def enum_left_def enumerate_start_def)
  let ?c = "\<lambda>line :: nat list. 70 + length line" and ?k = "k\<lparr>k_irq := (k_irq k)\<lparr>hw := d\<rparr>\<rparr>"
  let ?lines = "concat (map (e_report_lines E) rs) @ [codes ''Found '' @ decimal (length rs) @ codes '' PCI devices'']"
  have "sum_list (map ?c (concat (map (e_report_lines E) rs))) \<le> B * length rs"
    using assms(2) by (induction rs) (auto simp: add_mono)
  also have "\<dots> \<le> 288 * B" using len by simp
  finally have "sum_list (map ?c ?lines) \<le> 288 * B + 100"
    using digits_length [of 10 "length rs" 3] len by (simp add: codes_def)
  then have "roomy E (stage_done heap) (sum_list (map ?c ?lines) + m) ?k"
    using k by (auto simp: roomy_def stage_done_def can_log_def)
  moreover have "total (roomy E (stage_done heap) (sum_list (map ?c ?lines) + m))
      (forR (log_at E ''nocciolo_kernel::device::pci'' Info) ?lines) (roomy E (stage_done heap) m)"
    by (rule total_forR, rule log_total [OF assms(1) stages_drawn_on(4)]) simp
  ultimately show "\<exists>k'. device_init E k = Inr k' \<and> roomy E (stage_done heap) m k'"
    by (simp add: total_def device_init_def pci Let_def)
qed

section \<open>The sequence\<close>

lemma first_steps_total:
  assumes "\<not> k_logger k0" and "bi_framebuffer bi = Some (buf, info)"
    and "writer_ok (e_font E) (set_fb (screen (k_out k0)) buf info)"
    and "y_pos (set_fb (screen (k_out k0)) buf info) + 18 * m < 2 ^ 63" and "G (hw (k_irq k0))"
  shows "total (\<lambda>k. k = k0) logging_init (\<lambda>k. k = k0\<lparr>k_logger := True\<rparr>)"
    and "total (\<lambda>k. k = k0\<lparr>k_logger := True\<rparr>) (set_framebuffer bi) (roomy E (stage_start G k0) m)"
  using assms by (simp_all add: total_def logging_init_def set_framebuffer_def roomy_def can_log_def stage_start_def)

lemma plain_steps_total:
  "total (roomy E (stage_start G k0) m) init_idt (roomy E (stage_start G k0) m)"
  "total (roomy E (stage_done heap) m) enable_interrupts (roomy E (stage_done heap) m)"
  by (simp_all add: total_def init_idt_def enable_interrupts_def roomy_def can_log_def stage_start_def stage_done_def)

text \<open>The characters that \<^verbatim>\<open>init\<close> draws at most: its own records, a warning, an error of the ELF parser, and the devices.\<close>

abbreviation boot_text :: "nat \<Rightarrow> nat \<Rightarrow> nat" where
  "boot_text B m \<equiv> 100 + (100 + (100 + (100 + (100 + (100 + (200 + (100 + (100 + (1100 + (100 + (288 * B + 100 + (100 + m))))))))))))"

lemma boot_steps_total:
  assumes L: "log_docs E"
    and "total (\<lambda>k. k = k0) logging_init (\<lambda>k. k = k0\<lparr>k_logger := True\<rparr>)"
    and "\<And>m. m = boot_text B r \<Longrightarrow> total (\<lambda>k. k = k0\<lparr>k_logger := True\<rparr>) (set_framebuffer bi) (roomy E (stage_start G k0) m)"
    and "\<And>m. total (roomy E (stage_start G k0) m) (gdt_step E) (roomy E (stage_start G k0) m)"
    and "ports_keep (e_platform E) G"
    and "\<And>m. total (roomy E (stage_start G k0) m) (heap_step E bi) (roomy E (stage_heap G mem_ok heap k0) m)"
    and "\<And>m. total (roomy E (stage_heap G mem_ok heap k0) m) (acpi_step E bi) (roomy E (stage_acpi (e_mapper E) G es v heap) m)"
    and "\<And>m. total (roomy E (stage_acpi (e_mapper E) G es v heap) (200 + m)) (apic_step E bi) (roomy E (stage_done heap) m)"
    and "\<And>m. total (roomy E (stage_done heap) (1100 + m)) (meta_init E bi) (roomy E (stage_done heap) m)"
    and "\<And>m. total (roomy E (stage_done heap) (288 * B + 100 + m)) (device_init E) (roomy E (stage_done heap) m)"
  shows "total (\<lambda>k. k = k0) (run_steps (boot_steps E bi)) (roomy E (stage_done heap) r)"
proof -
  note log = log_main_total [OF L, OF stages_drawn_on(1) _ refl] log_main_total [OF L, OF stages_drawn_on(2) _ refl]
    log_main_total [OF L, OF stages_drawn_on(4) _ refl]
  show ?thesis
    unfolding boot_steps_def steps_before_interrupts_def steps_after_interrupts_def append.simps
    by (rule total_Cons [OF assms(2)], rule total_Cons [OF assms(3) [OF refl]])
      ((rule total_Cons, rule log assms(4,6-) hw_steps_total [OF assms(5)] plain_steps_total, (simp; fail)?)+, rule total_Nil)
qed

text \<open>However \<^verbatim>\<open>init\<close> returns, it has enabled interrupts, and the handlers have what they need.\<close>

lemma kernel_init_ready:
  assumes "kernel_init E bi k = Inr k'"
  shows "handlers_ready k'" and "interrupts_enabled (k_cpu k')"
proof -
  let ?b = "steps_before_interrupts E bi" and ?a = "steps_after_interrupts E bi"
  obtain k1 k2 where k: "run_steps ?b k = Inr k1" "enable_interrupts k1 = Inr k2" "run_steps ?a k2 = Inr k'"
    using assms by (auto simp: kernel_init_def boot_steps_def run_steps_append bindR_Inr_iff)
  have "handlers_ready k2" using before_interrupts_ready [OF k(1)] k(2) by (auto simp: handlers_ready_def enable_interrupts_def)
  then show "handlers_ready k'"
    by (rule run_steps_keeps [OF k(3), rotated]) (auto simp: steps_after_interrupts_def handlers_ready_def dest!: step_facts)
  have "interrupts_enabled (k_cpu k2)" using k(2) by (auto simp: enable_interrupts_def)
  then show "interrupts_enabled (k_cpu k')"
    by (rule run_steps_keeps [OF k(3), rotated]) (auto simp: steps_after_interrupts_def dest!: step_facts)
qed

text \<open>What the start leaves to the executor: the clock, the keyboard and the task numbers are untouched.\<close>

definition untouched where
  "untouched k = (timer (k_irq k), timer_locked (k_irq k), kbd_state (k_irq k), irq_log (k_irq k), k_next_id k)"

lemma log_at_untouched: "log_at E t l a k = Inr k' \<Longrightarrow> untouched k' = untouched k"
  by (auto simp: log_at_def bindR_Inr_iff untouched_def split: if_splits)

lemma log_lines_untouched: "forR (log_at E t l) lines k = Inr k' \<Longrightarrow> untouched k' = untouched k"
  by (rule forR_keeps [where f = "log_at E t l"]) (rule log_at_untouched)

lemma memory_steps_untouched:
  "heap_step E bi k = Inr k' \<Longrightarrow> untouched k' = untouched k"
  "acpi_step E bi k = Inr k' \<Longrightarrow> untouched k' = untouched k"
  by (auto simp: heap_step_def acpi_step_def set_world_def bindR_Inr_iff untouched_def)

lemma apic_step_untouched: "apic_step E bi k = Inr k' \<Longrightarrow> untouched k' = untouched k"
  unfolding apic_step_def bindR_Inr_iff region_warning_def
  by (auto simp: untouched_def [abs_def] split: option.splits dest!: log_at_keeps log_at_untouched)

lemma meta_init_untouched: "meta_init E bi k = Inr k' \<Longrightarrow> untouched k' = untouched k"
  by (auto simp: meta_init_def bindR_Inr_iff untouched_def [abs_def] split: sum.splits dest!: log_at_untouched)

lemma device_init_untouched:
  assumes "device_init E k = Inr k'"
  shows "untouched k' = untouched k"
proof -
  obtain reports d where r: "pci_init (pf_machine (e_platform E)) (hw (k_irq k)) = (reports, d)" by (rule prod.exhaust)
  from assms have "untouched k' = untouched (k\<lparr>k_irq := (k_irq k)\<lparr>hw := d\<rparr>\<rparr>)"
    unfolding device_init_def r Let_def case_prod_conv by (rule log_lines_untouched)
  then show ?thesis by (simp add: untouched_def)
qed

lemma cpu_steps_untouched:
  "logging_init k = Inr k' \<Longrightarrow> untouched k' = untouched k" "set_framebuffer bi k = Inr k' \<Longrightarrow> untouched k' = untouched k"
  "gdt_step E k = Inr k' \<Longrightarrow> untouched k' = untouched k" "init_idt k = Inr k' \<Longrightarrow> untouched k' = untouched k"
  "on_hw f k = Inr k' \<Longrightarrow> untouched k' = untouched k" "enable_interrupts k = Inr k' \<Longrightarrow> untouched k' = untouched k"
  by (auto simp: logging_init_def set_framebuffer_def gdt_step_def init_idt_def on_hw_def enable_interrupts_def bindR_Inr_iff
      untouched_def split: if_splits option.splits)

lemma kernel_init_untouched:
  assumes "kernel_init E bi k = Inr k'"
  shows "untouched k' = untouched k"
proof -
  have "untouched b = untouched a" if "f \<in> set (boot_steps E bi)" "f a = Inr b" for f a b
    using that by (auto simp: boot_steps_def steps_before_interrupts_def steps_after_interrupts_def
        dest: log_at_untouched memory_steps_untouched apic_step_untouched meta_init_untouched device_init_untouched cpu_steps_untouched)
  then show ?thesis
    using run_steps_keeps [OF assms [unfolded kernel_init_def], of "\<lambda>a. untouched a = untouched k"] by simp
qed

lemma kernel_init_boots:
  assumes crates: "log_docs E" "x86_docs (e_x86 E)" "mapper_docs (e_mapper E)" "gdt_docs (e_gdt E) gent groom"
      "e_stack E + STACK_SIZE < 2 ^ 47"
    and screen: "\<not> k_logger k" "bi_framebuffer bi = Some (buf, info)" "writer_ok (e_font E) (set_fb (screen (k_out k)) buf info)"
      "y_pos (set_fb (screen (k_out k)) buf info) + 18 * boot_text B r < 2 ^ 63"
    and memory: "bi_physical_memory_offset bi = Some off" "virt_new (e_x86 E) off = Inr off" "virt_add (e_x86 E) off (e_cr3 E) = Inr table"
      "memory_map_ok (bi_memory_regions bi)" "1024 + 3 * (pages + 3) \<le> length (frame_addresses (bi_memory_regions bi))"
      "\<And>i. i < 256 \<Longrightarrow> free_page (e_mapper E) (e_new_table E table off) (HEAP_START + 4096 * i)"
      "page_addr (km_pages (k_mem k)) = v" "0 < v" "4096 dvd v" "v + 4096 * (pages + 3 + 1) < 2 ^ 47"
      "\<forall>i < pages + 3. free_page (e_mapper E) (e_new_table E table off) (v + 4096 * i) \<and> v + 4096 * i \<notin> set heap_page_list"
    and heap: "k_heap k = fsb_new heap_empty mem" "global_alloc fb_alloc fb_dealloc fb_touch fb_inv adm HEAP_START (HEAP_START + HEAP_SIZE)"
      "\<And>i. i < length BLOCK_SIZES \<Longrightarrow> adm (class_layout i)" "e_fallback_init E heap_empty HEAP_START HEAP_SIZE = Inr f" "fb_inv f {}"
    and acpi: "bi_rsdp_addr bi = Some addr" "region_ok addr (rsdp_size (e_acpi E))" "dsdt (e_acpi E) t = Inr t0"
      "\<forall>(pa, sz) \<in> set (t0 # ssdts (e_acpi E) t). region_ok pa sz" "pages = acpi_pages (e_acpi E) addr (t0 # ssdts (e_acpi E) t) c"
      "tables_docs (e_mapper E) (apics_sane (e_x86 E) (pf_machine (e_platform E)) es pa n ent) (e_acpi E) addr t es c"
    and apics: "apics_sane (e_x86 E) (pf_machine (e_platform E)) es pa n ent (hw (k_irq k))"
      "ports_keep (e_platform E) (apics_sane (e_x86 E) (pf_machine (e_platform E)) es pa n ent)"
      "pa mod 4096 = 0x900" "pa + 0x2000 < 2 ^ 52" "find_io_apic es = Some a" "4096 dvd unat a"
      "ioapic_at (pf_machine (e_platform E)) (v + 4096 * pages + 8192) n sel ent" "2 \<le> unat n" "unat n < 120"
    and texts: "\<forall>e. minimal_parse (e_elf E) (get_elf_slice (bi_image bi) (e_image E)) = Inl e \<longrightarrow> length e \<le> 1000"
      "\<forall>r. sum_list (map (\<lambda>line. 70 + length line) (e_report_lines E r)) \<le> B"
  shows "\<exists>k'. kernel_init E bi k = Inr k' \<and> handlers_ready k' \<and> interrupts_enabled (k_cpu k') \<and> can_log E r k' \<and>
    safe_heap (fsb_alloc fb_alloc fb_touch) (fsb_dealloc fb_dealloc fb_touch) (fsb_touch fb_touch)
      adm HEAP_START (HEAP_START + HEAP_SIZE) (k_heap k')"
proof -
  let ?G = "apics_sane (e_x86 E) (pf_machine (e_platform E)) es pa n ent" and ?m0 = "e_new_table E table off"
  let ?heap = "(fsb_new heap_empty mem)\<lparr>fallback_allocator := f\<rparr>"
  let ?ok = "heap_mapped (e_mapper E) ?m0 (bi_memory_regions bi) (k_mem k)"
  have frames: "1024 \<le> length (frame_addresses (bi_memory_regions bi))" using memory(5) by simp
  note h = kernel_init_heap_ok [where new_table = "e_new_table E" and fb_init = "e_fallback_init E" and heap_empty = heap_empty
      and fb_inv = fb_inv and adm = adm and table = table, OF crates(2,3) memory(4,2,3,6) frames heap(2,3,4,5), of "k_mem k" mem]
  have heap_run: "\<exists>m' fa'. kernel_init_heap (e_x86 E) (e_mapper E) (e_new_table E) (e_fallback_init E) (e_cr3 E)
      (bi_physical_memory_offset bi) (bi_memory_regions bi) (k_mem k) (k_heap k) =
      Inr ((k_mem k)\<lparr>km_mapper := Some m', km_frames := Some fa'\<rparr>, ?heap) \<and>
    (\<forall>q. free_page (e_mapper E) m' q \<longleftrightarrow> free_page (e_mapper E) ?m0 q \<and> q \<notin> set heap_page_list) \<and>
    length (frame_addresses (bi_memory_regions bi)) \<le> frames_left fa' + 1024"
    unfolding memory(1) heap(1) using h by blast
  have safe: "safe_heap (fsb_alloc fb_alloc fb_touch) (fsb_dealloc fb_dealloc fb_touch) (fsb_touch fb_touch)
      adm HEAP_START (HEAP_START + HEAP_SIZE) ?heap"
    using h by blast
  note u = acpi_init_uses [OF crates(2,3) acpi(6,2,3,4), of "k_acpi k", folded acpi(5)]
  have "total (\<lambda>k'. k' = k) (run_steps (boot_steps E bi)) (roomy E (stage_done ?heap) r)"
  proof (rule boot_steps_total [where G = ?G and mem_ok = ?ok and es = es and v = "v + 4096 * pages" and B = B])
    show "total (roomy E (stage_start ?G k) m) (heap_step E bi) (roomy E (stage_heap ?G ?ok ?heap k) m)" for m
      by (rule heap_step_total [OF heap_run])
    show "total (roomy E (stage_heap ?G ?ok ?heap k) m) (acpi_step E bi) (roomy E (stage_acpi (e_mapper E) ?G es (v + 4096 * pages) ?heap) m)" for m
      by (rule acpi_step_total [OF acpi(1) u], rule heap_mapped_room [OF _ memory(7-11,5)])
    show "total (roomy E (stage_acpi (e_mapper E) ?G es (v + 4096 * pages) ?heap) (200 + m)) (apic_step E bi) (roomy E (stage_done ?heap) m)" for m
      by (rule apic_step_total [OF crates(1-3) apics(3-9)])
    show "total (\<lambda>k'. k' = k) logging_init (\<lambda>k'. k' = k\<lparr>k_logger := True\<rparr>)"
      by (rule first_steps_total [where G = ?G, OF screen apics(1)])
    show "total (\<lambda>k'. k' = k\<lparr>k_logger := True\<rparr>) (set_framebuffer bi) (roomy E (stage_start ?G k) m)" if "m = boot_text B r" for m
      unfolding that by (rule first_steps_total [where G = ?G, OF screen apics(1)])
  qed (rule crates apics gdt_step_total [OF crates(4,2,5)] meta_init_total [OF crates(1) texts(1)]
      device_init_total [OF crates(1) texts(2)])+
  then obtain k' where k': "kernel_init E bi k = Inr k'" "roomy E (stage_done ?heap) r k'"
    by (auto simp: total_def kernel_init_def)
  then show ?thesis using kernel_init_ready [OF k'(1)] safe by (simp add: roomy_def stage_done_def)
qed

end
