(* ===== verification/Console_Task.thy ===== *)
theory Console_Task
  imports Interrupts
begin

text \<open>
  The console at run time: \<^verbatim>\<open>Executor::run\<close> with the keyboard task as \<^verbatim>\<open>kernel_main\<close> leaves it, the interrupts that
  feed it, with the warnings they draw, and the screen lock that \<^verbatim>\<open>Console::backspace\<close> holds while interrupts
  are enabled. The state is that of the interrupt handlers together with the outputs. The queue of ready tasks is one
  object, shared by the executor and the wakers.
\<close>

section \<open>Interrupts that draw\<close>

type_synonym ('d, 's, 'a, 'q) console = "('d, 's, 'a, 'q) irq_state \<times> outputs"

text \<open>
  An interrupt with its effect on the screen. Only the keyboard handler logs above the level of a trace. Its
  \<^verbatim>\<open>interrupt_begin\<close> has freed the screen lock by then, so that the record can always be drawn. Between interrupts
  \<open>irq_log\<close> is empty.
\<close>

definition console_interrupt ::
  "('d, 's, 'a, 'q) platform \<Rightarrow> font \<Rightarrow> (Level \<Rightarrow> nat list) \<Rightarrow> frame_texts \<Rightarrow> u8 \<Rightarrow> ('d, 's, 'a, 'q) console \<Rightarrow>
   ('d, 's, 'a, 'q) console outcome" where
  "console_interrupt P F level_str fr v c =
     (let (st, out) = c
      in bindR (interrupt P fr v st) (\<lambda>st.
         bindR (forR (logger_log F level_str) (irq_log st) out) (\<lambda>out. Inr (st\<lparr>irq_log := []\<rparr>, out))))"

section \<open>Backspace\<close>

text \<open>
  \<^verbatim>\<open>Console::backspace\<close> takes the screen lock without disabling interrupts. Its steps, with the interrupts
  that arrive before each of them; the lock is released at the end.
\<close>

definition writer_lock :: "('d, 's, 'a, 'q) console \<Rightarrow> ('d, 's, 'a, 'q) console outcome" where
  "writer_lock c = (let (st, out) = c in
     if writer_locked st then Inl Diverges else Inr (st\<lparr>writer_locked := True\<rparr>, out))"

definition writer_unlock :: "('d, 's, 'a, 'q) console \<Rightarrow> ('d, 's, 'a, 'q) console outcome" where
  "writer_unlock c = (let (st, out) = c in Inr (st\<lparr>writer_locked := False\<rparr>, out))"

definition move_back :: "('d, 's, 'a, 'q) console \<Rightarrow> ('d, 's, 'a, 'q) console outcome" where
  "move_back c = (let (st, out) = c; w = screen out in
     bindR (sub_usize (x_pos w) (last_width w)) (\<lambda>x. Inr (st, out\<lparr>screen := w\<lparr>x_pos := x\<rparr>\<rparr>)))"

definition draw_space :: "font \<Rightarrow> ('d, 's, 'a, 'q) console \<Rightarrow> ('d, 's, 'a, 'q) console outcome" where
  "draw_space F c = (let (st, out) = c in
     bindR (write_char F (screen out) 0x20) (\<lambda>w. Inr (st, out\<lparr>screen := w\<rparr>)))"

definition backspace_steps :: "font \<Rightarrow> (('d, 's, 'a, 'q) console \<Rightarrow> ('d, 's, 'a, 'q) console outcome) list" where
  "backspace_steps F = [writer_lock, move_back, draw_space F, move_back, writer_unlock]"

definition backspace_interrupted ::
  "('d, 's, 'a, 'q) platform \<Rightarrow> font \<Rightarrow> (Level \<Rightarrow> nat list) \<Rightarrow> frame_texts \<Rightarrow> u8 list list \<Rightarrow> ('d, 's, 'a, 'q) console \<Rightarrow>
   ('d, 's, 'a, 'q) console outcome" where
  "backspace_interrupted P F level_str fr arrivals c =
     forR (\<lambda>(vs, step) c. bindR (forR (console_interrupt P F level_str fr) vs c) step) (zip arrivals (backspace_steps F)) c"

section \<open>The executor with the keyboard task\<close>

text \<open>The state of the task is its decoder, once it was polled.\<close>

definition keyboard_poll ::
  "('d, 's, 'a, 'q) platform \<Rightarrow> ('b \<Rightarrow> u8 \<Rightarrow> DecodedKey option \<times> 'b) \<Rightarrow> 'b \<Rightarrow> font \<Rightarrow>
   ('b option, TaskWaker, ('d, 's, 'a, 'q) console) poll_fn" where
  "keyboard_poll P decode keyboard_new F task cx c =
     (let (st, out) = c
      in bindR (print_keypresses (pf_scancode_queue P) (pf_waker P) cx decode keyboard_new F task (kbd_state st) out) (\<lambda>(k, keyboard, out).
           Inr (Pending, Some keyboard, [], st\<lparr>kbd_state := k\<rparr>, out)))"

text \<open>One call of \<^verbatim>\<open>run_ready_tasks\<close>: the executor sees the shared queue, and leaves it as it is then.\<close>

definition run_ready_console ::
  "('d, 's, 'a, 'q) platform \<Rightarrow> ('b \<Rightarrow> u8 \<Rightarrow> DecodedKey option \<times> 'b) \<Rightarrow> 'b \<Rightarrow> font \<Rightarrow>
   ('b option, 'q) Executor \<times> ('d, 's, 'a, 'q) console \<Rightarrow> (('b option, 'q) Executor \<times> ('d, 's, 'a, 'q) console) outcome" where
  "run_ready_console P decode keyboard_new F x =
     (let (ex, st, out) = x
      in bindR (run_ready_tasks (pf_task_queue P) (keyboard_poll P decode keyboard_new F)
           (ex\<lparr>task_queue := ready_queue (kbd_state st)\<rparr>) (st, out)) (\<lambda>(ex, st, out).
           Inr (ex, st\<lparr>kbd_state := (kbd_state st)\<lparr>ready_queue := task_queue ex\<rparr>\<rparr>, out)))"

text \<open>
  One turn of \<^verbatim>\<open>run\<close>: the ready tasks, then \<^verbatim>\<open>sleep_if_idle\<close>, then the interrupts that arrive before the next
  turn. If the processor halts and none arrives, it stays halted.
\<close>

definition run_turn ::
  "('d, 's, 'a, 'q) platform \<Rightarrow> ('b \<Rightarrow> u8 \<Rightarrow> DecodedKey option \<times> 'b) \<Rightarrow> 'b \<Rightarrow> font \<Rightarrow> (Level \<Rightarrow> nat list) \<Rightarrow> frame_texts \<Rightarrow> u8 list \<Rightarrow>
   ('b option, 'q) Executor \<times> ('d, 's, 'a, 'q) console \<Rightarrow> (('b option, 'q) Executor \<times> ('d, 's, 'a, 'q) console) outcome" where
  "run_turn P decode keyboard_new F level_str fr vs x =
     bindR (run_ready_console P decode keyboard_new F x) (\<lambda>(ex, c).
       if sleep_if_idle (pf_task_queue P) ex = Enable_And_Hlt \<and> vs = [] then Inl Diverges
       else bindR (forR (console_interrupt P F level_str fr) vs c) (\<lambda>c. Inr (ex, c)))"

text \<open>The state in which \<^verbatim>\<open>kernel_main\<close> calls \<^verbatim>\<open>run\<close>: the task is spawned and was never polled.\<close>

definition console_start ::
  "('d, 's, 'a, 'q) platform \<Rightarrow> TaskId \<Rightarrow> ('d, 's, 'a, 'q) irq_state \<Rightarrow> outputs \<Rightarrow>
   (('b option, 'q) Executor \<times> ('d, 's, 'a, 'q) console) outcome" where
  "console_start P i st out =
     bindR (spawn (pf_task_queue P) \<lparr>task_id = i, future = None\<rparr> (executor_new (pf_task_queue P))) (\<lambda>ex.
       Inr (ex, st\<lparr>kbd_state := (kbd_state st)\<lparr>ready_queue := task_queue ex\<rparr>\<rparr>, out))"

text \<open>\<^verbatim>\<open>run\<close>, which never returns, as far as the call of \<^verbatim>\<open>run_ready_tasks\<close> after so many turns.\<close>

definition executor_run ::
  "('d, 's, 'a, 'q) platform \<Rightarrow> ('b \<Rightarrow> u8 \<Rightarrow> DecodedKey option \<times> 'b) \<Rightarrow> 'b \<Rightarrow> font \<Rightarrow> (Level \<Rightarrow> nat list) \<Rightarrow> frame_texts \<Rightarrow> u8 list list \<Rightarrow>
   ('b option, 'q) Executor \<times> ('d, 's, 'a, 'q) console \<Rightarrow> (('b option, 'q) Executor \<times> ('d, 's, 'a, 'q) console) outcome" where
  "executor_run P decode keyboard_new F level_str fr vss x =
     bindR (forR (run_turn P decode keyboard_new F level_str fr) vss x) (run_ready_console P decode keyboard_new F)"

section \<open>Interrupts that find room\<close>

lemma interrupt_keyboard:
  assumes "in8 (pf_machine P) (hw st) 0x60 = (c, d)"
  shows "interrupt P fr 33 st = bindR (add_scancode (pf_task_queue P) (pf_scancode_queue P) (pf_waker P) c (kbd_state st)) (\<lambda>k.
    Inr ((interrupt_begin st)\<lparr>kbd_state := k, irq_log := irq_log st @ (case scancode_warning (pf_scancode_queue P) c (kbd_state st) of
      None \<Rightarrow> [] | Some r \<Rightarrow> [r]), hw := notify_end_of_interrupt (pf_pics P) d 33\<rparr>))"
  using assms by (simp add: interrupt_def IDT_device_vectors run_handler_def keyboard_interrupt_handler_def PIC_1_OFFSET_def)

lemma add_scancode_room:
  assumes A: "aq_docs A items cap" and S: "aq_docs S sitems scap" and W: "aw_docs W held"
    and q: "scancode_queue k = Some q" "length (sitems q) < scap q"
    and room: "held (kbd_waker k) = None \<or> length (items (ready_queue k)) < cap (ready_queue k)"
  obtains k' q' where "add_scancode A S W c k = Inr k'" and "scancode_queue k' = Some q'" and "sitems q' = sitems q @ [c]"
    and "scap q' = scap q" and "held (kbd_waker k') = None" and "cap (ready_queue k') = cap (ready_queue k)"
    and "items (ready_queue k') = items (ready_queue k) @ (case held (kbd_waker k) of None \<Rightarrow> [] | Some w \<Rightarrow> [tw_task_id w])"
    and "scancode_warning S c k = None"
proof -
  obtain q' where q': "aq_push S q c = Some q'" "sitems q' = sitems q @ [c]" "scap q' = scap q"
    using aq_pushE [OF S q(2)] .
  obtain w cell where w: "aw_wake W (kbd_waker k) = (w, cell)" by (rule prod.exhaust)
  then have held: "w = held (kbd_waker k)" "held cell = None"
    using W unfolding aw_docs_def by (metis fst_conv, metis snd_conv)
  have quiet: "scancode_warning S c k = None" by (simp add: scancode_warning_def q(1) q'(1) Let_def)
  show ?thesis
  proof (cases w)
    case None
    then have "add_scancode A S W c k = Inr (k\<lparr>scancode_queue := Some q', kbd_waker := cell\<rparr>)"
      by (simp add: add_scancode_def q(1) q'(1) w)
    then show ?thesis using q' held(2) held(1) [symmetric] None quiet
      by (intro that [of "k\<lparr>scancode_queue := Some q', kbd_waker := cell\<rparr>" q']) simp_all
  next
    case (Some t)
    then obtain rq where rq: "aq_push A (ready_queue k) (tw_task_id t) = Some rq"
      "items rq = items (ready_queue k) @ [tw_task_id t]" "cap rq = cap (ready_queue k)"
      using room held(1) aq_pushE [OF A] by (metis option.distinct(1))
    have "add_scancode A S W c k = Inr (k\<lparr>scancode_queue := Some q', kbd_waker := cell, ready_queue := rq\<rparr>)"
      by (simp add: add_scancode_def q(1) q'(1) w Some waker_defs rq(1))
    then show ?thesis using q' held(2) held(1) [symmetric] Some rq quiet
      by (intro that [of "k\<lparr>scancode_queue := Some q', kbd_waker := cell, ready_queue := rq\<rparr>" q']) simp_all
  qed
qed

text \<open>Room for a number of timer and keyboard interrupts.\<close>

definition calm ::
  "('q \<Rightarrow> TaskId list) \<Rightarrow> ('q \<Rightarrow> nat) \<Rightarrow> ('s \<Rightarrow> u8 list) \<Rightarrow> ('s \<Rightarrow> nat) \<Rightarrow> ('a \<Rightarrow> TaskWaker option) \<Rightarrow> nat \<Rightarrow> ('d, 's, 'a, 'q) irq_state \<Rightarrow> bool" where
  "calm items cap sitems scap held n st \<longleftrightarrow>
     irq_log st = [] \<and> \<not> timer_locked st \<and> timer st + n < 2 ^ 64 \<and>
     (\<exists>q. scancode_queue (kbd_state st) = Some q \<and> length (sitems q) + n \<le> scap q) \<and>
     (held (kbd_waker (kbd_state st)) = None \<or>
      length (items (ready_queue (kbd_state st))) < cap (ready_queue (kbd_state st)))"

lemma calm_interrupt:
  assumes docs: "aq_docs (pf_task_queue P) items cap" "aq_docs (pf_scancode_queue P) sitems scap" "aw_docs (pf_waker P) held"
    and "calm items cap sitems scap held (Suc n) st" and "v = 32 \<or> v = 33"
  shows "\<exists>st'. console_interrupt P F level_str fr v (st, out) = Inr (st', out) \<and> calm items cap sitems scap held n st' \<and>
    (writer_locked st' \<longrightarrow> writer_locked st)"
  using assms(5)
proof
  assume v: "v = 32"
  then have "console_interrupt P F level_str fr v (st, out) = Inr (st\<lparr>timer := Suc (timer st),
      hw := notify_end_of_interrupt (pf_pics P) (hw st) 32\<rparr>, out)"
    using assms(4) by (simp add: console_interrupt_def interrupt_timer IDT_device_vectors calm_def)
  with assms(4) show ?thesis by (auto simp: calm_def)
next
  assume v: "v = 33"
  obtain q where q: "scancode_queue (kbd_state st) = Some q" "length (sitems q) < scap q" "length (sitems q) + Suc n \<le> scap q"
    and room: "held (kbd_waker (kbd_state st)) = None \<or> length (items (ready_queue (kbd_state st))) < cap (ready_queue (kbd_state st))"
    using assms(4) by (auto simp: calm_def)
  obtain c d where c: "in8 (pf_machine P) (hw st) 0x60 = (c, d)" by (rule prod.exhaust)
  obtain k' q' where k: "add_scancode (pf_task_queue P) (pf_scancode_queue P) (pf_waker P) c (kbd_state st) = Inr k'"
    "scancode_queue k' = Some q'" "sitems q' = sitems q @ [c]" "scap q' = scap q" "held (kbd_waker k') = None"
    "scancode_warning (pf_scancode_queue P) c (kbd_state st) = None"
    using add_scancode_room [OF docs q(1,2) room] by metis
  have "console_interrupt P F level_str fr v (st, out) =
      Inr ((interrupt_begin st)\<lparr>kbd_state := k', hw := notify_end_of_interrupt (pf_pics P) d 33\<rparr>, out)"
    using k assms(4) by (simp add: console_interrupt_def v interrupt_keyboard [OF c] calm_def)
  moreover have "calm items cap sitems scap held n ((interrupt_begin st)\<lparr>kbd_state := k', hw := notify_end_of_interrupt (pf_pics P) d 33\<rparr>)"
    using assms(4) q(3) k(2-5) by (simp add: calm_def)
  ultimately show ?thesis by (intro exI [of _ "(interrupt_begin st)\<lparr>kbd_state := k', hw := notify_end_of_interrupt (pf_pics P) d 33\<rparr>"]) simp
qed

lemma calm_interrupts:
  assumes docs: "aq_docs (pf_task_queue P) items cap" "aq_docs (pf_scancode_queue P) sitems scap" "aw_docs (pf_waker P) held"
    and "calm items cap sitems scap held (length vs + n) st" and "set vs \<subseteq> {32, 33}"
  shows "\<exists>st'. forR (console_interrupt P F level_str fr) vs (st, out) = Inr (st', out) \<and> calm items cap sitems scap held n st' \<and>
    (writer_locked st' \<longrightarrow> writer_locked st)"
  using assms(4,5)
proof (induction vs arbitrary: st)
  case (Cons v vs)
  obtain st1 where "console_interrupt P F level_str fr v (st, out) = Inr (st1, out)" "calm items cap sitems scap held (length vs + n) st1"
    "writer_locked st1 \<longrightarrow> writer_locked st"
    using calm_interrupt [OF docs, of "length vs + n" st v F level_str fr out] Cons.prems by auto
  with Cons.IH [of st1] Cons.prems(2) show ?case by auto
qed auto

lemma calm_lock [simp]: "calm items cap sitems scap held n (st\<lparr>writer_locked := b\<rparr>) = calm items cap sitems scap held n st"
  by (simp add: calm_def)

text \<open>Steps that only change the outputs do so whatever interrupts come between them.\<close>

definition on_outputs :: "(outputs \<Rightarrow> outputs outcome) \<Rightarrow> ('d, 's, 'a, 'q) console \<Rightarrow> ('d, 's, 'a, 'q) console outcome" where
  "on_outputs g c = (let (st, out) = c in bindR (g out) (\<lambda>out. Inr (st, out)))"

lemma calm_steps:
  assumes docs: "aq_docs (pf_task_queue P) items cap" "aq_docs (pf_scancode_queue P) sitems scap" "aw_docs (pf_waker P) held"
    and "calm items cap sitems scap held (length (concat arrivals) + n) st" and "set (concat arrivals) \<subseteq> {32, 33}"
    and "length arrivals = length gs"
  shows "case forR (\<lambda>g. g) gs out of
      Inl e \<Rightarrow> forR (\<lambda>(vs, step) c. bindR (forR (console_interrupt P F level_str fr) vs c) step) (zip arrivals (map on_outputs gs)) (st, out) = Inl e
    | Inr out' \<Rightarrow> \<exists>st'. forR (\<lambda>(vs, step) c. bindR (forR (console_interrupt P F level_str fr) vs c) step)
        (zip arrivals (map on_outputs gs)) (st, out) = Inr (st', out') \<and> calm items cap sitems scap held n st'"
  using assms(6,4,5)
proof (induction arrivals gs arbitrary: st out rule: list_induct2)
  case (Cons vs arrivals g gs)
  obtain st1 where st1: "forR (console_interrupt P F level_str fr) vs (st, out) = Inr (st1, out)"
    "calm items cap sitems scap held (length (concat arrivals) + n) st1"
    using calm_interrupts [OF docs, of vs "length (concat arrivals) + n" st F level_str fr out] Cons.prems by (auto simp: add.assoc)
  show ?case
  proof (cases "g out")
    case (Inr out1)
    with st1(1) Cons.IH [OF st1(2), of out1] Cons.prems(2) show ?thesis
      by (cases "forR (\<lambda>g. g) gs out1") (simp_all add: on_outputs_def)
  qed (use st1(1) in \<open>simp add: on_outputs_def\<close>)
qed simp

section \<open>Backspace and the screen lock\<close>

text \<open>
  C9: Interrupts during a backspace that find room for their scancodes do no harm. Wherever the timer and the keyboard
  interrupt \<^verbatim>\<open>Console::backspace\<close>, it draws what it would have drawn without them, panics exactly if it would
  have, and the screen lock is free afterwards.
\<close>

theorem backspace_interrupts_harmless:
  fixes P :: "('d, 's, 'a, 'q) platform"
  assumes docs: "aq_docs (pf_task_queue P) items cap" "aq_docs (pf_scancode_queue P) sitems scap" "aw_docs (pf_waker P) held"
    and calm: "calm items cap sitems scap held (length (concat arrivals)) st"
    and arr: "length arrivals = 5" "set (concat arrivals) \<subseteq> {32, 33}" and "\<not> writer_locked st"
  shows "case console_backspace F out of
      Inl e \<Rightarrow> backspace_interrupted P F level_str fr arrivals (st, out) = Inl e
    | Inr out' \<Rightarrow> \<exists>st'. backspace_interrupted P F level_str fr arrivals (st, out) = Inr (st', out') \<and> \<not> writer_locked st'"
proof -
  obtain v1 v2 v3 v4 v5 where a: "arrivals = [v1, v2, v3, v4, v5]"
    using arr(1) by (auto simp: length_Suc_conv numeral_eq_Suc)
  let ?irq = "console_interrupt P F level_str fr" and ?calm = "calm items cap sitems scap held"
  define go where "go out = bindR (sub_usize (x_pos (screen out)) (last_width (screen out))) (\<lambda>x.
      Inr (out\<lparr>screen := (screen out)\<lparr>x_pos := x\<rparr>\<rparr>))" for out :: outputs
  define space where "space out = bindR (write_char F (screen out) 0x20) (\<lambda>w. Inr (out\<lparr>screen := w\<rparr>))" for out :: outputs
  have steps: "backspace_steps F = [writer_lock] @ map on_outputs [go, space, go] @ [writer_unlock]"
    by (simp add: backspace_steps_def fun_eq_iff move_back_def draw_space_def on_outputs_def go_def space_def bindR_assoc Let_def)
  have alone: "console_backspace F out = forR (\<lambda>g. g) [go, space, go] out"
    by (simp add: console_backspace_def backspace_def go_def space_def bindR_assoc)
  obtain s1 where s1: "forR ?irq v1 (st, out) = Inr (s1, out)" "?calm (length (concat [v2, v3, v4]) + length v5) s1" "\<not> writer_locked s1"
    using calm_interrupts [OF docs, of v1 "length (concat [v2, v3, v4]) + length v5" st F level_str fr out] calm arr(2) assms(7)
    by (auto simp: a add.assoc)
  let ?s = "s1\<lparr>writer_locked := True\<rparr>" and ?do = "\<lambda>(vs, step) c. bindR (forR ?irq vs c) step"
  define mid where "mid = (zip [v2, v3, v4] (map on_outputs [go, space, go]) :: (u8 list \<times> (('d, 's, 'a, 'q) console \<Rightarrow> ('d, 's, 'a, 'q) console outcome)) list)"
  have mid: "zip arrivals (backspace_steps F) = (v1, writer_lock) # mid @ [(v5, writer_unlock)]" by (simp add: a steps mid_def)
  have last: "forR ?do [(v5, writer_unlock)] = (\<lambda>c. bindR (forR ?irq v5 c) writer_unlock)"
    by (simp add: fun_eq_iff bindR_def split: sum.split)
  have start: "backspace_interrupted P F level_str fr arrivals (st, out) =
      bindR (forR ?do mid (?s, out)) (\<lambda>c. bindR (forR ?irq v5 c) writer_unlock)"
    using s1(1,3) by (simp add: backspace_interrupted_def mid forR_append last writer_lock_def)
  have middle: "case console_backspace F out of
      Inl e \<Rightarrow> forR ?do mid (?s, out) = Inl e
    | Inr out' \<Rightarrow> \<exists>s2. forR ?do mid (?s, out) = Inr (s2, out') \<and> ?calm (length v5) s2"
    unfolding alone mid_def by (rule calm_steps [OF docs]) (use s1(2) arr(2) in \<open>auto simp: a\<close>)
  show ?thesis
  proof (cases "console_backspace F out")
    case (Inr out')
    then obtain s2 where s2: "forR ?do mid (?s, out) = Inr (s2, out')" "?calm (length v5 + 0) s2"
      using middle by auto
    obtain s3 where "forR ?irq v5 (s2, out') = Inr (s3, out')"
      using calm_interrupts [OF docs s2(2), of F level_str fr out'] arr(2) by (auto simp: a)
    then show ?thesis unfolding start s2(1) Inr by (simp add: writer_unlock_def)
  qed (use middle start in simp)
qed

text \<open>The record of a scancode that is dropped. Once it is drawn, the cursor is at the left border.\<close>

definition full_record :: Record where
  "full_record = \<lparr>rec_target = codes ''nocciolo_kernel::task::keyboard'', rec_level = Warn,
     rec_args = codes ''Scancode queue full; dropping keyboard input''\<rparr>"

lemma record_at_margin:
  assumes F: "font_docs F" and w: "writer_ok F (screen out)" "w_state (screen out) = Normal" "w_color (screen out) = White"
      "last_width (screen out) = CHAR_RASTER_WIDTH F"
    and room: "y_pos (screen out) + 18 * (length (log_line level_str r) + 1) < 2 ^ 63"
    and plain: "ESC \<notin> set (rec_target r)" "ESC \<notin> set (level_str (rec_level r))" "ESC \<notin> set (rec_args r)"
    and level: "rec_level r \<noteq> Trace"
  obtains out' where "logger_log F level_str r out = Inr out'" and "x_pos (screen out') = BORDER_PADDING"
    and "last_width (screen out') = CHAR_RASTER_WIDTH F"
proof -
  let ?line = "log_line level_str r @ [0x0A]" and ?w = "screen out"
  obtain out' where log: "logger_log F level_str r out = Inr out'" using logger_log_ok [OF F w(1) room] by blast
  then have str: "write_string F ?line ?w = Inr (screen out')"
    using level by (auto simp: logger_log_def vga_print_def serial_println_def serial_print_def bindR_Inr_iff)
  obtain xs where xs: "render Normal White ?line = xs @ [(0x0A, White)]"
    using log_line_render [where level_str = level_str and r = r, OF plain] by simp
  have "bindR (forR (put_styled F) (xs @ [(0x0A, White)]) ?w) (\<lambda>w'. Inr (set_style (render_end Normal White ?line) w')) = Inr (screen out')"
    using write_string_style [of ?w F ?line] str xs w(2,3) by simp
  then obtain w1 w2 where w1: "forR (put_styled F) xs ?w = Inr w1" "put_styled F (0x0A, White) w1 = Inr w2"
    and e: "screen out' = set_style (render_end Normal White ?line) w2"
    by (auto simp: forR_append bindR_Inr_iff)
  have "last_width w1 = CHAR_RASTER_WIDTH F" by (rule styled_width [OF F w1(1) w(4)])
  then have "x_pos w2 = BORDER_PADDING" "last_width w2 = CHAR_RASTER_WIDTH F"
    using w1(2) by (auto simp: put_styled_def put_char_def newline_def carriage_return_def bindR_Inr_iff)
  with that [OF log] e show ?thesis by (simp add: set_style_def)
qed


section \<open>Typing\<close>

text \<open>
  The keyboard controller: \<open>keys\<close> are the scancodes that it will deliver. Each interrupt reads one from the data port; the end of
  the interrupt changes none.
\<close>

definition ps2_docs :: "('d, 's, 'a, 'q) platform \<Rightarrow> ('d \<Rightarrow> u8 list) \<Rightarrow> bool" where
  "ps2_docs P keys \<longleftrightarrow>
     (\<forall>d c cs. keys d = c # cs \<longrightarrow> fst (in8 (pf_machine P) d 0x60) = c \<and> keys (snd (in8 (pf_machine P) d 0x60)) = cs) \<and>
     (\<forall>d v. keys (notify_end_of_interrupt (pf_pics P) d v) = keys d)"

text \<open>The executor has the keyboard task and no other, with the waker that belongs to it.\<close>

definition holds_task :: "TaskId \<Rightarrow> 'b option \<Rightarrow> ('b option, 'q) Executor \<Rightarrow> bool" where
  "holds_task i task ex \<longleftrightarrow> tasks ex = [i \<mapsto> \<lparr>task_id = i, future = task\<rparr>] \<and> waker_cache ex i \<in> {None, Some \<lparr>tw_task_id = i\<rparr>}"

text \<open>The state while the processor is halted, and with scancodes for a task that is ready.\<close>

definition idle_kbd ::
  "('q \<Rightarrow> TaskId list) \<Rightarrow> ('q \<Rightarrow> nat) \<Rightarrow> ('s \<Rightarrow> u8 list) \<Rightarrow> ('s \<Rightarrow> nat) \<Rightarrow> ('a \<Rightarrow> TaskWaker option) \<Rightarrow> TaskId \<Rightarrow> ('s, 'a, 'q) kbd \<Rightarrow> bool" where
  "idle_kbd items cap sitems scap held i k \<longleftrightarrow>
     (\<exists>q. scancode_queue k = Some q \<and> sitems q = [] \<and> scap q = 100) \<and> held (kbd_waker k) = Some \<lparr>tw_task_id = i\<rparr> \<and>
     items (ready_queue k) = [] \<and> cap (ready_queue k) = 100"

definition ready_kbd ::
  "('q \<Rightarrow> TaskId list) \<Rightarrow> ('q \<Rightarrow> nat) \<Rightarrow> ('s \<Rightarrow> u8 list) \<Rightarrow> ('s \<Rightarrow> nat) \<Rightarrow> TaskId \<Rightarrow> 'b option \<Rightarrow> u8 list \<Rightarrow> ('s, 'a, 'q) kbd \<Rightarrow> bool" where
  "ready_kbd items cap sitems scap i task cs k \<longleftrightarrow> items (ready_queue k) = [i] \<and> cap (ready_queue k) = 100 \<and>
     (case scancode_queue k of None \<Rightarrow> task = None \<and> cs = [] | Some q \<Rightarrow> task \<noteq> None \<and> sitems q = cs \<and> scap q = 100)"

lemma run_ready_one:
  assumes A: "aq_docs A items cap" and q: "items (task_queue ex) = [i]" and task: "holds_task i task ex"
  shows "poll task \<lparr>tw_task_id = i\<rparr> w = Inl e \<Longrightarrow> run_ready_tasks A poll ex w = Inl e"
    and "poll task \<lparr>tw_task_id = i\<rparr> w = Inr (Pending, f, [], w') \<Longrightarrow> \<exists>ex'. run_ready_tasks A poll ex w = Inr (ex', w') \<and>
      holds_task i f ex' \<and> items (task_queue ex') = [] \<and> cap (task_queue ex') = cap (task_queue ex)"
proof -
  obtain q' where q': "aq_pop A (task_queue ex) = Some (i, q')" "items q' = []" "cap q' = cap (task_queue ex)"
    using aq_popE [OF A q] .
  let ?ex = "ex\<lparr>task_queue := q'\<rparr>" and ?k = "\<lparr>tw_task_id = i\<rparr>"
  have t: "tasks ex i = Some \<lparr>task_id = i, future = task\<rparr>"
    and k: "(case waker_cache ex i of None \<Rightarrow> task_waker_new i | Some waker \<Rightarrow> waker) = ?k"
    using task by (auto simp: holds_task_def task_waker_new_def)
  show "run_ready_tasks A poll ex w = Inl e" if "poll task ?k w = Inl e"
    unfolding run_ready_tasks_def
    by (subst run_ready_loop.simps) (simp add: q'(1) run_task_def t k task_poll_def that)
  assume p: "poll task ?k w = Inr (Pending, f, [], w')"
  let ?ex' = "?ex\<lparr>waker_cache := (waker_cache ex)(i \<mapsto> ?k), tasks := (tasks ex)(i \<mapsto> \<lparr>task_id = i, future = f\<rparr>)\<rparr>"
  have "run_task A poll i ?ex w = Inr (?ex', w')" by (simp add: run_task_def t k task_poll_def p)
  moreover have "run_ready_loop A poll ?ex' w' = Some (Inr (?ex', w'))"
    by (subst run_ready_loop.simps) (simp add: aq_pop_empty [OF A q'(2)])
  ultimately have "run_ready_loop A poll ex w = Some (Inr (?ex', w'))"
    by (subst run_ready_loop.simps) (simp add: q'(1))
  moreover have "holds_task i f ?ex'" using task by (auto simp: holds_task_def)
  ultimately show "\<exists>ex'. run_ready_tasks A poll ex w = Inr (ex', w') \<and> holds_task i f ex' \<and>
      items (task_queue ex') = [] \<and> cap (task_queue ex') = cap (task_queue ex)"
    using q'(2,3) by (intro exI [of _ ?ex']) (simp add: run_ready_tasks_def)
qed

abbreviation typed :: "('b \<Rightarrow> u8 \<Rightarrow> DecodedKey option \<times> 'b) \<Rightarrow> font \<Rightarrow> u8 list \<Rightarrow> 'b \<times> outputs \<Rightarrow> ('b \<times> outputs) outcome" where
  "typed decode F \<equiv> forR (\<lambda>c (keyboard, out). handle_scancode decode F c keyboard out)"

lemma keyboard_poll_prints:
  assumes S: "aq_docs (pf_scancode_queue P) sitems scap" and W: "aw_docs (pf_waker P) held"
    and ready: "ready_kbd items cap sitems scap i task cs (kbd_state st)"
  shows "case typed decode F cs (case task of None \<Rightarrow> new | Some keyboard \<Rightarrow> keyboard, out) of
      Inl e \<Rightarrow> keyboard_poll P decode new F task cx (st, out) = Inl e
    | Inr (kb, out') \<Rightarrow> \<exists>q a. keyboard_poll P decode new F task cx (st, out) = Inr (Pending, Some kb, [],
          st\<lparr>kbd_state := (kbd_state st)\<lparr>scancode_queue := Some q, kbd_waker := a\<rparr>\<rparr>, out') \<and>
        sitems q = [] \<and> scap q = 100 \<and> held a = Some cx"
proof -
  let ?S = "pf_scancode_queue P" and ?W = "pf_waker P" and ?kb = "case task of None \<Rightarrow> new | Some keyboard \<Rightarrow> keyboard"
  obtain k q where k: "print_keypresses ?S ?W cx decode new F task (kbd_state st) out = run_loop (keypress_loop ?S ?W cx decode F k ?kb out)"
    "k = (kbd_state st)\<lparr>scancode_queue := Some q\<rparr>" "sitems q = cs" "scap q = 100"
  proof (cases task)
    case None
    then have "scancode_queue (kbd_state st) = None" "cs = []" using ready by (auto simp: ready_kbd_def split: option.splits)
    with that [of _ "aq_new ?S 100"] aq_newD [OF S, of 100] None show ?thesis
      by (simp add: print_keypresses_def scancode_stream_new_def)
  next
    case (Some kb)
    then obtain q where "scancode_queue (kbd_state st) = Some q" "sitems q = cs" "scap q = 100"
      using ready by (auto simp: ready_kbd_def split: option.splits)
    with that [of "kbd_state st" q] Some show ?thesis by (simp add: print_keypresses_def)
  qed
  have "scancode_queue k = Some q" by (simp add: k(2))
  note loop = keypress_loop_exact [OF S W this, where decode = decode and F = F and keyboard = ?kb and con = out and cx = cx]
  show ?thesis
  proof (cases "typed decode F cs (?kb, out)")
    case (Inl e)
    then show ?thesis using loop k by (simp add: keyboard_poll_def)
  next
    case (Inr r)
    then obtain kb out' where r: "r = (kb, out')" by (cases r)
    with loop Inr k(3) obtain q' a where "keypress_loop ?S ?W cx decode F k ?kb out =
        Some (Inr (k\<lparr>scancode_queue := Some q', kbd_waker := a\<rparr>, kb, out'))" "sitems q' = []" "scap q' = scap q" "held a = Some cx"
      by auto
    with Inr r k show ?thesis by (auto simp: keyboard_poll_def)
  qed
qed

lemma run_ready_console_prints:
  assumes docs: "aq_docs (pf_task_queue P) items cap" "aq_docs (pf_scancode_queue P) sitems scap" "aw_docs (pf_waker P) held"
    and ready: "ready_kbd items cap sitems scap i task cs (kbd_state st)" and task: "holds_task i task ex"
  shows "case typed decode F cs (case task of None \<Rightarrow> new | Some keyboard \<Rightarrow> keyboard, out) of
      Inl e \<Rightarrow> run_ready_console P decode new F (ex, st, out) = Inl e
    | Inr (kb, out') \<Rightarrow> \<exists>ex' st'. run_ready_console P decode new F (ex, st, out) = Inr (ex', st', out') \<and>
        holds_task i (Some kb) ex' \<and> idle_kbd items cap sitems scap held i (kbd_state st') \<and>
        items (task_queue ex') = [] \<and> hw st' = hw st \<and> irq_log st' = irq_log st"
proof -
  let ?ex = "ex\<lparr>task_queue := ready_queue (kbd_state st)\<rparr>" and ?poll = "keyboard_poll P decode new F"
  have q: "items (task_queue ?ex) = [i]" "cap (task_queue ?ex) = 100" and t: "holds_task i task ?ex"
    using ready task by (simp_all add: ready_kbd_def holds_task_def)
  note poll = keyboard_poll_prints [OF docs(2,3) ready, where decode = decode and F = F and new = new and out = out and cx = "\<lparr>tw_task_id = i\<rparr>"]
  show ?thesis
  proof (cases "typed decode F cs (case task of None \<Rightarrow> new | Some keyboard \<Rightarrow> keyboard, out)")
    case (Inl e)
    with poll have "?poll task \<lparr>tw_task_id = i\<rparr> (st, out) = Inl e" by simp
    from run_ready_one(1) [where poll = ?poll, OF docs(1) q(1) t this] Inl show ?thesis by (simp add: run_ready_console_def)
  next
    case (Inr r)
    then obtain kb out' where r: "r = (kb, out')" by (cases r)
    with Inr poll obtain q' a where p: "?poll task \<lparr>tw_task_id = i\<rparr> (st, out) = Inr (Pending, Some kb, [],
        st\<lparr>kbd_state := (kbd_state st)\<lparr>scancode_queue := Some q', kbd_waker := a\<rparr>\<rparr>, out')"
      and q': "sitems q' = []" "scap q' = 100" "held a = Some \<lparr>tw_task_id = i\<rparr>" by auto
    obtain ex' where "run_ready_tasks (pf_task_queue P) ?poll ?ex (st, out) =
        Inr (ex', st\<lparr>kbd_state := (kbd_state st)\<lparr>scancode_queue := Some q', kbd_waker := a\<rparr>\<rparr>, out')"
      "holds_task i (Some kb) ex'" "items (task_queue ex') = []" "cap (task_queue ex') = 100"
      using run_ready_one(2) [where poll = ?poll, OF docs(1) q(1) t p] q(2) by auto
    with Inr r q' show ?thesis by (auto simp: run_ready_console_def idle_kbd_def)
  qed
qed

lemma keys_arrive:
  assumes docs: "aq_docs (pf_task_queue P) items cap" "aq_docs (pf_scancode_queue P) sitems scap" "aw_docs (pf_waker P) held"
    and ps2: "ps2_docs P keys"
    and "scancode_queue (kbd_state st) = Some q" and "length (sitems q) + length cs \<le> scap q"
    and "irq_log st = [] \<and> keys (hw st) = cs @ rest"
    and "held (kbd_waker (kbd_state st)) = None \<or> length (items (ready_queue (kbd_state st))) < cap (ready_queue (kbd_state st))"
  shows "\<exists>st' q'. forR (console_interrupt P F level_str fr) (replicate (length cs) 33) (st, out) = Inr (st', out) \<and>
    scancode_queue (kbd_state st') = Some q' \<and> sitems q' = sitems q @ cs \<and> scap q' = scap q \<and> irq_log st' = [] \<and> keys (hw st') = rest \<and>
    cap (ready_queue (kbd_state st')) = cap (ready_queue (kbd_state st)) \<and>
    items (ready_queue (kbd_state st')) = items (ready_queue (kbd_state st)) @
      (if cs = [] then [] else case held (kbd_waker (kbd_state st)) of None \<Rightarrow> [] | Some w \<Rightarrow> [tw_task_id w])"
  using assms(5-8)
proof (induction cs arbitrary: st q)
  case (Cons c cs)
  have "keys (hw st) = c # (cs @ rest)" using Cons.prems(3) by simp
  with ps2 have "fst (in8 (pf_machine P) (hw st) 0x60) = c \<and> keys (snd (in8 (pf_machine P) (hw st) 0x60)) = cs @ rest"
    unfolding ps2_docs_def by blast
  then obtain d where d: "in8 (pf_machine P) (hw st) 0x60 = (c, d)" "keys d = cs @ rest"
    by (cases "in8 (pf_machine P) (hw st) 0x60") simp
  have room: "length (sitems q) < scap q" using Cons.prems(2) by simp
  obtain k' q' where k: "add_scancode (pf_task_queue P) (pf_scancode_queue P) (pf_waker P) c (kbd_state st) = Inr k'"
    "scancode_queue k' = Some q'" "sitems q' = sitems q @ [c]" "scap q' = scap q" "held (kbd_waker k') = None"
    "cap (ready_queue k') = cap (ready_queue (kbd_state st))"
    "items (ready_queue k') = items (ready_queue (kbd_state st)) @ (case held (kbd_waker (kbd_state st)) of None \<Rightarrow> [] | Some w \<Rightarrow> [tw_task_id w])"
    "scancode_warning (pf_scancode_queue P) c (kbd_state st) = None"
    using add_scancode_room [OF docs Cons.prems(1) room Cons.prems(4), of c] .
  let ?st = "(interrupt_begin st)\<lparr>kbd_state := k', hw := notify_end_of_interrupt (pf_pics P) d 33\<rparr>"
  have irq: "console_interrupt P F level_str fr 33 (st, out) = Inr (?st, out)"
    using k Cons.prems(3) by (simp add: console_interrupt_def interrupt_keyboard [OF d(1)])
  have keys: "irq_log ?st = [] \<and> keys (hw ?st) = cs @ rest" using ps2 d(2) Cons.prems(3) by (simp add: ps2_docs_def)
  have pre: "scancode_queue (kbd_state ?st) = Some q'" "length (sitems q') + length cs \<le> scap q'"
    "held (kbd_waker (kbd_state ?st)) = None \<or> length (items (ready_queue (kbd_state ?st))) < cap (ready_queue (kbd_state ?st))"
    using k Cons.prems(2) by simp_all
  obtain st' q2 where "forR (console_interrupt P F level_str fr) (replicate (length cs) 33) (?st, out) = Inr (st', out)"
    "scancode_queue (kbd_state st') = Some q2" "sitems q2 = sitems q' @ cs" "scap q2 = scap q'" "irq_log st' = []" "keys (hw st') = rest"
    "cap (ready_queue (kbd_state st')) = cap (ready_queue k')" "items (ready_queue (kbd_state st')) = items (ready_queue k')"
    using Cons.IH [OF pre(1,2) keys pre(3)] k(5) by auto
  then show ?case using k irq by (intro exI [of _ st'] exI [of _ q2]) simp
qed simp

text \<open>One turn of the loop: what was typed before is printed, the processor halts, and the next keys wake it.\<close>

lemma run_turn_prints:
  assumes docs: "aq_docs (pf_task_queue P) items cap" "aq_docs (pf_scancode_queue P) sitems scap" "aw_docs (pf_waker P) held"
    and ps2: "ps2_docs P keys"
    and ready: "ready_kbd items cap sitems scap i task cs (kbd_state st)" and task: "holds_task i task ex"
    and next_keys: "irq_log st = [] \<and> keys (hw st) = ds @ rest" "ds \<noteq> []" "length ds \<le> 100"
  shows "case typed decode F cs (case task of None \<Rightarrow> new | Some keyboard \<Rightarrow> keyboard, out) of
      Inl e \<Rightarrow> run_turn P decode new F level_str fr (replicate (length ds) 33) (ex, st, out) = Inl e
    | Inr (kb, out') \<Rightarrow> \<exists>ex' st'. run_turn P decode new F level_str fr (replicate (length ds) 33) (ex, st, out) = Inr (ex', st', out') \<and>
        holds_task i (Some kb) ex' \<and> ready_kbd items cap sitems scap i (Some kb) ds (kbd_state st') \<and> irq_log st' = [] \<and> keys (hw st') = rest"
proof (cases "typed decode F cs (case task of None \<Rightarrow> new | Some keyboard \<Rightarrow> keyboard, out)")
  case (Inl e)
  with run_ready_console_prints [OF docs ready task, where decode = decode and F = F and new = new and out = out] show ?thesis
    by (simp add: run_turn_def)
next
  case (Inr r)
  then obtain kb out' where r: "r = (kb, out')" by (cases r)
  with Inr run_ready_console_prints [OF docs ready task, where decode = decode and F = F and new = new and out = out]
  obtain ex' s where run: "run_ready_console P decode new F (ex, st, out) = Inr (ex', s, out')" "holds_task i (Some kb) ex'"
    "idle_kbd items cap sitems scap held i (kbd_state s)" "hw s = hw st" "irq_log s = irq_log st" by auto
  then obtain q where q: "scancode_queue (kbd_state s) = Some q" "length (sitems q) + length ds \<le> scap q" "sitems q = []" "scap q = 100"
    "held (kbd_waker (kbd_state s)) = Some \<lparr>tw_task_id = i\<rparr>" "items (ready_queue (kbd_state s)) = []" "cap (ready_queue (kbd_state s)) = 100"
    using next_keys(3) by (auto simp: idle_kbd_def)
  have k: "irq_log s = [] \<and> keys (hw s) = ds @ rest" using run(4,5) next_keys(1) by simp
  have w: "held (kbd_waker (kbd_state s)) = None \<or> length (items (ready_queue (kbd_state s))) < cap (ready_queue (kbd_state s))"
    using q by simp
  obtain st' q' where "forR (console_interrupt P F level_str fr) (replicate (length ds) 33) (s, out') = Inr (st', out')"
    "scancode_queue (kbd_state st') = Some q'" "sitems q' = ds" "scap q' = 100" "irq_log st' = []" "keys (hw st') = rest"
    "items (ready_queue (kbd_state st')) = [i]" "cap (ready_queue (kbd_state st')) = 100"
    using keys_arrive [OF docs ps2 q(1,2) k w, of F level_str fr out'] q next_keys(2) by auto
  with Inr r run(1,2) next_keys(2) show ?thesis by (auto simp: run_turn_def ready_kbd_def)
qed

lemma executor_run_prints:
  assumes docs: "aq_docs (pf_task_queue P) items cap" "aq_docs (pf_scancode_queue P) sitems scap" "aw_docs (pf_waker P) held"
    and ps2: "ps2_docs P keys"
    and "ready_kbd items cap sitems scap i task cs (kbd_state st)" and "holds_task i task ex"
    and "irq_log st = [] \<and> keys (hw st) = concat batches @ rest" and "\<forall>b \<in> set batches. b \<noteq> [] \<and> length b \<le> 100"
  shows "case typed decode F (cs @ concat batches) (case task of None \<Rightarrow> new | Some keyboard \<Rightarrow> keyboard, out) of
      Inl e \<Rightarrow> executor_run P decode new F level_str fr (map (\<lambda>b. replicate (length b) 33) batches) (ex, st, out) = Inl e
    | Inr (kb, out') \<Rightarrow> \<exists>ex' st'. executor_run P decode new F level_str fr (map (\<lambda>b. replicate (length b) 33) batches) (ex, st, out) =
          Inr (ex', st', out') \<and> holds_task i (Some kb) ex' \<and> idle_kbd items cap sitems scap held i (kbd_state st') \<and>
        items (task_queue ex') = [] \<and> keys (hw st') = rest"
  using assms(5-8)
proof (induction batches arbitrary: task cs st ex out)
  case Nil
  note turn = run_ready_console_prints [OF docs Nil(1,2), where decode = decode and F = F and new = new and out = out]
  show ?case
  proof (cases "typed decode F cs (case task of None \<Rightarrow> new | Some keyboard \<Rightarrow> keyboard, out)")
    case (Inl e)
    with turn show ?thesis by (simp add: executor_run_def)
  next
    case (Inr r)
    then obtain kb out' where "r = (kb, out')" by (cases r)
    with Inr turn Nil(3) show ?thesis by (auto simp: executor_run_def)
  qed
next
  case (Cons ds batches)
  have k: "irq_log st = [] \<and> keys (hw st) = ds @ (concat batches @ rest)" "ds \<noteq> []" "length ds \<le> 100" using Cons.prems(3,4) by simp_all
  let ?kb = "case task of None \<Rightarrow> new | Some keyboard \<Rightarrow> keyboard"
  note turn = run_turn_prints [OF docs ps2 Cons.prems(1,2) k, where decode = decode and F = F and new = new and out = out
      and level_str = level_str and fr = fr]
  show ?case
  proof (cases "typed decode F cs (?kb, out)")
    case (Inl e)
    with turn show ?thesis by (simp add: executor_run_def forR_append)
  next
    case (Inr r)
    then obtain kb out1 where r: "r = (kb, out1)" by (cases r)
    with Inr turn obtain ex1 st1 where t: "run_turn P decode new F level_str fr (replicate (length ds) 33) (ex, st, out) = Inr (ex1, st1, out1)"
      "holds_task i (Some kb) ex1" "ready_kbd items cap sitems scap i (Some kb) ds (kbd_state st1)"
      "irq_log st1 = [] \<and> keys (hw st1) = concat batches @ rest"
      by auto
    have e1: "typed decode F (cs @ concat (ds # batches)) (?kb, out) = typed decode F (ds @ concat batches) (kb, out1)"
      using Inr r by (simp add: forR_append)
    have e2: "executor_run P decode new F level_str fr (map (\<lambda>b. replicate (length b) 33) (ds # batches)) (ex, st, out) =
        executor_run P decode new F level_str fr (map (\<lambda>b. replicate (length b) 33) batches) (ex1, st1, out1)"
      using t(1) by (simp add: executor_run_def)
    have "\<forall>b \<in> set batches. b \<noteq> [] \<and> length b \<le> 100" using Cons.prems(4) by simp
    from Cons.IH [OF t(3,2,4) this, of out1] show ?thesis unfolding e1 e2 by simp
  qed
qed

lemma executor_run_halts:
  fixes new :: 'b
  assumes docs: "aq_docs (pf_task_queue P) items cap" "aq_docs (pf_scancode_queue P) sitems scap" "aw_docs (pf_waker P) held" "ps2_docs P keys"
    and "ready_kbd items cap sitems scap i (None :: 'b option) [] (kbd_state st)" and "holds_task i None ex"
    and "irq_log st = [] \<and> keys (hw st) = concat batches @ rest" and "\<forall>b \<in> set batches. b \<noteq> [] \<and> length b \<le> 100"
  shows "let session = executor_run P decode new F level_str fr (map (\<lambda>b. replicate (length b) 33) batches) (ex, st, out)
    in case typed decode F (concat batches) (new, out) of
      Inl e \<Rightarrow> session = Inl e
    | Inr (kb, out') \<Rightarrow> \<exists>ex' st'. session = Inr (ex', st', out') \<and> sleep_if_idle (pf_task_queue P) ex' = Enable_And_Hlt \<and> keys (hw st') = rest"
proof -
  note run = executor_run_prints [OF assms, where decode = decode and F = F and new = new and out = out and level_str = level_str and fr = fr]
  show ?thesis
  proof (cases "typed decode F (concat batches) (new, out)")
    case (Inl e)
    with run show ?thesis by simp
  next
    case (Inr r)
    then obtain kb out' where r: "r = (kb, out')" by (cases r)
    with Inr run show ?thesis by (auto simp: sleep_if_idle_def aq_is_empty_iff [OF docs(1)])
  qed
qed

text \<open>
  C7: What is typed appears on the screen. From the state in which \<^verbatim>\<open>kernel_main\<close> starts the executor, whenever keys arrive
  while the processor is halted, in batches of at most 100 scancodes, the output at the next halt is that of decoding and
  printing all scancodes so far in their order, each with the decoder as the one before it left it; the kernel panics exactly if
  printing one of them does. After every batch the processor halts again, with nothing left to do.
\<close>

theorem console_echoes:
  assumes docs: "aq_docs (pf_task_queue P) items cap" "aq_docs (pf_scancode_queue P) sitems scap" "aw_docs (pf_waker P) held"
    and ps2: "ps2_docs P keys" and "scancode_queue (kbd_state st) = None"
    and typing: "irq_log st = [] \<and> keys (hw st) = concat batches @ rest" "\<forall>b \<in> set batches. b \<noteq> [] \<and> length b \<le> 100"
  shows "let session = bindR (console_start P i st out) (executor_run P decode new F level_str fr (map (\<lambda>b. replicate (length b) 33) batches))
    in case forR (\<lambda>c (keyboard, out). handle_scancode decode F c keyboard out) (concat batches) (new, out) of
      Inl e \<Rightarrow> session = Inl e
    | Inr (kb, out') \<Rightarrow> \<exists>ex' st'. session = Inr (ex', st', out') \<and> sleep_if_idle (pf_task_queue P) ex' = Enable_And_Hlt \<and> keys (hw st') = rest"
proof -
  obtain q where q: "aq_push (pf_task_queue P) (aq_new (pf_task_queue P) 100) i = Some q" "items q = [i]" "cap q = 100"
    using aq_pushE [OF docs(1), of "aq_new (pf_task_queue P) 100" i] aq_newD [OF docs(1), of 100] by auto
  let ?ex = "\<lparr>tasks = [i \<mapsto> \<lparr>task_id = i, future = None\<rparr>], task_queue = q, waker_cache = Map.empty\<rparr>"
  let ?st = "st\<lparr>kbd_state := (kbd_state st)\<lparr>ready_queue := q\<rparr>\<rparr>"
  have start: "console_start P i st out = Inr (?ex, ?st, out)" by (simp add: console_start_def spawn_def executor_new_def q(1))
  have ready: "ready_kbd items cap sitems scap i None [] (kbd_state ?st)" using q(2,3) assms(5) by (simp add: ready_kbd_def)
  have task: "holds_task i None ?ex" by (simp add: holds_task_def)
  have keys: "irq_log ?st = [] \<and> keys (hw ?st) = concat batches @ rest" using typing(1) by simp
  show ?thesis using executor_run_halts [OF docs ps2 ready task keys typing(2), where decode = decode and F = F and new = new and out = out
        and level_str = level_str and fr = fr] by (simp add: start)
qed

section \<open>Instances\<close>

text \<open>A platform whose device is the list of scancodes to come, and a task that is typed at.\<close>

definition keys_machine :: "u8 list machine" where
  "keys_machine = \<lparr>mmio_read = (\<lambda>d a. (0, d)), mmio_write = (\<lambda>d a x. d),
     in8 = (\<lambda>d p. if p = 0x60 then (case d of [] \<Rightarrow> (0, []) | c # cs \<Rightarrow> (c, cs)) else (0, d)), in16 = (\<lambda>d p. (0, d)), in32 = (\<lambda>d p. (0, d)),
     out8 = (\<lambda>d p v. d), out16 = (\<lambda>d p v. d), out32 = (\<lambda>d p v. d), rdmsr = (\<lambda>d r. 0), wrmsr = (\<lambda>d r v. d)\<rparr>"

definition keys_platform :: "(u8 list, nat \<times> u8 list, TaskWaker option, nat \<times> TaskId list) platform" where
  "keys_platform = \<lparr>pf_machine = keys_machine,
     pf_pics = \<lparr>pics_initialize = (\<lambda>d. d), pics_disable = (\<lambda>d. d), notify_end_of_interrupt = (\<lambda>d v. d)\<rparr>,
     pf_task_queue = list_queue, pf_scancode_queue = list_queue, pf_waker = option_waker, pf_general = (\<lambda>v. True)\<rparr>"

definition keys_state :: "(nat \<times> u8 list) option \<Rightarrow> u8 list \<Rightarrow> (u8 list, nat \<times> u8 list, TaskWaker option, nat \<times> TaskId list) irq_state" where
  "keys_state q cs = \<lparr>hw = cs, timer = 0, timer_locked = False, writer_locked = False, apics = \<lparr>io_instance = None, local_instance = None\<rparr>,
     kbd_state = \<lparr>scancode_queue = q, kbd_waker = None, ready_queue = (100, [])\<rparr>, irq_serial = [], irq_log = []\<rparr>"

definition blank_frame :: frame_texts where
  "blank_frame = \<lparr>frame = [], error_code = [], fault_address = [], fault_function = []\<rparr>"

lemma keys_fields: "pf_task_queue keys_platform = list_queue" "hw (keys_state q cs) = cs" "kbd_state (keys_state q cs) =
    \<lparr>scancode_queue = q, kbd_waker = None, ready_queue = (100, [])\<rparr>" "\<not> writer_locked (keys_state q cs)" "irq_log (keys_state q cs) = []"
  by (simp_all add: keys_platform_def keys_state_def)

lemma keys_docs:
  "aq_docs (pf_task_queue keys_platform) snd fst" "aq_docs (pf_scancode_queue keys_platform) snd fst" "aw_docs (pf_waker keys_platform) (\<lambda>a. a)"
  "ps2_docs keys_platform (\<lambda>d. d)"
  by (simp_all add: keys_platform_def list_queue_docs option_waker_docs ps2_docs_def keys_machine_def)

definition edited_outputs :: outputs where
  "edited_outputs = \<lparr>serial_out = [], screen = small_writer\<lparr>x_pos := 9, last_width := 8\<rparr>\<rparr>"

lemma edited_backspace: "\<exists>out'. console_backspace block_font edited_outputs = Inr out'"
proof -
  have "writer_ok block_font (small_writer\<lparr>x_pos := 9, last_width := 8\<rparr>)"
    using small_writer_ok by (simp add: writer_ok_def screen_ok_def small_writer_fields)
  from backspace_erases [OF block_font_docs this, of 1] show ?thesis
    by (auto simp: console_backspace_def edited_outputs_def small_writer_fields block_font_def BORDER_PADDING_def)
qed

theorem backspace_interrupts_harmless_witness:
  "\<exists>st' out'. backspace_interrupted keys_platform block_font level_names blank_frame [[33], [32], [], [33, 33], [32]]
     (keys_state (Some (100, [])) [0x1E, 0x9E, 0x1E], edited_outputs) = Inr (st', out') \<and>
     console_backspace block_font edited_outputs = Inr out'"
proof -
  have "calm snd fst snd fst (\<lambda>a. a) (length (concat [[33 :: u8], [32], [], [33, 33], [32]])) (keys_state (Some (100, [])) [0x1E, 0x9E, 0x1E])"
    by (simp add: calm_def keys_state_def)
  moreover obtain out' where "console_backspace block_font edited_outputs = Inr out'" using edited_backspace by blast
  ultimately show ?thesis
    using backspace_interrupts_harmless [OF keys_docs(1-3), where arrivals = "[[33], [32], [], [33, 33], [32]]"
        and st = "keys_state (Some (100, [])) [0x1E, 0x9E, 0x1E]" and F = block_font and out = edited_outputs
        and level_str = level_names and fr = blank_frame]
    by (auto simp: keys_fields)
qed


theorem console_echoes_witness:
  "\<exists>ex' st' out'. bindR (console_start keys_platform (TaskId 0) (keys_state None [0x1E, 0x9E, 0x1E]) \<lparr>serial_out = [], screen = small_writer\<rparr>)
     (executor_run keys_platform return_decoder 0 block_font level_names blank_frame [[33, 33], [33]]) = Inr (ex', st', out') \<and>
     sleep_if_idle list_queue ex' = Enable_And_Hlt \<and> hw st' = []"
proof -
  let ?out = "\<lparr>serial_out = [], screen = small_writer\<rparr>"
  have "\<exists>kb out'. typed return_decoder block_font (concat [[0x1E, 0x9E], [0x1E]]) (0, ?out) = Inr (kb, out')"
    by (simp add: handle_scancode_def return_decoder_def print_key_def vga_print_def write_string_def write_char_def put_char_def
        carriage_return_def small_writer_fields)
  then obtain kb out' where "typed return_decoder block_font (concat [[0x1E, 0x9E], [0x1E]]) (0, ?out) = Inr (kb, out')" by blast
  with console_echoes [OF keys_docs, where st = "keys_state None [0x1E, 0x9E, 0x1E]" and batches = "[[0x1E, 0x9E], [0x1E]]" and rest = "[]"
      and i = "TaskId 0" and out = ?out and decode = return_decoder and new = 0 and F = block_font and level_str = level_names and fr = blank_frame]
  show ?thesis by (auto simp: keys_fields numeral_2_eq_2)
qed

end
