(* ===== verification/Os_Runner.thy ===== *)
theory Os_Runner
  imports Prelude
begin

text \<open>
  \<^verbatim>\<open>os/src/main.rs\<close>: the host program that starts an emulator or a debugger on the disk images. The operating
  system is a record of operations on a host state \<open>'h\<close>; paths that the build passes in environment
  variables, and the program's arguments, are fields of \<open>Build\<close>. The variant for Unix is modelled, on an operating
  system other than macOS. \<^verbatim>\<open>os/build.rs\<close> and \<^verbatim>\<open>src/build.rs\<close>: the build scripts, with the disk image builder of the
  crate \<^verbatim>\<open>bootloader\<close> as a parameter.
\<close>

section \<open>The host\<close>

record Command =
  program :: string
  arguments :: "string list"
  directory :: "string option"

record 'h os_ops =
  op_exists :: "string \<Rightarrow> 'h \<Rightarrow> bool"
  op_which :: "string \<Rightarrow> 'h \<Rightarrow> bool"
  op_symlink :: "string \<Rightarrow> string \<Rightarrow> 'h \<Rightarrow> (string + unit) \<times> 'h"
  op_create_dir :: "string \<Rightarrow> 'h \<Rightarrow> (string + unit) \<times> 'h"
  op_copy :: "string \<Rightarrow> string \<Rightarrow> 'h \<Rightarrow> (string + unit) \<times> 'h"
  op_create_file :: "string \<Rightarrow> 'h \<Rightarrow> (string + unit) \<times> 'h"
  op_append_line :: "string \<Rightarrow> string \<Rightarrow> 'h \<Rightarrow> (string + unit) \<times> 'h"
  op_set_current_dir :: "string \<Rightarrow> 'h \<Rightarrow> (string + unit) \<times> 'h"
  op_current_dir :: "'h \<Rightarrow> string"
  op_print :: "string \<Rightarrow> 'h \<Rightarrow> 'h"
  op_spawn :: "Command \<Rightarrow> 'h \<Rightarrow> (string + unit) \<times> 'h"
  op_wait :: "Command \<Rightarrow> 'h \<Rightarrow> (string + unit) \<times> 'h"

record Build =
  KERNEL :: string
  UEFI_PATH :: string
  BIOS_PATH :: string
  CARGO_MANIFEST_DIR :: string
  ovmf_pure_efi :: string
  argv :: "string list"

section \<open>The build scripts\<close>

text \<open>
  \<^verbatim>\<open>os/build.rs\<close> and \<^verbatim>\<open>build.rs\<close>: make two disk images from the kernel, and pass their paths on to the compiler of the runner in
  lines that Cargo reads. The crate \<^verbatim>\<open>bootloader\<close> writes the images; \<open>create\<close> is what writing one does to the host. \<open>var_os\<close> are the
  variables that Cargo sets. The result are the lines.
\<close>

datatype ImageKind = UefiBoot | BiosBoot

text \<open>\<^verbatim>\<open>Path::join\<close> with a relative path.\<close>

definition path_join :: "string \<Rightarrow> string \<Rightarrow> string" where
  "path_join base name = (if base = [] \<or> last base = CHR 0x2F then base @ name else base @ CHR 0x2F # name)"

definition rustc_env :: "string \<Rightarrow> string \<Rightarrow> string" where
  "rustc_env name val = ''cargo:rustc-env='' @ name @ ''='' @ val"

definition KERNEL_VAR :: string where "KERNEL_VAR = ''CARGO_BIN_FILE_NOCCIOLO_KERNEL_nocciolo-kernel''"

definition os_build ::
  "(string \<Rightarrow> string option) \<Rightarrow> (ImageKind \<Rightarrow> string \<Rightarrow> string \<Rightarrow> 'h \<Rightarrow> (string + unit) \<times> 'h) \<Rightarrow> 'h \<Rightarrow> (string list \<times> 'h) outcome" where
  "os_build var_os create h =
     bindR (unwrapR ''OUT_DIR'' (var_os ''OUT_DIR'')) (\<lambda>out_dir.
     bindR (unwrapR KERNEL_VAR (var_os KERNEL_VAR)) (\<lambda>kernel_path.
     let uefi_path = path_join out_dir ''uefi.img''; (r, h) = create UefiBoot kernel_path uefi_path h
     in case r of Inl _ \<Rightarrow> Inl (Unwrap_Failed ''UefiBoot'') | Inr _ \<Rightarrow>
     let bios_path = path_join out_dir ''bios.img''; (r, h) = create BiosBoot kernel_path bios_path h
     in case r of Inl _ \<Rightarrow> Inl (Unwrap_Failed ''BiosBoot'') | Inr _ \<Rightarrow>
       Inr ([rustc_env ''KERNEL'' kernel_path, rustc_env ''UEFI_PATH'' uefi_path, rustc_env ''BIOS_PATH'' bios_path], h)))"

text \<open>The script at the top of the workspace does the same but does not pass the kernel's path on.\<close>

definition workspace_build ::
  "(string \<Rightarrow> string option) \<Rightarrow> (ImageKind \<Rightarrow> string \<Rightarrow> string \<Rightarrow> 'h \<Rightarrow> (string + unit) \<times> 'h) \<Rightarrow> 'h \<Rightarrow> (string list \<times> 'h) outcome" where
  "workspace_build var_os create h =
     bindR (unwrapR ''OUT_DIR'' (var_os ''OUT_DIR'')) (\<lambda>out_dir.
     bindR (unwrapR KERNEL_VAR (var_os KERNEL_VAR)) (\<lambda>kernel_path.
     let uefi_path = path_join out_dir ''uefi.img''; (r, h) = create UefiBoot kernel_path uefi_path h
     in case r of Inl _ \<Rightarrow> Inl (Unwrap_Failed ''UefiBoot'') | Inr _ \<Rightarrow>
     let bios_path = path_join out_dir ''bios.img''; (r, h) = create BiosBoot kernel_path bios_path h
     in case r of Inl _ \<Rightarrow> Inl (Unwrap_Failed ''BiosBoot'') | Inr _ \<Rightarrow>
       Inr ([rustc_env ''UEFI_PATH'' uefi_path, rustc_env ''BIOS_PATH'' bios_path], h)))"

section \<open>Computations with I/O\<close>

text \<open>A computation that may stop with an I/O error, which \<^verbatim>\<open>?\<close> passes on; panics are outside.\<close>

type_synonym ('h, 'a) io = "'h \<Rightarrow> ((string + 'a) \<times> 'h) outcome"

definition returnI :: "'a \<Rightarrow> ('h, 'a) io" where
  "returnI x h = Inr (Inr x, h)"

definition bindI :: "('h, 'a) io \<Rightarrow> ('a \<Rightarrow> ('h, 'b) io) \<Rightarrow> ('h, 'b) io" where
  "bindI m f h = bindR (m h) (\<lambda>(r, h). case r of Inl e \<Rightarrow> Inr (Inl e, h) | Inr x \<Rightarrow> f x h)"

definition liftI :: "('h \<Rightarrow> (string + 'a) \<times> 'h) \<Rightarrow> ('h, 'a) io" where
  "liftI f h = Inr (f h)"

text \<open>An operation whose error is discarded.\<close>

definition ignoreI :: "('h \<Rightarrow> (string + 'a) \<times> 'h) \<Rightarrow> ('h, unit) io" where
  "ignoreI f h = Inr (Inr (), snd (f h))"

definition printI :: "'h os_ops \<Rightarrow> string \<Rightarrow> ('h, unit) io" where
  "printI H s h = Inr (Inr (), op_print H s h)"

primrec eachI :: "('a \<Rightarrow> ('h, unit) io) \<Rightarrow> 'a list \<Rightarrow> ('h, unit) io" where
  "eachI f [] = returnI ()"
| "eachI f (x # xs) = bindI (f x) (\<lambda>_. eachI f xs)"

section \<open>Commands\<close>

definition command_new :: "string \<Rightarrow> Command" where
  "command_new p = \<lparr>program = p, arguments = [], directory = None\<rparr>"

definition cmd_args :: "string list \<Rightarrow> Command \<Rightarrow> Command" where
  "cmd_args xs c = c\<lparr>arguments := arguments c @ xs\<rparr>"

definition create_bochs_cmd :: Command where
  "create_bochs_cmd = cmd_args [''-q''] (command_new ''bochs'')"

definition arg_is :: "Build \<Rightarrow> nat \<Rightarrow> string \<Rightarrow> bool" where
  "arg_is B n s \<longleftrightarrow> n < length (argv B) \<and> argv B ! n = s"

definition create_qemu_cmd :: "Build \<Rightarrow> Command" where
  "create_qemu_cmd B =
     (let cmd = command_new ''qemu-system-x86_64'';
          cmd = cmd_args [''-no-reboot''] cmd;
          cmd = cmd_args [''-d'', ''int''] cmd;
          cmd = (if arg_is B 2 ''debug'' then cmd_args [''-s'', ''-S''] cmd else cmd)
      in if arg_is B 2 ''monitor'' then cmd_args [''-monitor'', ''stdio''] cmd
         else cmd_args [''-serial'', ''stdio''] cmd)"

definition lldb_lines :: "Build \<Rightarrow> string list" where
  "lldb_lines B =
     [''target create '' @ KERNEL B,
      ''target modules load --file '' @ KERNEL B @ '' --slide 0x8000000000'',
      ''gdb-remote localhost:1234'',
      ''breakpoint set --name alloc_error_handler'',
      ''breakpoint set --name page_fault_handler'',
      ''breakpoint set --name double_fault_handler'',
      ''breakpoint set --name breakpoint_handler'',
      ''breakpoint set --name hlt_loop'',
      ''breakpoint set --name fallback_allocator_oom'',
      ''breakpoint set --name timer_interrupt_handler'',
      ''breakpoint set --name spurious_io_apic_interrupt_handler'',
      ''breakpoint set --name spurious_local_apic_interrupt_handler'',
      ''breakpoint set --name breakpoint'']"

definition create_lldb_command :: "'h os_ops \<Rightarrow> Build \<Rightarrow> ('h, Command) io" where
  "create_lldb_command H B =
     (let cmd = command_new ''lldb''; path = ''target/lldb-input''
      in bindI (\<lambda>h. printI H (''Current dir: '' @ op_current_dir H h) h) (\<lambda>_.
         bindI (liftI (op_create_file H path)) (\<lambda>_.
         bindI (eachI (\<lambda>line. liftI (op_append_line H path line)) (lldb_lines B)) (\<lambda>_.
           returnI (cmd_args [''-s'', path] cmd)))))"

definition create_gdb_command :: "'h os_ops \<Rightarrow> Build \<Rightarrow> ('h, Command) io" where
  "create_gdb_command H B =
     (let cmd = command_new ''gdb''; path = ''target/.gdbinit''
      in bindI (liftI (op_create_file H path)) (\<lambda>_.
         bindI (eachI (\<lambda>line. liftI (op_append_line H path line))
           [''file '' @ KERNEL B, ''target remote localhost:1234'', ''b kernel_main'', ''continue'']) (\<lambda>_.
           returnI (cmd\<lparr>directory := Some ''target''\<rparr>))))"

definition setup_env :: "'h os_ops \<Rightarrow> Build \<Rightarrow> ('h, unit) io" where
  "setup_env H B h =
     (if \<not> op_exists H (KERNEL B) h then Inl (Panicked (''RIP file: '' @ KERNEL B))
      else bindI (ignoreI (op_symlink H (KERNEL B) ''target/kernel-bin'')) (\<lambda>_.
           bindI (ignoreI (op_create_dir H ''target/iso'')) (\<lambda>_.
             liftI (op_copy H (BIOS_PATH B) ''target/iso/nocciolo.img''))) h)"

definition does_command_exist :: "'h os_ops \<Rightarrow> string \<Rightarrow> 'h \<Rightarrow> bool" where
  "does_command_exist H name h = op_which H name h"

definition iso_help :: "string list" where
  "iso_help =
     [''OS> CLI tool `mkisofs` not found'' @ [CHR 0x0A],
      ''URL: https://codeberg.org/schilytools/schilytools'' @ [CHR 0x0A],
      ''Download Instructions:'',
      ''| OS      | Package Manager | Instructions'',
      ''|---------|-----------------|----------------------------'',
      ''| macOS   | macOS           | brew install cdrtools'',
      ''| macOS   | MacPorts        | sudo port install cdrtools'',
      ''| Linux   | apt             | sudo apt install cdrkit'',
      ''| Windows | Chocolately     | N/A'',
      ''| Windows | Scoop           | scoop install main/cdrtools'',
      ''| Windows | winget          | N/A'']"

definition iso_command :: "'h os_ops \<Rightarrow> Build \<Rightarrow> ('h, Command option) io" where
  "iso_command H B h =
     (if \<not> does_command_exist H ''mkisofs'' h then
        bindI (eachI (printI H) iso_help) (\<lambda>_. returnI None) h
      else bindI (ignoreI (op_create_dir H ''target/iso'')) (\<lambda>_.
           bindI (liftI (op_copy H (BIOS_PATH B) ''target/iso/nocciolo.img'')) (\<lambda>_.
             returnI (Some (cmd_args [''-U'', ''-no-emul-boot'', ''-b'', ''nocciolo.img'', ''-hide'', ''nocciolo.img'', ''-V'', ''Nocciolo'',
               ''-iso-level'', ''3'', ''-o'', ''target/iso/nocciolo.iso'', ''target/iso''] (command_new ''mkisofs''))))) h)"

text \<open>The match on the first argument; no command means that \<^verbatim>\<open>main\<close> returns at once.\<close>

definition select_command :: "'h os_ops \<Rightarrow> Build \<Rightarrow> ('h, Command option) io" where
  "select_command H B =
     (if arg_is B 1 ''lldb'' then bindI (create_lldb_command H B) (\<lambda>c. returnI (Some c))
      else if arg_is B 1 ''gdb'' then bindI (create_gdb_command H B) (\<lambda>c. returnI (Some c))
      else if arg_is B 1 ''bios'' then
        returnI (Some (cmd_args [''-drive'', ''format=raw,file='' @ BIOS_PATH B] (create_qemu_cmd B)))
      else if arg_is B 1 ''uefi'' then
        returnI (Some (cmd_args [''-drive'', ''format=raw,file='' @ UEFI_PATH B]
          (cmd_args [''-bios'', ovmf_pure_efi B] (create_qemu_cmd B))))
      else if arg_is B 1 ''info'' then
        bindI (printI H (''OS> UEFI_PATH: '' @ UEFI_PATH B)) (\<lambda>_.
        bindI (printI H (''OS> BIOS_PATH: '' @ BIOS_PATH B)) (\<lambda>_.
        bindI (printI H (''OS> KERNEL: '' @ KERNEL B)) (\<lambda>_. returnI None)))
      else if arg_is B 1 ''iso'' then iso_command H B
      else if arg_is B 1 ''bochs'' then
        bindI (liftI (op_set_current_dir H (CARGO_MANIFEST_DIR B @ ''/../tools/''))) (\<lambda>_. returnI (Some create_bochs_cmd))
      else if 1 < length (argv B) then
        bindI (printI H (''OS> Unknown command `'' @ argv B ! 1 @ ''`'')) (\<lambda>_. returnI None)
      else bindI (printI H ''OS> No command supplied! `uefi`, `bios`, `lldb`'') (\<lambda>_. returnI None))"

definition os_main :: "'h os_ops \<Rightarrow> Build \<Rightarrow> ('h, unit) io" where
  "os_main H B =
     bindI (setup_env H B) (\<lambda>_.
     bindI (select_command H B) (\<lambda>cmd.
       case cmd of None \<Rightarrow> returnI () | Some cmd \<Rightarrow>
         bindI (liftI (op_spawn H cmd)) (\<lambda>_. liftI (op_wait H cmd))))"

section \<open>What is run\<close>

text \<open>
  The operations of the host with respect to the commands that were started: starting one that succeeds adds it,
  and nothing else does.
\<close>

definition host_docs :: "'h os_ops \<Rightarrow> ('h \<Rightarrow> Command list) \<Rightarrow> bool" where
  "host_docs H started \<longleftrightarrow>
     (\<forall>h a b. started (snd (op_symlink H a b h)) = started h \<and> started (snd (op_create_dir H a h)) = started h \<and>
        started (snd (op_copy H a b h)) = started h \<and> started (snd (op_create_file H a h)) = started h \<and>
        started (snd (op_append_line H a b h)) = started h \<and> started (snd (op_set_current_dir H a h)) = started h \<and>
        started (op_print H a h) = started h) \<and>
     (\<forall>h c. started (snd (op_wait H c h)) = started h \<and>
        started (snd (op_spawn H c h)) = started h @ (case fst (op_spawn H c h) of Inl _ \<Rightarrow> [] | Inr _ \<Rightarrow> [c]))"

text \<open>A computation that returns, starts nothing, and has results with a property.\<close>

definition starts_nothing :: "('h \<Rightarrow> Command list) \<Rightarrow> ('a \<Rightarrow> bool) \<Rightarrow> ('h, 'a) io \<Rightarrow> bool" where
  "starts_nothing started P m \<longleftrightarrow> (\<forall>h. \<exists>r h'. m h = Inr (r, h') \<and> started h' = started h \<and> (\<forall>x. r = Inr x \<longrightarrow> P x))"

lemma starts_nothing_return: "P x \<Longrightarrow> starts_nothing started P (returnI x)"
  by (simp add: starts_nothing_def returnI_def)

lemma starts_nothing_bind:
  assumes "starts_nothing started Q m" and "\<And>x. Q x \<Longrightarrow> starts_nothing started P (f x)"
  shows "starts_nothing started P (bindI m f)"
  unfolding starts_nothing_def
proof
  fix h
  obtain r h1 where m: "m h = Inr (r, h1)" "started h1 = started h" "\<And>x. r = Inr x \<Longrightarrow> Q x"
    using assms(1) unfolding starts_nothing_def by blast
  show "\<exists>r h'. bindI m f h = Inr (r, h') \<and> started h' = started h \<and> (\<forall>x. r = Inr x \<longrightarrow> P x)"
  proof (cases r)
    case (Inr x)
    with assms(2) [OF m(3)] m(1,2) show ?thesis unfolding starts_nothing_def bindI_def by (metis (mono_tags) bindR_simps(2) case_prod_conv old.sum.simps(6))
  qed (use m in \<open>auto simp: bindI_def\<close>)
qed

lemma starts_nothing_each:
  "(\<And>x. starts_nothing started (\<lambda>_. True) (f x)) \<Longrightarrow> starts_nothing started (\<lambda>_. True) (eachI f xs)"
  by (induction xs) (auto intro: starts_nothing_return starts_nothing_bind)

lemma starts_nothing_lift:
  assumes "\<And>h. started (snd (f h)) = started h"
  shows "starts_nothing started (\<lambda>_. True) (liftI f)" and "starts_nothing started (\<lambda>_. True) (ignoreI f)"
proof -
  have "\<exists>r h'. Inr (f h) = Inr (r, h') \<and> started h' = started h" for h
    using assms by (intro exI [of _ "fst (f h)"] exI [of _ "snd (f h)"]) simp
  then show "starts_nothing started (\<lambda>_. True) (liftI f)" and "starts_nothing started (\<lambda>_. True) (ignoreI f)"
    using assms by (simp_all add: starts_nothing_def liftI_def ignoreI_def)
qed

lemma starts_nothing_ops:
  assumes "host_docs H started"
  shows "starts_nothing started (\<lambda>_. True) (\<lambda>h. printI H (t h) h)"
    and "starts_nothing started (\<lambda>_. True) (printI H s)"
    and "starts_nothing started (\<lambda>_. True) (liftI (op_create_file H a))"
    and "starts_nothing started (\<lambda>_. True) (liftI (op_append_line H a b))"
    and "starts_nothing started (\<lambda>_. True) (liftI (op_copy H a b))"
    and "starts_nothing started (\<lambda>_. True) (liftI (op_set_current_dir H a))"
    and "starts_nothing started (\<lambda>_. True) (ignoreI (op_symlink H a b))"
    and "starts_nothing started (\<lambda>_. True) (ignoreI (op_create_dir H a))"
proof -
  show "starts_nothing started (\<lambda>_. True) (\<lambda>h. printI H (t h) h)" "starts_nothing started (\<lambda>_. True) (printI H s)"
    using assms by (simp_all add: starts_nothing_def printI_def host_docs_def)
qed (use assms in \<open>auto intro!: starts_nothing_lift simp: host_docs_def\<close>)

lemmas starts_nothing_intros =
  starts_nothing_return starts_nothing_bind [where Q = "\<lambda>_. True"] starts_nothing_each starts_nothing_ops

text \<open>The program that each command of the runner starts.\<close>

definition runner_programs :: "(string \<times> string) list" where
  "runner_programs = [(''lldb'', ''lldb''), (''gdb'', ''gdb''), (''bios'', ''qemu-system-x86_64''),
     (''uefi'', ''qemu-system-x86_64''), (''iso'', ''mkisofs''), (''bochs'', ''bochs'')]"

definition expected :: "Build \<Rightarrow> Command option \<Rightarrow> bool" where
  "expected B cmd \<longleftrightarrow> (\<forall>c. cmd = Some c \<longrightarrow> 1 < length (argv B) \<and> map_of runner_programs (argv B ! 1) = Some (program c))"

lemma program_simps [simp]:
  "program (cmd_args xs c) = program c" "program (command_new p) = p" "program create_bochs_cmd = ''bochs''"
  "program (create_qemu_cmd B) = ''qemu-system-x86_64''"
  by (simp_all add: cmd_args_def command_new_def create_bochs_cmd_def create_qemu_cmd_def Let_def)

lemma select_command_expected:
  fixes H :: "'h os_ops"
  assumes "host_docs H started"
  shows "starts_nothing started (expected B) (select_command H B)"
proof -
  note ops = starts_nothing_ops [OF assms]
  have lldb: "starts_nothing started (\<lambda>c. program c = ''lldb'') (create_lldb_command H B)"
    unfolding create_lldb_command_def Let_def by (intro starts_nothing_intros assms) simp
  have gdb: "starts_nothing started (\<lambda>c. program c = ''gdb'') (create_gdb_command H B)"
    unfolding create_gdb_command_def Let_def by (intro starts_nothing_intros assms) simp
  have some: "expected B (Some c)" if "arg_is B 1 v" "map_of runner_programs v = Some (program c)" for v c
    using that by (simp add: expected_def arg_is_def)
  have none: "expected B None" by (simp add: expected_def)
  have iso: "starts_nothing started (expected B) (iso_command H B)" if "arg_is B 1 ''iso''"
  proof -
    let ?make = "bindI (ignoreI (op_create_dir H ''target/iso'')) (\<lambda>_.
           bindI (liftI (op_copy H (BIOS_PATH B) ''target/iso/nocciolo.img'')) (\<lambda>_.
             returnI (Some (cmd_args [''-U'', ''-no-emul-boot'', ''-b'', ''nocciolo.img'', ''-hide'', ''nocciolo.img'', ''-V'', ''Nocciolo'',
               ''-iso-level'', ''3'', ''-o'', ''target/iso/nocciolo.iso'', ''target/iso''] (command_new ''mkisofs'')))))"
      and ?hints = "bindI (eachI (printI H) iso_help) (\<lambda>_. returnI None)"
    have "starts_nothing started (expected B) ?make"
      by (intro starts_nothing_intros assms some [OF that]) (simp add: runner_programs_def)
    moreover have "starts_nothing started (expected B) ?hints"
      by (intro starts_nothing_intros assms none)
    ultimately show ?thesis unfolding starts_nothing_def iso_command_def by simp
  qed
  have tool: "starts_nothing started (expected B) (bindI m (\<lambda>c. returnI (Some c)))"
    if "arg_is B 1 v" "starts_nothing started (\<lambda>c. program c = v) m" "map_of runner_programs v = Some v" for v and m :: "('h, Command) io"
  proof (rule starts_nothing_bind [OF that(2)])
    fix c :: Command assume "program c = v"
    then have "expected B (Some c)" by (intro some [OF that(1)]) (simp add: that(3))
    then show "starts_nothing started (expected B) (returnI (Some c))" by (rule starts_nothing_return)
  qed
  have r: "map_of runner_programs ''lldb'' = Some ''lldb''" "map_of runner_programs ''gdb'' = Some ''gdb''"
    "map_of runner_programs ''bochs'' = Some (program create_bochs_cmd)"
    "\<And>xs. map_of runner_programs ''bios'' = Some (program (cmd_args xs (create_qemu_cmd B)))"
    "\<And>xs ys. map_of runner_programs ''uefi'' = Some (program (cmd_args xs (cmd_args ys (create_qemu_cmd B))))"
    by (simp_all add: runner_programs_def)
  show ?thesis
    unfolding select_command_def
    by (intro if_split [where P = "starts_nothing started (expected B)", THEN iffD2] conjI impI iso tool [OF _ lldb r(1)]
        tool [OF _ gdb r(2)] starts_nothing_intros assms none; (assumption | rule some [OF _ r(3)] some [OF _ r(4)] some [OF _ r(5)])+)
qed

lemma setup_env_exists:
  assumes "host_docs H started" and "op_exists H (KERNEL B) h"
  shows "\<exists>r h'. setup_env H B h = Inr (r, h') \<and> started h' = started h"
proof -
  have "starts_nothing started (\<lambda>_. True) (bindI (ignoreI (op_symlink H (KERNEL B) ''target/kernel-bin'')) (\<lambda>_.
      bindI (ignoreI (op_create_dir H ''target/iso'')) (\<lambda>_. liftI (op_copy H (BIOS_PATH B) ''target/iso/nocciolo.img''))))"
    by (intro starts_nothing_intros assms)
  then show ?thesis using assms(2) unfolding starts_nothing_def setup_env_def by fastforce
qed

section \<open>Properties\<close>

lemma os_main_runs:
  assumes "host_docs H started"
  shows "(op_exists H (KERNEL B) h \<longleftrightarrow> is_ok (os_main H B h)) \<and>
    (\<forall>r h'. os_main H B h = Inr (r, h') \<longrightarrow> started h' = started h \<or>
      (\<exists>c. started h' = started h @ [c] \<and> 1 < length (argv B) \<and> map_of runner_programs (argv B ! 1) = Some (program c))) \<and>
    (\<forall>r h'. os_main H B h = Inr (r, h') \<and> r = Inr () \<and> arg_is B 1 ''bios'' \<longrightarrow>
      (\<exists>c. started h' = started h @ [c] \<and> set [''-drive'', ''format=raw,file='' @ BIOS_PATH B] \<subseteq> set (arguments c) \<and>
        (''-serial'' \<in> set (arguments c) \<longleftrightarrow> ''-monitor'' \<notin> set (arguments c))))"
proof (cases "op_exists H (KERNEL B) h")
  case False
  then show ?thesis by (simp add: os_main_def bindI_def setup_env_def is_ok_def)
next
  case True
  then obtain r1 h1 where s: "setup_env H B h = Inr (r1, h1)" "started h1 = started h"
    using setup_env_exists [OF assms] by blast
  obtain r2 h2 where c: "select_command H B h1 = Inr (r2, h2)" "started h2 = started h1" "\<And>x. r2 = Inr x \<Longrightarrow> expected B x"
    using select_command_expected [OF assms] unfolding starts_nothing_def by metis
  have sp: "started (snd (op_wait H cmd h)) = started h"
    "started (snd (op_spawn H cmd h)) = started h @ (case fst (op_spawn H cmd h) of Inl _ \<Rightarrow> [] | Inr _ \<Rightarrow> [cmd])" for cmd h
    using assms by (simp_all add: host_docs_def)
  let ?qemu = "cmd_args [''-drive'', ''format=raw,file='' @ BIOS_PATH B] (create_qemu_cmd B)"
  have bios: "r2 = Inr (Some ?qemu)" if "arg_is B 1 ''bios''"
    using that c(1) by (auto simp: select_command_def arg_is_def returnI_def)
  have serial: "''-serial'' \<in> set (arguments (create_qemu_cmd B)) \<longleftrightarrow> ''-monitor'' \<notin> set (arguments (create_qemu_cmd B))"
    "''-serial'' \<noteq> ''format=raw,file='' @ BIOS_PATH B" "''-monitor'' \<noteq> ''format=raw,file='' @ BIOS_PATH B"
    by (auto simp: create_qemu_cmd_def cmd_args_def command_new_def Let_def)
  show ?thesis
  proof (cases "\<exists>cmd. r1 = Inr () \<and> r2 = Inr (Some cmd)")
    case False
    then have "\<exists>r h'. os_main H B h = Inr (r, h') \<and> started h' = started h \<and> (arg_is B 1 ''bios'' \<longrightarrow> r \<noteq> Inr ())"
      using s c(1,2) bios by (cases r1; cases r2) (auto simp: os_main_def bindI_def returnI_def split: option.split)
    with True show ?thesis by (auto simp: is_ok_def)
  next
    case cmd: True
    then obtain cmd where r: "r1 = Inr ()" "r2 = Inr (Some cmd)" by blast
    obtain sr h3 where sr: "op_spawn H cmd h2 = (sr, h3)" by (rule prod.exhaust)
    have run: "os_main H B h = (case sr of Inl e \<Rightarrow> Inr (Inl e, h3) | Inr _ \<Rightarrow> Inr (op_wait H cmd h3))"
      using s(1) c(1) r sr by (cases sr) (simp_all add: os_main_def bindI_def liftI_def)
    have st: "started h3 = started h @ (case sr of Inl _ \<Rightarrow> [] | Inr _ \<Rightarrow> [cmd])" "started (snd (op_wait H cmd h3)) = started h3"
      using sp(1) [of cmd h3] sp(2) [of cmd h2] sr s(2) c(2) by simp_all
    have e: "1 < length (argv B)" "map_of runner_programs (argv B ! 1) = Some (program cmd)"
      using c(3) [OF r(2)] by (simp_all add: expected_def)
    have b: "arg_is B 1 ''bios'' \<Longrightarrow> cmd = ?qemu" using bios r(2) by simp
    have q: "set [''-drive'', ''format=raw,file='' @ BIOS_PATH B] \<subseteq> set (arguments ?qemu)"
      "''-serial'' \<in> set (arguments ?qemu) \<longleftrightarrow> ''-monitor'' \<notin> set (arguments ?qemu)"
      using serial by (auto simp: cmd_args_def)
    show ?thesis
    proof (cases sr)
      case (Inl x)
      with True run st show ?thesis by (auto simp: is_ok_def)
    next
      case (Inr u)
      then have "os_main H B h = Inr (op_wait H cmd h3)" "started (snd (op_wait H cmd h3)) = started h @ [cmd]"
        using run st by simp_all
      with True e b q show ?thesis by (auto simp: is_ok_def)
    qed
  qed
qed

text \<open>
  C38: The runner panics exactly if the kernel was not built. Otherwise it returns, having started at
  most one program, and only the one that belongs to its first argument; for a boot from the BIOS image
  in an environment where nothing fails, this is the emulator with that image as its drive, with the serial
  port or the monitor on the terminal, never both.
\<close>

theorem os_main_starts_one:
  assumes "host_docs H started"
  shows "(op_exists H (KERNEL B) h \<longleftrightarrow> is_ok (os_main H B h)) \<and>
    (\<forall>r h'. os_main H B h = Inr (r, h') \<longrightarrow> started h' = started h \<or>
      (\<exists>c. started h' = started h @ [c] \<and> 1 < length (argv B) \<and> map_of runner_programs (argv B ! 1) = Some (program c))) \<and>
    (\<forall>r h'. os_main H B h = Inr (r, h') \<and> r = Inr () \<and> arg_is B 1 ''bios'' \<longrightarrow>
      (\<exists>c. started h' = started h @ [c] \<and> set [''-drive'', ''format=raw,file='' @ BIOS_PATH B] \<subseteq> set (arguments c) \<and>
        (''-serial'' \<in> set (arguments c) \<longleftrightarrow> ''-monitor'' \<notin> set (arguments c))))"
  using assms by (rule os_main_runs)

text \<open>
  C37: The runner boots what the build made. If the build script succeeds and Cargo hands its lines to the runner, then it
  has written both images from the same kernel, and a run for the BIOS that succeeds starts one program, the
  emulator, with exactly the BIOS image of that build as its drive. The older script at the top of the workspace
  succeeds exactly when this one does, but never names the kernel, which the runner needs.
\<close>

theorem build_then_run:
  assumes "host_docs H started" and "os_build var_os create h0 = Inr (lines, h1)" and "arg_is B 1 ''bios''"
    and "rustc_env ''BIOS_PATH'' (BIOS_PATH B) \<in> set lines" and "os_main H B h = Inr (Inr (), h')"
  shows "(\<exists>kernel uefi c h2. fst (create UefiBoot kernel uefi h0) = Inr () \<and> h2 = snd (create UefiBoot kernel uefi h0) \<and>
      create BiosBoot kernel (BIOS_PATH B) h2 = (Inr (), h1) \<and> rustc_env ''KERNEL'' kernel \<in> set lines \<and>
      started h' = started h @ [c] \<and> program c = ''qemu-system-x86_64'' \<and> ''format=raw,file='' @ BIOS_PATH B \<in> set (arguments c)) \<and>
    (\<exists>lines'. workspace_build var_os create h0 = Inr (lines', h1) \<and> (\<forall>kernel. rustc_env ''KERNEL'' kernel \<notin> set lines'))"
proof -
  obtain out_dir kernel where v: "var_os ''OUT_DIR'' = Some out_dir" "var_os KERNEL_VAR = Some kernel"
    using assms(2) by (auto simp: os_build_def bindR_Inr_iff)
  let ?uefi = "path_join out_dir ''uefi.img''" and ?bios = "path_join out_dir ''bios.img''"
  obtain r2 h2 where u: "create UefiBoot kernel ?uefi h0 = (r2, h2)" by (rule prod.exhaust)
  obtain r3 h3 where b: "create BiosBoot kernel ?bios h2 = (r3, h3)" by (rule prod.exhaust)
  have ok: "r2 = Inr ()" "r3 = Inr ()" "h3 = h1"
    "lines = [rustc_env ''KERNEL'' kernel, rustc_env ''UEFI_PATH'' ?uefi, rustc_env ''BIOS_PATH'' ?bios]"
    using assms(2) u b by (auto simp: os_build_def v split: sum.splits)
  have bios: "BIOS_PATH B = ?bios" using assms(4) by (simp add: ok(4) rustc_env_def)
  obtain c where c: "started h' = started h @ [c]" "''format=raw,file='' @ BIOS_PATH B \<in> set (arguments c)"
    using os_main_runs [OF assms(1), of B h] assms(3,5) by auto
  have "map_of runner_programs (argv B ! 1) = Some (program c)"
    using os_main_runs [OF assms(1), of B h] assms(5) c(1) by auto
  then have q: "program c = ''qemu-system-x86_64''" using assms(3) by (simp add: arg_is_def runner_programs_def)
  have "workspace_build var_os create h0 = Inr ([rustc_env ''UEFI_PATH'' ?uefi, rustc_env ''BIOS_PATH'' ?bios], h1)"
    using u b ok by (simp add: workspace_build_def v)
  moreover have "rustc_env ''KERNEL'' k \<notin> set [rustc_env ''UEFI_PATH'' ?uefi, rustc_env ''BIOS_PATH'' ?bios]" for k
    by (simp add: rustc_env_def)
  moreover have "\<exists>kernel uefi c h2. fst (create UefiBoot kernel uefi h0) = Inr () \<and> h2 = snd (create UefiBoot kernel uefi h0) \<and>
      create BiosBoot kernel (BIOS_PATH B) h2 = (Inr (), h1) \<and> rustc_env ''KERNEL'' kernel \<in> set lines \<and>
      started h' = started h @ [c] \<and> program c = ''qemu-system-x86_64'' \<and> ''format=raw,file='' @ BIOS_PATH B \<in> set (arguments c)"
    using u b ok c q by (intro exI [of _ kernel] exI [of _ ?uefi] exI [of _ c] exI [of _ h2]) (simp add: bios)
  ultimately show ?thesis by blast
qed

section \<open>An instance\<close>

text \<open>A host on which everything succeeds, and which remembers the commands.\<close>

definition sim_host :: "Command list os_ops" where
  "sim_host = \<lparr>op_exists = (\<lambda>_ _. True), op_which = (\<lambda>_ _. True), op_symlink = (\<lambda>_ _ h. (Inr (), h)),
     op_create_dir = (\<lambda>_ h. (Inr (), h)), op_copy = (\<lambda>_ _ h. (Inr (), h)), op_create_file = (\<lambda>_ h. (Inr (), h)),
     op_append_line = (\<lambda>_ _ h. (Inr (), h)), op_set_current_dir = (\<lambda>_ h. (Inr (), h)), op_current_dir = (\<lambda>_. ''/''),
     op_print = (\<lambda>_ h. h), op_spawn = (\<lambda>c h. (Inr (), h @ [c])), op_wait = (\<lambda>_ h. (Inr (), h))\<rparr>"

definition sim_build :: Build where
  "sim_build = \<lparr>KERNEL = ''kernel'', UEFI_PATH = ''uefi.img'', BIOS_PATH = ''bios.img'', CARGO_MANIFEST_DIR = ''os'',
     ovmf_pure_efi = ''ovmf'', argv = [''nocciolo'', ''bios'']\<rparr>"

theorem os_main_starts_one_witness:
  "\<exists>r h'. os_main sim_host sim_build [] = Inr (r, h') \<and> length h' \<le> 1"
proof -
  have d: "host_docs sim_host (\<lambda>h. h)" by (simp add: host_docs_def sim_host_def)
  have "op_exists sim_host (KERNEL sim_build) []" by (simp add: sim_host_def)
  with os_main_starts_one [OF d, of sim_build "[]"] show ?thesis by (fastforce simp: is_ok_iff)
qed

text \<open>A build that succeeds, on a host that remembers the images, and the runner compiled with its lines.\<close>

definition built :: Build where
  "built = sim_build\<lparr>KERNEL := ''k'', UEFI_PATH := ''out/uefi.img'', BIOS_PATH := ''out/bios.img''\<rparr>"

theorem build_then_run_witness:
  "\<exists>lines. os_build [''OUT_DIR'' \<mapsto> ''out'', KERNEL_VAR \<mapsto> ''k''] (\<lambda>kind kernel path h. (Inr (), h @ [(kind, path)])) [] =
     Inr (lines, [(UefiBoot, ''out/uefi.img''), (BiosBoot, ''out/bios.img'')]) \<and>
   (\<exists>c. os_main sim_host built [] = Inr (Inr (), [c]) \<and> ''format=raw,file=out/bios.img'' \<in> set (arguments c))"
proof -
  let ?vars = "[''OUT_DIR'' \<mapsto> ''out'', KERNEL_VAR \<mapsto> ''k'']" and ?create = "\<lambda>kind kernel path h. (Inr (), h @ [(kind, path)])"
  let ?lines = "[rustc_env ''KERNEL'' ''k'', rustc_env ''UEFI_PATH'' ''out/uefi.img'', rustc_env ''BIOS_PATH'' ''out/bios.img'']"
  have d: "host_docs sim_host (\<lambda>h. h)" by (simp add: host_docs_def sim_host_def)
  have b: "os_build ?vars ?create [] = Inr (?lines, [(UefiBoot, ''out/uefi.img''), (BiosBoot, ''out/bios.img'')])"
    by (simp add: os_build_def KERNEL_VAR_def path_join_def Let_def)
  have a: "arg_is built 1 ''bios''" by (simp add: arg_is_def built_def sim_build_def)
  have p: "rustc_env ''BIOS_PATH'' (BIOS_PATH built) \<in> set ?lines" by (simp add: built_def)
  have m: "\<exists>h'. os_main sim_host built [] = Inr (Inr (), h')"
    using a by (simp add: os_main_def bindI_def setup_env_def sim_host_def ignoreI_def liftI_def select_command_def arg_is_def built_def
        sim_build_def returnI_def)
  then obtain h' where h': "os_main sim_host built [] = Inr (Inr (), h')" by blast
  from build_then_run [OF d b a p h'] b h' show ?thesis by (fastforce simp: built_def)
qed

end
