(* ===== verification/Bump.thy ===== *)
theory Bump
  imports Alloc_Spec
begin

text \<open>
  \<^verbatim>\<open>kernel/src/allocator/bump.rs\<close>: an allocator that only advances a pointer and starts over when
  the last live block is freed. The state is the struct; the lock around it is taken for the whole
  of each operation. The null pointer is address \<open>0\<close>.
\<close>

record BumpAllocator =
  heap_start :: nat
  heap_end :: nat
  next_addr :: nat
  allocations :: nat

definition bump_new :: BumpAllocator where
  "bump_new = \<lparr>heap_start = 0, heap_end = 0, next_addr = 0, allocations = 0\<rparr>"

definition bump_init :: "BumpAllocator \<Rightarrow> nat \<Rightarrow> nat \<Rightarrow> BumpAllocator outcome" where
  "bump_init self start sz =
     bindR (add_usize start sz) (\<lambda>e.
       Inr (self\<lparr>heap_start := start, heap_end := e, next_addr := start\<rparr>))"

definition bump_alloc :: "BumpAllocator \<Rightarrow> layout \<Rightarrow> (nat \<times> BumpAllocator) outcome" where
  "bump_alloc bump l =
     bindR (align_up (next_addr bump) (l_align l)) (\<lambda>alloc_start.
       case checked_add alloc_start (l_size l) of
         None \<Rightarrow> Inr (0, bump)
       | Some alloc_end \<Rightarrow>
           if alloc_end > heap_end bump then Inr (0, bump)
           else bindR (add_usize (allocations bump) 1) (\<lambda>n.
             Inr (alloc_start, bump\<lparr>next_addr := alloc_end, allocations := n\<rparr>)))"

definition bump_dealloc :: "BumpAllocator \<Rightarrow> nat \<Rightarrow> layout \<Rightarrow> BumpAllocator outcome" where
  "bump_dealloc bump p l =
     bindR (sub_usize (allocations bump) 1) (\<lambda>n.
       let bump = bump\<lparr>allocations := n\<rparr>
       in Inr (if allocations bump = 0 then bump\<lparr>next_addr := heap_start bump\<rparr> else bump))"

text \<open>The allocator keeps nothing inside the heap, so client writes do not reach it.\<close>

definition bump_touch :: "BumpAllocator \<Rightarrow> nat \<Rightarrow> nat \<Rightarrow> BumpAllocator" where
  "bump_touch bump a n = bump"

text \<open>
  The invariant. The heap lies in the lower half of the address space (as \<^verbatim>\<open>HEAP_START\<close> does), so
  that rounding up cannot overflow; the counter is the number of live blocks, each of which accounts
  for at least one byte below \<open>next_addr\<close>; with no live block the whole heap is available again.
\<close>

definition bump_inv :: "nat \<Rightarrow> nat \<Rightarrow> BumpAllocator \<Rightarrow> block set \<Rightarrow> bool" where
  "bump_inv lo hi bump L \<longleftrightarrow>
     heap_start bump = lo \<and> heap_end bump = hi \<and> 0 < lo \<and> hi \<le> 2 ^ 63 \<and>
     next_addr bump \<le> hi \<and> finite L \<and> allocations bump = card L \<and>
     lo + card L \<le> next_addr bump \<and> (L = {} \<longrightarrow> next_addr bump = lo) \<and>
     (\<forall>b \<in> L. alloc_request (snd b)) \<and> blocks_ok lo (next_addr bump) L"

section \<open>The operations keep the invariant\<close>

lemma bump_alloc_eq:
  assumes "bump_inv lo hi bump L" and "alloc_request l"
  shows "bump_alloc bump l =
    (let a = aligned_above (next_addr bump) (l_align l)
     in if a + l_size l \<le> hi
        then Inr (a, bump\<lparr>next_addr := a + l_size l, allocations := Suc (card L)\<rparr>)
        else Inr (0, bump))"
proof -
  have l: "0 < l_align l" "l_align l \<le> 2 ^ 63"
    using assms(2) layout_ok_align [of l] by (auto simp: alloc_request_def)
  have b: "next_addr bump \<le> hi" "hi \<le> 2 ^ 63" "heap_end bump = hi" "allocations bump = card L"
    "lo + card L \<le> next_addr bump"
    using assms(1) by (auto simp: bump_inv_def)
  have au: "align_up (next_addr bump) (l_align l) =
      Inr (aligned_above (next_addr bump) (l_align l))"
    by (rule align_up_ok) (use b l in simp_all)
  show ?thesis
    using b by (auto simp: bump_alloc_def au usize_defs Let_def)
qed

lemma bump_alloc_inv:
  assumes inv: "bump_inv lo hi bump L" and req: "alloc_request l"
    and al: "bump_alloc bump l = Inr (p, bump')" and p: "p \<noteq> 0"
  shows "fresh (p, l) L" and "bump_inv lo hi bump' (insert (p, l) L)"
proof -
  define a where "a = aligned_above (next_addr bump) (l_align l)"
  have l: "0 < l_align l" "0 < l_size l"
    using req layout_ok_align [of l] by (auto simp: alloc_request_def)
  have res: "p = a" "bump' = bump\<lparr>next_addr := a + l_size l, allocations := Suc (card L)\<rparr>"
    and fits: "a + l_size l \<le> hi"
    using al p by (auto simp: bump_alloc_eq [OF inv req] a_def Let_def split: if_splits)
  have a: "l_align l dvd a" "next_addr bump \<le> a"
    using aligned_above_props [OF l(1), of "next_addr bump"] by (simp_all add: a_def)
  have below: "\<forall>b \<in> L. in_heap lo (next_addr bump) b" and ok: "blocks_ok lo (next_addr bump) L"
    using inv by (auto simp: bump_inv_def blocks_ok_def)
  show fr: "fresh (p, l) L"
    using below a by (fastforce simp: fresh_def block_disjoint_def apart_def in_heap_def res)
  have ok': "blocks_ok lo (a + l_size l) L"
    using ok a(2) by (fastforce simp: blocks_ok_def in_heap_def)
  have "blocks_ok lo (a + l_size l) (insert (p, l) L)"
    using fr a inv by (intro blocks_ok_insert ok') (auto simp: in_heap_def res bump_inv_def)
  then show "bump_inv lo hi bump' (insert (p, l) L)"
    using inv req a fits l(2) fresh_not_member [OF fr] by (auto simp: bump_inv_def res)
qed

lemma bump_dealloc_inv:
  assumes inv: "bump_inv lo hi bump L" and live: "(p, l) \<in> L"
  shows "\<exists>bump'. bump_dealloc bump p l = Inr bump' \<and> bump_inv lo hi bump' (L - {(p, l)})"
proof -
  have fin: "finite L" and n: "allocations bump = card L" using inv by (auto simp: bump_inv_def)
  have pos: "0 < card L" using fin live by (auto simp: card_gt_0_iff)
  have c: "card (L - {(p, l)}) = card L - 1" using fin live by simp
  show ?thesis
  proof (cases "card L = 1")
    case True
    then have "L = {(p, l)}" using live by (metis card_1_singletonE singletonD)
    with True inv n show ?thesis
      by (auto simp: bump_dealloc_def usize_defs bump_inv_def Let_def)
  next
    case False
    have "\<not> L \<subseteq> {(p, l)}" using card_mono [of "{(p, l)}" L] False pos by fastforce
    then have ne: "L - {(p, l)} \<noteq> {}" by blast
    have "bump_dealloc bump p l = Inr (bump\<lparr>allocations := card L - 1\<rparr>)"
      using False pos n by (simp add: bump_dealloc_def usize_defs)
    moreover have "bump_inv lo hi (bump\<lparr>allocations := card L - 1\<rparr>) (L - {(p, l)})"
      using inv c ne blocks_ok_subset [of lo "next_addr bump" L "L - {(p, l)}"]
      by (auto simp: bump_inv_def)
    ultimately show ?thesis by blast
  qed
qed

lemma bump_inv_blocks: "bump_inv lo hi bump L \<Longrightarrow> blocks_ok lo hi L"
  unfolding bump_inv_def blocks_ok_def in_heap_def by (meson order_trans)

lemma bump_inv_nonnull: "bump_inv lo hi bump L \<Longrightarrow> (p, l) \<in> L \<Longrightarrow> p \<noteq> 0 \<and> alloc_request l"
  by (auto simp: bump_inv_def blocks_ok_def in_heap_def)

interpretation bump_heap:
  global_alloc bump_alloc bump_dealloc bump_touch "bump_inv lo hi" alloc_request lo hi for lo hi
proof
  fix s L l
  assume i: "bump_inv lo hi s L" and r: "alloc_request l"
  show "\<exists>p s'. bump_alloc s l = Inr (p, s')"
    by (auto simp: bump_alloc_eq [OF i r] Let_def)
  show "bump_inv lo hi s' L" if "bump_alloc s l = Inr (0, s')" for s'
  proof -
    have "0 < lo" and "lo \<le> next_addr s" using i by (auto simp: bump_inv_def)
    moreover have "next_addr s \<le> aligned_above (next_addr s) (l_align l)"
      using r layout_ok_align [of l] aligned_above_props(2) [of "l_align l" "next_addr s"]
      by (simp add: alloc_request_def)
    ultimately show ?thesis
      using i that by (auto simp: bump_alloc_eq [OF i r] Let_def split: if_splits)
  qed
qed (auto simp: bump_touch_def intro: bump_alloc_inv bump_dealloc_inv bump_inv_blocks
    dest: bump_inv_nonnull)

section \<open>What the allocator promises\<close>

lemma bump_init_inv:
  assumes "0 < start" and "start + sz \<le> 2 ^ 63" and "bump_init bump_new start sz = Inr b"
  shows "bump_inv start (start + sz) b {}"
  using assms by (auto simp: bump_init_def bump_new_def bump_inv_def bindR_Inr_iff usize_Inr_iffs)

text \<open>
  C13: A bump allocator initialised on a heap in the lower half of the address space is safe: along
  every sequence of allocations, releases and client writes the live blocks are aligned, inside the
  heap and pairwise disjoint, no allowed request and no release of a live block panics, and every
  block handed out is disjoint from all live ones.
\<close>

theorem bump_safe:
  assumes "0 < start" and "start + sz \<le> 2 ^ 63" and "bump_init bump_new start sz = Inr b"
  shows "safe_heap bump_alloc bump_dealloc bump_touch alloc_request start (start + sz) b"
  by (rule bump_heap.safe_heapI [OF bump_init_inv [OF assms]])

text \<open>
  Whenever a program has released every block it obtained from the bump allocator, the whole heap
  is available again: a request succeeds if it fits into the heap as if the heap were new, and is
  answered with a null pointer otherwise.
\<close>

theorem bump_reuse:
  assumes "0 < start" and "start + sz \<le> 2 ^ 63" and "bump_init bump_new start sz = Inr b"
    and "heap_reach bump_alloc bump_dealloc bump_touch alloc_request b s {}"
    and "alloc_request l"
  shows "\<exists>s'. bump_alloc s l =
    (let a = aligned_above start (l_align l)
     in Inr (if a + l_size l \<le> start + sz then a else 0, s'))"
proof -
  have i: "bump_inv start (start + sz) s {}"
    by (rule bump_heap.reach_inv [OF bump_init_inv [OF assms(1-3)] assms(4)])
  then have "next_addr s = start" by (simp add: bump_inv_def)
  then show ?thesis by (simp add: bump_alloc_eq [OF i assms(5)] Let_def)
qed

theorem bump_safe_witness:
  "safe_heap bump_alloc bump_dealloc bump_touch alloc_request 4096 (4096 + 8192)
     \<lparr>heap_start = 4096, heap_end = 12288, next_addr = 4096, allocations = 0\<rparr>"
  by (rule bump_safe) (simp_all add: bump_init_def bump_new_def usize_defs)

theorem bump_reuse_witness:
  "\<exists>s'. bump_alloc \<lparr>heap_start = 4096, heap_end = 12288, next_addr = 4096, allocations = 0\<rparr>
     \<lparr>l_size = 100, l_align = 16\<rparr> = Inr (4096, s')"
proof -
  let ?b = "\<lparr>heap_start = 4096, heap_end = 12288, next_addr = 4096, allocations = 0\<rparr>"
  have "bump_init bump_new 4096 8192 = Inr ?b"
    by (simp add: bump_init_def bump_new_def usize_defs)
  moreover have "alloc_request \<lparr>l_size = 100, l_align = 16\<rparr>"
    by (simp add: alloc_request_def layout_ok_def layout_from_size_align_def) code_simp
  moreover have "heap_reach bump_alloc bump_dealloc bump_touch alloc_request ?b ?b {}"
    by (rule hr_start)
  ultimately show ?thesis
    using bump_reuse [of 4096 8192 ?b ?b "\<lparr>l_size = 100, l_align = 16\<rparr>"]
    by (simp add: aligned_above_def)
qed

end
