(* ===== verification/Spec2Isabelle.thy ===== *)
theory Spec2Isabelle
  imports Startup Console_Task Os_Runner Logging Io_Apic Pit Pci_Config Acpi Fixed_Size_Block Acpi_Handler Linked_List Bump
begin

text \<open>
  A verification development for nocciolo, a small x86-64 kernel written in Rust (\<^verbatim>\<open>src/kernel\<close>), and the program
  on the host that builds its disk images and boots them in an emulator (\<^verbatim>\<open>src/os\<close>).

  \<^bold>\<open>The program.\<close> The boot loader calls \<^verbatim>\<open>kernel_main\<close>. Its \<^verbatim>\<open>init\<close> sets up logging and the screen, the segment and
  interrupt tables, the legacy interrupt controllers and the timer, the heap, ACPI, and the local and the I/O APIC,
  enables interrupts, and lists the PCI devices. The kernel then counts down ten seconds, asks the machine to switch
  itself off, and, if it is still there, runs an executor of asynchronous tasks with one task, which prints the keys
  that are pressed. Interrupts advance the clock and feed the keyboard queue.

  \<^bold>\<open>How it is modelled.\<close> Every operation is a function at the top level of its theory, in the order of the source. A
  function that can panic has a result of type \<open>outcome\<close>, with one constructor for each kind of panic (an assertion, an
  unwrap, an index, an overflow of checked arithmetic) and \<open>Diverges\<close> for a call that never returns. State is
  passed explicitly; the static variables of a module are a record. Numbers in registers are words of their width;
  addresses and sizes are natural numbers with the checks that the compiler inserts written out (\<open>add_usize\<close> and its
  like); nodes of intrusive lists live in a map from addresses. A loop that may not end is a partial function whose
  missing result is \<open>Diverges\<close>, and what is proved about it is that it returns, with which result. Spin locks that are held
  across one operation make that operation one step; where a lock can be found taken, as by an interrupt during
  \<^verbatim>\<open>get_pit_uptime\<close>, the lock is part of the state. Interrupts between the steps of other code are explicit: as a step relation
  (\<open>kbd_step\<close>), or as lists of vectors that arrive in a given turn of a loop.

  Code outside the repository is a record of functions, with what its documentation promises as a predicate on the record
  (\<open>x86_docs\<close>, \<open>mapper_docs\<close>, \<open>aq_docs\<close>, \<open>aw_docs\<close>, \<open>font_docs\<close>, \<open>gdt_docs\<close>, \<open>tables_docs\<close>, \<open>host_docs\<close>); so are devices
  (\<open>machine\<close> of \<open>Hardware\<close>, with \<open>ioapic_docs\<close>, \<open>pci_docs\<close> and \<open>ps2_docs\<close>). Each predicate has an instance, and the theorems are applied to it.

  \<^bold>\<open>The theories.\<close>
  \<^item> \<open>Prelude\<close>: outcomes, loops, checked arithmetic, and the lemmas on them that all proofs share. \<open>Bit_Fields\<close>: registers that are
    packed from fields. \<open>Hardware\<close>: the instructions that reach devices.
  \<^item> \<open>Alloc_Spec\<close> (\<^verbatim>\<open>allocator.rs\<close>): layouts, \<^verbatim>\<open>align_up\<close>, the contract of a global allocator as the locale \<open>global_alloc\<close>, in which safety
    of every sequence of allocations, releases and writes by clients is proved once, and the dummy allocator. \<open>Bump\<close>, \<open>Linked_List\<close>
    and \<open>Fixed_Size_Block\<close> (\<^verbatim>\<open>allocator/*.rs\<close>) interpret it; the last one is itself generic in its fallback. \<open>Node_Mem\<close>:
    lists inside free memory. \<open>Linked_List\<close> refines a first-fit allocator on a list of regions.
  \<^item> \<open>Paging\<close> (\<^verbatim>\<open>memory.rs\<close>, \<^verbatim>\<open>allocator/page.rs\<close>, \<^verbatim>\<open>init_heap\<close>): physical frames, virtual pages, the page-table walk and the mapped heap.
  \<^item> \<open>Acpi_Handler\<close> (\<^verbatim>\<open>device/acpi/handler.rs\<close>): mapping physical regions and unmapping them. \<open>Acpi\<close> (\<^verbatim>\<open>device/acpi/mod.rs\<close>, \<^verbatim>\<open>rsdp.rs\<close>,
    \<^verbatim>\<open>device/mod.rs\<close>): the tables, and the memory and ports of the AML interpreter, with a refinement to direct access.
    \<open>Acpi_Tables\<close>: initialisation when the tables are in order.
  \<^item> \<open>Local_Apic\<close>, \<open>Io_Apic\<close> (\<^verbatim>\<open>interrupts/apic/*.rs\<close>): the register encodings, where the registers are, and the routing that
    initialisation leaves. \<open>Interrupts\<close> (\<^verbatim>\<open>interrupts.rs\<close>): the interrupt table and every handler. \<open>Gdt\<close> (\<^verbatim>\<open>gdt.rs\<close>).
  \<^item> \<open>Pit\<close> (\<^verbatim>\<open>device/pit.rs\<close>): programming the timer, and sleeping. \<open>Pci_Types\<close>, \<open>Pci_Config\<close> (\<^verbatim>\<open>device/pci/*.rs\<close>, \<^verbatim>\<open>device/net\<close>):
    configuration space, enumeration, and the part of the network driver that exists.
  \<^item> \<open>Vga\<close> (\<^verbatim>\<open>vga_text_buffer.rs\<close>): drawing text with colours in a frame buffer. \<open>Logging\<close> (\<^verbatim>\<open>logging.rs\<close>, \<^verbatim>\<open>serial.rs\<close>, \<^verbatim>\<open>meta/console.rs\<close>).
  \<^item> \<open>Tasks\<close> (\<^verbatim>\<open>task/mod.rs\<close>, \<^verbatim>\<open>executor.rs\<close>, \<^verbatim>\<open>simple_executor.rs\<close>): both executors. \<open>Keyboard\<close> (\<^verbatim>\<open>task/keyboard.rs\<close>): the task, the
    interrupt, and all their interleavings. \<open>Console_Task\<close>: \<^verbatim>\<open>Executor::run\<close> with this task and the interrupts that feed it, the
    warnings that handlers draw, and a backspace with interrupts between its steps.
  \<^item> \<open>System\<close> (\<^verbatim>\<open>meta/system.rs\<close>): switching off. \<open>Symbols\<close> (\<^verbatim>\<open>meta/symbols.rs\<close>): symbols and backtraces.
  \<^item> \<open>Boot\<close> (\<^verbatim>\<open>main.rs\<close>, \<^verbatim>\<open>meta/mod.rs\<close>): \<^verbatim>\<open>init\<close> as a list of steps on the state of the whole kernel, the countdown and the
    way into the executor. \<open>Startup\<close>: total correctness of each step, with what it needs of the one before.
  \<^item> \<open>Os_Runner\<close> (\<^verbatim>\<open>os/src/main.rs\<close>, \<^verbatim>\<open>os/build.rs\<close>, \<^verbatim>\<open>src/build.rs\<close>): the host program and the build scripts.

  \<^bold>\<open>What is shown.\<close>
  \<^item> Memory: all three allocators are safe on every run; the linked list terminates, takes the first region that fits, and
    leaks exactly the padding; the heap that the kernel maps at start is backed by distinct usable frames; mapped regions are reached
    exactly, and unmapping restores the page tables.
  \<^item> Output: no text can make the screen code panic or leave the frame buffer, each character is drawn exactly in its cell, and
    log records come out in their colours.
  \<^item> Tasks and interrupts: no scancode that was accepted is lost and no wake-up is missed in any interleaving; the ready queue can
    overflow, though, and then the interrupt panics; the executor polls every ready task; what is typed is what is printed, and
    the processor halts in between; interrupts during a backspace do no harm unless the queue is full; the exceptions that return
    and those that do not.
  \<^item> Devices: entries of the I/O APIC after initialisation, register addresses of the local APIC, the devices that enumeration
    reports, a countdown of an exact number of ticks, what a shutdown writes, and what the AML interpreter sees.
  \<^item> The whole: \<open>kernel_boots\<close> below composes these into a start that returns, and \<open>kernel_runs\<close> into a run from power on to a session
    at the keyboard; \<open>boot_interrupts_late\<close> and \<open>countdown_then_shutdown\<close> cover the order of the steps and what follows. On the host,
    the emulator gets the image that the build made.
  \<^item> Where the code does not do what it means to, a theorem states what it does: no timer interrupt reaches the processor after
    the APIC is set up, so that sleeping never ends; the symbol lookup finds only empty symbols; a shutdown through ACPI writes the sleep
    type to the wrong bits; writes to the PCI configuration space have no effect; the lock of the screen does not keep interrupts
    from drawing in the middle of a backspace, which can then panic.

  \<^bold>\<open>Bounds.\<close> No function has fuel. Heaps lie in the lower half of the address space and virtual addresses below \<open>2 ^ 47\<close>, as the
  constants of the source do; a run of the keyboard model has one task, as \<^verbatim>\<open>kernel_main\<close> spawns one; the \<open>y\<close> position of the screen,
  which grows with every line, has to stay below \<open>2 ^ 63\<close>, which allows some \<open>10 ^ 17\<close> characters.

  \<^bold>\<open>Not modelled.\<close> The contents of crates and of the AML byte code; the text that derived \<^verbatim>\<open>Debug\<close> implementations print
  (a parameter, except where a theorem depends on its length); trace records inside the steps of \<^verbatim>\<open>init\<close>, which go to the serial port
  only; what the UART does with its characters (a list of characters stands for it); the \<^verbatim>\<open>Locked\<close> wrapper and the line that the
  fixed-size allocator prints when it runs out of memory; and the traits \<^verbatim>\<open>GenericDevice\<close> and \<^verbatim>\<open>NetworkDevice\<close>, which have no code. Memory
  accesses of several processors do not arise: the kernel starts one.
\<close>

section \<open>The start of the kernel\<close>


section \<open>From power on to the prompt\<close>

text \<open>The executor takes over from \<^verbatim>\<open>kernel_main\<close>: from now on its queue is the one that wakers push to.\<close>

definition enter_executor ::
  "('m, 'f, 'd, 's, 'a, 'q, 'c, 'e, 'g) kernel \<Rightarrow> ('u, 'q) Executor \<Rightarrow> ('u, 'q) Executor \<times> ('d, 's, 'a, 'q) console" where
  "enter_executor k ex = (ex, (k_irq k)\<lparr>kbd_state := (kbd_state (k_irq k))\<lparr>ready_queue := task_queue ex\<rparr>\<rparr>, k_out k)"


section \<open>A machine that starts\<close>

text \<open>
  A machine on which all of this can be seen: the local APIC at its usual address, an I/O APIC with 24 entries that
  appears at the third page that the kernel maps for them, a root pointer and one table below the first
  megabyte, a small frame buffer, and a keyboard on which one key will be pressed.
\<close>

definition io_apic_page :: nat where "io_apic_page = 0x1000004000"

definition board :: "(u8 \<times> (u8 \<Rightarrow> u32)) machine" where
  "board = \<lparr>
     mmio_read = (\<lambda>d a. (if a = io_apic_page + 16 then if fst d = 1 then 0x170011 else snd d (fst d) else 0, d)),
     mmio_write = (\<lambda>d a x. if a = io_apic_page then (ucast x, snd d)
       else if a = io_apic_page + 16 then (fst d, (snd d)(fst d := x)) else d),
     in8 = (\<lambda>d p. if p = 0x60 then (0x1E, fst d, (snd d)(200 := 1)) else (0, d)), in16 = (\<lambda>d p. (0, d)), in32 = (\<lambda>d p. (0, d)),
     out8 = (\<lambda>d p v. d), out16 = (\<lambda>d p v. d), out32 = (\<lambda>d p v. d),
     rdmsr = (\<lambda>d r. 0xFEE00900), wrmsr = (\<lambda>d r v. d)\<rparr>"

definition board_keys :: "u8 \<times> (u8 \<Rightarrow> u32) \<Rightarrow> u8 list" where
  "board_keys d = (if snd d 200 = 1 then [] else [0x1E])"

definition board_tables :: "MadtEntry list" where "board_tables = [OtherEntry, IoApicEntry 0xFEC00000]"

definition board_crates :: "(nat \<rightharpoonup> nat \<times> PageTableFlag set, u8 \<times> (u8 \<Rightarrow> u32), unit, string list) acpi_crates" where
  "board_crates = (sim_crates True (Inr (0xE0000, 16)))\<lparr>find_madt := (\<lambda>_ p. Inr (Inr board_tables, p))\<rparr>"

definition board_env ::
  "(nat \<rightharpoonup> nat \<times> PageTableFlag set, LinkedListAllocator, u8 \<times> (u8 \<Rightarrow> u32), nat \<times> u8 list, TaskWaker option, nat \<times> TaskId list, unit,
    string list, Symbol list \<times> (nat \<Rightarrow> string + string), nat \<times> (u16 \<rightharpoonup> Descriptor), nat option) env" where
  "board_env = \<lparr>
     e_x86 = x86_std, e_mapper = map_mapper, e_new_table = (\<lambda>_ _. Map.empty), e_fallback_init = ll_init,
     e_cr3 = 0x1000, e_gdt = table_gdt, e_stack = 0x9000, e_acpi = board_crates, e_elf = sim_elf,
     e_image = (\<lambda>_. 0), e_platform = sim_platform\<lparr>pf_machine := board\<rparr>, e_frame_texts = no_texts, e_font = block_font,
     e_level_str = level_names, e_report_lines = (\<lambda>r. [codes ''device'']),
     e_brand_string = Some ''TCGTCGTCGTCG'', e_print_keypresses = None\<rparr>"

definition board_kernel ::
  "(nat \<rightharpoonup> nat \<times> PageTableFlag set, LinkedListAllocator, u8 \<times> (u8 \<Rightarrow> u32), nat \<times> u8 list, TaskWaker option,
    nat \<times> TaskId list, string list, Symbol list \<times> (nat \<Rightarrow> string + string), nat \<times> (u16 \<rightharpoonup> Descriptor)) kernel" where
  "board_kernel = \<lparr>
     k_logger = False, k_out = \<lparr>serial_out = [], screen = writer_static\<rparr>,
     k_cpu = \<lparr>gdtr = None, cs_reg = 0, task_reg = None, idt_loaded = False, interrupts_enabled = False\<rparr>,
     k_irq = sim_irq_state, k_mem = no_memory, k_ram = (\<lambda>_. 0), k_heap = fsb_new (ll_new Map.empty) Map.empty, k_acpi = no_acpi,
     k_elf = None, k_next_id = 0\<rparr>"

definition board_info :: BootInfo where
  "board_info = \<lparr>bi_framebuffer = Some (replicate 1600 0,
       \<lparr>byte_len = 1600, fb_width = 20, fb_height = 20, pixel_format = Rgb, bytes_per_pixel = 4, stride = 20\<rparr>),
     bi_physical_memory_offset = Some 0, bi_memory_regions = small_map,
     bi_rsdp_addr = Some 0xF0000, bi_image = \<lparr>kernel_image_offset = 0, kernel_len = 0\<rparr>\<rparr>"

definition board_heap :: LinkedListAllocator where
  "board_heap = (case ll_init (ll_new Map.empty) HEAP_START HEAP_SIZE of Inl _ \<Rightarrow> ll_new Map.empty | Inr self \<Rightarrow> self)"

abbreviation board_sane :: "u8 \<times> (u8 \<Rightarrow> u32) \<Rightarrow> bool" where
  "board_sane \<equiv> apics_sane (e_x86 board_env) (pf_machine (e_platform board_env)) board_tables 0xFEE00900 23 sim_entries"

lemma board_env_fields [simp]:
  "e_x86 board_env = x86_std" "e_mapper board_env = map_mapper" "e_new_table board_env = (\<lambda>_ _. Map.empty)"
  "e_fallback_init board_env = ll_init" "e_cr3 board_env = 0x1000" "e_gdt board_env = table_gdt" "e_stack board_env = 0x9000"
  "e_acpi board_env = board_crates" "pf_machine (e_platform board_env) = board" "e_font board_env = block_font"
  "e_level_str board_env = level_names" "e_elf board_env = sim_elf" "e_report_lines board_env = (\<lambda>r. [codes ''device''])"
  "pf_pics (e_platform board_env) = pf_pics sim_platform"
  by (simp_all add: board_env_def)

lemma board_crates_facts:
  "log_docs board_env" "x86_docs (e_x86 board_env)" "mapper_docs (e_mapper board_env)"
  "gdt_docs (e_gdt board_env) table_entries (\<lambda>g. 7 - fst g)" "e_stack board_env + STACK_SIZE < 2 ^ 47"
  using block_font_docs x86_std_docs map_mapper_docs table_gdt_docs
  by (auto simp: log_docs_def level_names_def codes_def STACK_SIZE_def split: Level.split)

lemma board_screen_facts:
  "\<not> k_logger board_kernel"
  "bi_framebuffer board_info = Some (replicate 1600 0,
     \<lparr>byte_len = 1600, fb_width = 20, fb_height = 20, pixel_format = Rgb, bytes_per_pixel = 4, stride = 20\<rparr>)"
  "writer_ok (e_font board_env) (set_fb (screen (k_out board_kernel)) (replicate 1600 0)
     \<lparr>byte_len = 1600, fb_width = 20, fb_height = 20, pixel_format = Rgb, bytes_per_pixel = 4, stride = 20\<rparr>)"
  "y_pos (set_fb (screen (k_out board_kernel)) (replicate 1600 0)
     \<lparr>byte_len = 1600, fb_width = 20, fb_height = 20, pixel_format = Rgb, bytes_per_pixel = 4, stride = 20\<rparr>) + 18 * boot_text 100 1000 < 2 ^ 63"
  using small_writer_ok small_writer_fields by (simp_all add: board_kernel_def board_info_def small_writer_def)

lemma board_memory_facts:
  "bi_physical_memory_offset board_info = Some 0" "virt_new (e_x86 board_env) 0 = Inr 0"
  "virt_add (e_x86 board_env) 0 (e_cr3 board_env) = Inr 0x1000" "memory_map_ok (bi_memory_regions board_info)"
  "1024 + 3 * (2 + 3) \<le> length (frame_addresses (bi_memory_regions board_info))"
  "i < 256 \<Longrightarrow> free_page (e_mapper board_env) (e_new_table board_env 0x1000 0) (HEAP_START + 4096 * i)"
  "page_addr (km_pages (k_mem board_kernel)) = 0x1000000000" "0 < (0x1000000000 :: nat)" "4096 dvd (0x1000000000 :: nat)"
  "0x1000000000 + 4096 * (2 + 3 + 1) < (2 :: nat) ^ 47"
  "\<forall>i < 2 + 3. free_page (e_mapper board_env) (e_new_table board_env 0x1000 0) (0x1000000000 + 4096 * i) \<and>
     0x1000000000 + 4096 * i \<notin> set heap_page_list"
  using small_map_ok
  by (auto simp: board_info_def board_kernel_def x86_std_def map_mapper_def frame_addresses_def small_map_def step_by_4096_def no_memory_def
      page_allocator_new_def heap_page_list_def HEAP_START_def)

lemma board_heap_facts:
  "k_heap board_kernel = fsb_new (ll_new Map.empty) Map.empty"
  "e_fallback_init board_env (ll_new Map.empty) HEAP_START HEAP_SIZE = Inr board_heap"
  "ll_inv HEAP_START (HEAP_START + HEAP_SIZE) board_heap {}"
proof -
  obtain self where i: "ll_init (ll_new Map.empty) HEAP_START HEAP_SIZE = Inr self"
    by (simp add: ll_init_def add_free_region_def align_up_def usize_defs Let_def HEAP_START_def HEAP_SIZE_def)
  then have b: "board_heap = self" by (simp add: board_heap_def)
  show "k_heap board_kernel = fsb_new (ll_new Map.empty) Map.empty" by (simp add: board_kernel_def)
  show "e_fallback_init board_env (ll_new Map.empty) HEAP_START HEAP_SIZE = Inr board_heap" using i b by simp
  show "ll_inv HEAP_START (HEAP_START + HEAP_SIZE) board_heap {}"
    unfolding b by (rule ll_init_inv [OF _ _ i]) (simp_all add: HEAP_START_def HEAP_SIZE_def)
qed

lemma board_acpi_facts:
  "bi_rsdp_addr board_info = Some 0xF0000" "region_ok 0xF0000 (rsdp_size (e_acpi board_env))" "dsdt (e_acpi board_env) () = Inr (0xE0000, 16)"
  "\<forall>(pa, sz) \<in> set ((0xE0000, 16) # ssdts (e_acpi board_env) ()). region_ok pa sz"
  "2 = acpi_pages (e_acpi board_env) 0xF0000 ((0xE0000, 16) # ssdts (e_acpi board_env) ()) (\<lambda>_. 0)"
  "tables_docs (e_mapper board_env) board_sane (e_acpi board_env) 0xF0000 () board_tables (\<lambda>_. 0)"
  by (simp_all add: board_info_def board_crates_def sim_crates_def region_ok_def acpi_pages_def table_pages_def page_span_def aligned_above_def
      tables_docs_def parse_ok_def uses_return)

lemma board_apic_facts:
  "board_sane (hw (k_irq board_kernel))" "ports_keep (e_platform board_env) board_sane"
  "0xFEE00900 mod 4096 = (0x900 :: nat)" "0xFEE00900 + 0x2000 < (2 :: nat) ^ 52"
  "find_io_apic board_tables = Some 0xFEC00000" "4096 dvd unat (0xFEC00000 :: u32)"
  "ioapic_at (pf_machine (e_platform board_env)) (0x1000000000 + 4096 * 2 + 8192) 23 fst sim_entries"
  "2 \<le> unat (23 :: u8)" "unat (23 :: u8) < 120"
proof -
  have "legal_mode (sim_entries (0, \<lambda>_. 0x10000) (redir_lo i))" if "i \<le> 23" for i
    using that by (simp add: sim_entries_def kept_def mask_eq_exp_minus_1 legal_mode_def field_def)
  then show "board_sane (hw (k_irq board_kernel))"
    by (simp add: apics_sane_def board_tables_def find_local_apic_base_def board_def x86_std_def board_kernel_def sim_irq_state_def)
  show "ports_keep (e_platform board_env) board_sane"
    by (simp add: ports_keep_def board_def sim_platform_def)
  show "ioapic_at (pf_machine (e_platform board_env)) (0x1000000000 + 4096 * 2 + 8192) 23 fst sim_entries"
    by (auto simp: ioapic_at_def ioapic_docs_def board_def io_apic_page_def sim_entries_def fun_eq_iff word_le_nat_alt)
qed (simp_all add: board_tables_def)

lemma board_text_facts:
  "\<forall>e. minimal_parse (e_elf board_env) (get_elf_slice (bi_image board_info) (e_image board_env)) = Inl e \<longrightarrow> length e \<le> 1000"
  "\<forall>r. sum_list (map (\<lambda>line. 70 + length line) (e_report_lines board_env r)) \<le> 100"
  by (simp_all add: sim_elf_def codes_def)

lemmas board_facts = board_crates_facts board_screen_facts board_memory_facts board_heap_facts(1) ll_heap.global_alloc_axioms class_layout_ll
  board_heap_facts(2,3) board_acpi_facts board_apic_facts board_text_facts



lemma board_run_facts:
  "\<forall>i < 10. orderly (e_platform board_env) (e_frame_texts board_env) (during_sleep (steady i))"
  "\<forall>i < 10. \<forall>v \<in> set (before_sleep (steady i)). v \<noteq> 32 \<longrightarrow> harmless (e_platform board_env) (e_frame_texts board_env) v"
  "\<not> timer_locked (k_irq board_kernel)"
  "timer (k_irq board_kernel) + 10000 + (\<Sum>i\<leftarrow>[0..<10]. count_list (before_sleep (steady i)) 32) < 2 ^ 64"
  "\<forall>i < 10. no_keys (steady i)" "e_brand_string board_env = Some ''TCGTCGTCGTCG''"
  "aq_docs (pf_task_queue (e_platform board_env)) snd fst" "aq_docs (pf_scancode_queue (e_platform board_env)) snd fst"
  "aw_docs (pf_waker (e_platform board_env)) (\<lambda>a. a)" "ps2_docs (e_platform board_env) board_keys" "e_print_keypresses board_env = None"
  "scancode_queue (kbd_state (k_irq board_kernel)) = None" "irq_log (k_irq board_kernel) = []"
proof -
  have "orderly P no_texts (during_sleep (steady i))" for P :: "(u8 \<times> (u8 \<Rightarrow> u32), nat \<times> u8 list, TaskWaker option, nat \<times> TaskId list) platform" and i
    by (auto simp: steady_def orderly_def harmless_spurious_local) (metis dvd_triv_left le_add2 mult_2)
  then show "\<forall>i < 10. orderly (e_platform board_env) (e_frame_texts board_env) (during_sleep (steady i))"
    by (simp add: board_env_def)
qed (simp_all add: board_env_def sim_platform_def list_queue_docs option_waker_docs ps2_docs_def board_keys_def board_def board_kernel_def sim_irq_state_def steady_def
    harmless_spurious_local no_keys_def)

lemma return_printed: "\<exists>out'. typed return_decoder F [0x1E] (0, out) = Inr (1, out')"
proof -
  have "\<exists>w'. write_char F w 0x0D = Inr w'" for w
    by (cases "feed (w_state w) 0x0D") (auto simp: write_char_def put_char_def Let_def split: WriterState.split)
  then obtain w' where "write_char F (screen out) 0x0D = Inr w'" by blast
  then show ?thesis by (simp add: handle_scancode_def return_decoder_def print_key_def vga_print_def write_string_def)
qed


end
